theory Spec2Isabelle
  imports Main "HOL-Library.Word"
begin

unbundle bit_operations_syntax

section \<open>Machine types and error codes\<close>

text \<open>
  The drivers are C code for ia32: \<open>unsigned int\<close> is a 32-bit word and
  \<open>unsigned char\<close> an 8-bit word. Arithmetic on both wraps around.
\<close>

type_synonym uint = "32 word"
type_synonym uchar = "8 word"

text \<open>
  The negative errno values the drivers return; \<open>EOK\<close> is the \<open>Inr\<close> side of a result.
  \<open>UB\<close> is not an errno: it marks an execution that C leaves undefined (an index past
  the end of an array, the inactive member of a union). The tables of the drivers admit
  no such execution. \<open>OVERRUN\<close> is not an errno either: it marks a \<open>memset\<close> that runs
  past the end of the mapped video memory. The function does not return from it in any
  defined way; the adapters whose memory is smaller than a frame do admit it.
\<close>

datatype error = EINVAL | ENOTSUP | EFAULT | ENOSPC | UB | OVERRUN

text \<open>
  \<open>abs((int)a - (int)b)\<close> stored back into an \<open>unsigned int\<close>. The argument is the
  32-bit difference; a set top bit is a negative \<open>int\<close>. Signed overflow (undefined in C)
  is the two's-complement wrap-around of the target.
\<close>

definition c_abs :: "uint \<Rightarrow> uint" where
  "c_abs s = (if s <s 0 then - s else s)"

section \<open>Clock synthesis (cirrus.c)\<close>

definition MIN_VCLK :: uint where
  "MIN_VCLK = 28636"

definition MAX_VCLK :: uint where
  "MAX_VCLK = 111000"

record cirrus_vclk_t =
  freq :: uint
  num :: uchar
  den :: uchar

definition mk_vclk :: "uint \<Rightarrow> uchar \<Rightarrow> uchar \<Rightarrow> cirrus_vclk_t" where
  "mk_vclk f n d = \<lparr>freq = f, num = n, den = d\<rparr>"

text \<open>The table of known stable clocks, with its terminating entry \<open>{ 0 }\<close>.\<close>

definition vclks :: "cirrus_vclk_t list" where
  "vclks =
   [mk_vclk 12599 0x2c 0x33, mk_vclk 25226 0x4a 0x2b, mk_vclk 28324 0x5b 0x2f,
    mk_vclk 31499 0x42 0x1f, mk_vclk 36081 0x7e 0x33, mk_vclk 39991 0x51 0x3a,
    mk_vclk 41164 0x45 0x30, mk_vclk 45075 0x55 0x36, mk_vclk 49866 0x65 0x3a,
    mk_vclk 64981 0x76 0x34, mk_vclk 72162 0x7e 0x32, mk_vclk 74999 0x6e 0x2a,
    mk_vclk 80012 0x5f 0x22, mk_vclk 85226 0x7d 0x2a, mk_vclk 89998 0x58 0x1c,
    mk_vclk 95019 0x49 0x16, mk_vclk 100226 0x46 0x14, mk_vclk 108035 0x53 0x16,
    mk_vclk 109771 0x5c 0x18, mk_vclk 120050 0x6d 0x1a, mk_vclk 125998 0x58 0x14,
    mk_vclk 130055 0x6d 0x18, mk_vclk 134998 0x42 0x0e, mk_vclk 150339 0x69 0x14,
    mk_vclk 168236 0x5e 0x10, mk_vclk 188179 0x5c 0x0e, mk_vclk 210679 0x67 0x0e,
    mk_vclk 229088 0x60 0x0c,
    mk_vclk 0 0 0]"

text \<open>\<open>cirrus_vco\<close>: the internal VCO in kHz.\<close>

definition cirrus_vco :: "uint \<Rightarrow> uint \<Rightarrow> uint" where
  "cirrus_vco n d = (n AND 0x7f) * MIN_VCLK div (d AND 0x3e)"

text \<open>
  The first loop of \<open>cirrus_vclk\<close>: scan the table up to the entry of frequency 0 and
  take the first entry within 0.1 percent of the target. Running past the array cannot
  happen on \<open>vclks\<close> (its last entry stops the loop); the empty list is that case.
\<close>

fun vclk_table :: "uint \<Rightarrow> cirrus_vclk_t list \<Rightarrow> cirrus_vclk_t option" where
  "vclk_table fr [] = None"
| "vclk_table fr (e # es) =
     (if freq e = 0 then None
      else if c_abs (freq e - fr) < fr div 1000 then Some e
      else vclk_table fr es)"

text \<open>
  The body of the two nested search loops, on the pair (best clock so far, \<open>mindiff\<close>).
\<close>

definition vclk_body :: "uint \<Rightarrow> uint \<Rightarrow> uint \<Rightarrow> uint \<Rightarrow>
    cirrus_vclk_t \<times> uint \<Rightarrow> cirrus_vclk_t \<times> uint" where
  "vclk_body maxvclk fr n d acc =
     (let f = cirrus_vco n d in
      if f < MIN_VCLK \<or> f > maxvclk then acc
      else
        let f' = drop_bit (unat (d AND 0x1)) f;
            diff = c_abs (f' - fr)
        in if diff < snd acc
           then (\<lparr>freq = f', num = ucast n, den = ucast d\<rparr>, diff)
           else acc)"

text \<open>\<open>for (n = 0x10; n < 0x7f; n++) for (d = 0x14; d < 0x3f; d++)\<close>.\<close>

definition vclk_search :: "uint \<Rightarrow> uint \<Rightarrow> cirrus_vclk_t \<times> uint \<Rightarrow> cirrus_vclk_t \<times> uint" where
  "vclk_search maxvclk fr acc =
     fold (\<lambda>n. fold (\<lambda>d. vclk_body maxvclk fr (of_nat n) (of_nat d)) [0x14 ..< 0x3f])
       [0x10 ..< 0x7f] acc"

text \<open>
  \<open>cirrus_vclk\<close>: the status and the clock written through the pointer. On failure the
  caller reads nothing of \<open>*vclk\<close>, so the failing result carries only the error.
\<close>

definition cirrus_vclk :: "uint \<Rightarrow> cirrus_vclk_t \<Rightarrow> error + cirrus_vclk_t" where
  "cirrus_vclk maxvclk vclk =
     (let fr = freq vclk in
      case vclk_table fr vclks of
        Some e \<Rightarrow> Inr e
      | None \<Rightarrow>
          let maxvclk' = (if maxvclk < MAX_VCLK then MAX_VCLK else maxvclk);
              best = fst (vclk_search maxvclk' fr (vclk\<lparr>freq := 0\<rparr>, fr))
          in if freq best \<noteq> 0 then Inr best else Inl EINVAL)"

subsection \<open>The search space in the words of the specification\<close>

text \<open>
  The candidates in iteration order (ascending numerator, then ascending denominator),
  the achieved frequency of a candidate (the VCO, halved when the denominator is odd),
  the stability band, the distance to the target and the clock a candidate stands for.
\<close>

definition vclk_cands :: "(nat \<times> nat) list" where
  "vclk_cands = List.product [0x10 ..< 0x7f] [0x14 ..< 0x3f]"

definition vclk_freq :: "nat \<Rightarrow> nat \<Rightarrow> uint" where
  "vclk_freq n d =
     (if odd d then drop_bit 1 (cirrus_vco (of_nat n) (of_nat d))
      else cirrus_vco (of_nat n) (of_nat d))"

definition vclk_stable :: "uint \<Rightarrow> nat \<Rightarrow> nat \<Rightarrow> bool" where
  "vclk_stable ceiling n d =
     (MIN_VCLK \<le> cirrus_vco (of_nat n) (of_nat d) \<and> cirrus_vco (of_nat n) (of_nat d) \<le> ceiling)"

definition vclk_dist :: "uint \<Rightarrow> nat \<Rightarrow> nat \<Rightarrow> int" where
  "vclk_dist fr n d = \<bar>uint (vclk_freq n d) - uint fr\<bar>"

definition vclk_of :: "nat \<Rightarrow> nat \<Rightarrow> cirrus_vclk_t" where
  "vclk_of n d = \<lparr>freq = vclk_freq n d, num = of_nat n, den = of_nat d\<rparr>"

definition vclk_before :: "nat \<times> nat \<Rightarrow> nat \<times> nat \<Rightarrow> bool" where
  "vclk_before p q = (fst p < fst q \<or> fst p = fst q \<and> snd p < snd q)"

text \<open>
  The loop body again, on a candidate of \<open>vclk_cands\<close>: the key of a candidate is
  the \<open>diff\<close> the code computes for it.
\<close>

definition vclk_key :: "uint \<Rightarrow> nat \<times> nat \<Rightarrow> uint" where
  "vclk_key fr c = c_abs (vclk_freq (fst c) (snd c) - fr)"

definition vclk_step :: "uint \<Rightarrow> uint \<Rightarrow> nat \<times> nat \<Rightarrow> cirrus_vclk_t \<times> uint \<Rightarrow> cirrus_vclk_t \<times> uint" where
  "vclk_step mx fr c acc =
     (if vclk_stable mx (fst c) (snd c) \<and> vclk_key fr c < snd acc
      then (vclk_of (fst c) (snd c), vclk_key fr c) else acc)"


text \<open>
  The relation between the fields of a clock: the frequency is the internal VCO of the
  numerator and denominator, shifted right by one bit when the denominator is odd.
\<close>

definition vclk_halved :: "cirrus_vclk_t \<Rightarrow> bool" where
  "vclk_halved r \<longleftrightarrow>
     freq r = (if odd (unat (den r)) then drop_bit 1 (cirrus_vco (ucast (num r)) (ucast (den r)))
               else cirrus_vco (ucast (num r)) (ucast (den r)))"

section \<open>The VGA library (libvga.h, vga.c)\<close>

subsection \<open>Mode descriptions and saved state\<close>

definition VGA_MEMSZ :: nat where
  "VGA_MEMSZ = 0x10000"

definition VGA_CMAPSZ :: nat where
  "VGA_CMAPSZ = 768"

definition VGA_TEXTSZ :: nat where
  "VGA_TEXTSZ = VGA_MEMSZ div 2"

definition VGA_FONTSZ :: nat where
  "VGA_FONTSZ = VGA_MEMSZ"

definition VGA_HSYNCP :: uchar where
  "VGA_HSYNCP = 0x01"

definition VGA_VSYNCP :: uchar where
  "VGA_VSYNCP = 0x02"

definition VGA_CLKDIV :: uchar where
  "VGA_CLKDIV = 0x04"

definition VGA_DBLSCAN :: uchar where
  "VGA_DBLSCAN = 0x08"

definition VGA_INTERLACE :: uchar where
  "VGA_INTERLACE = 0x10"

record vga_mode_t =
  clk :: uint
  hres :: uint
  hsyncs :: uint
  hsynce :: uint
  htotal :: uint
  hskew :: uint
  vres :: uint
  vsyncs :: uint
  vsynce :: uint
  vtotal :: uint
  vscan :: uint
  flags :: uchar

definition mk_mode :: "uint \<Rightarrow> uint \<Rightarrow> uint \<Rightarrow> uint \<Rightarrow> uint \<Rightarrow> uint \<Rightarrow>
    uint \<Rightarrow> uint \<Rightarrow> uint \<Rightarrow> uint \<Rightarrow> uint \<Rightarrow> uchar \<Rightarrow> vga_mode_t" where
  "mk_mode c hr hs he ht hk vr vs ve vt vm fl =
     \<lparr>clk = c, hres = hr, hsyncs = hs, hsynce = he, htotal = ht, hskew = hk,
      vres = vr, vsyncs = vs, vsynce = ve, vtotal = vt, vscan = vm, flags = fl\<rparr>"

text \<open>
  \<open>vga_state_t\<close>. The register arrays are indexed by position; a buffer pointer is
  \<open>None\<close> when it is \<open>NULL\<close> and otherwise the buffer it points to.
\<close>

record vga_state_t =
  misc :: uchar
  crtc :: "nat \<Rightarrow> uchar"
  seq :: "nat \<Rightarrow> uchar"
  gfx :: "nat \<Rightarrow> uchar"
  attr :: "nat \<Rightarrow> uchar"
  cmap :: "(nat \<Rightarrow> uchar) option"
  text_buf :: "(nat \<Rightarrow> uchar) option"
  font1 :: "(nat \<Rightarrow> uchar) option"
  font2 :: "(nat \<Rightarrow> uchar) option"

subsection \<open>The register access facade\<close>

text \<open>
  Modelled from the spec: the low level interface of libvga.h (\<open>vga_status\<close>,
  \<open>vga_readmisc\<close> ... \<open>vga_writedac\<close>, \<open>vga_enablecmap\<close>, \<open>vga_disablecmap\<close>) is declared
  there and implemented outside src/. The specification describes it as a synchronous
  get/set of named register banks: each bank is a file of byte registers, a read
  returns the byte last written, a write stores it. The device behind a \<open>vga_t\<close> handle
  is the register banks, the mapped memory window and the log of every access made
  through the facade, in order. What the window shows is taken as it is; the effect of
  the plane-select registers on it belongs to the device and is not modelled.
\<close>

datatype vga_event =
    Status
  | ReadMisc | WriteMisc uchar
  | ReadCrtc uchar | WriteCrtc uchar uchar
  | ReadSeq uchar | WriteSeq uchar uchar
  | ReadGfx uchar | WriteGfx uchar uchar
  | ReadAttr uchar | WriteAttr uchar uchar
  | ReadDac uchar | WriteDac uchar uchar
  | EnableCmap | DisableCmap
  | MemRead nat | MemWrite nat

record vga_t =
  r_misc :: uchar
  r_crtc :: "uchar \<Rightarrow> uchar"
  r_seq :: "uchar \<Rightarrow> uchar"
  r_gfx :: "uchar \<Rightarrow> uchar"
  r_attr :: "uchar \<Rightarrow> uchar"
  r_dac :: "uchar \<Rightarrow> uchar"
  r_status :: uchar
  mem :: "nat \<Rightarrow> uchar"
  trace :: "vga_event list"

definition logged :: "vga_event \<Rightarrow> vga_t \<Rightarrow> vga_t" where
  "logged e vga = vga\<lparr>trace := trace vga @ [e]\<rparr>"

definition vga_status :: "vga_t \<Rightarrow> uchar \<times> vga_t" where
  "vga_status vga = (r_status vga, logged Status vga)"

definition vga_readmisc :: "vga_t \<Rightarrow> uchar \<times> vga_t" where
  "vga_readmisc vga = (r_misc vga, logged ReadMisc vga)"

definition vga_writemisc :: "vga_t \<Rightarrow> uchar \<Rightarrow> vga_t" where
  "vga_writemisc vga val = logged (WriteMisc val) (vga\<lparr>r_misc := val\<rparr>)"

definition vga_readcrtc :: "vga_t \<Rightarrow> uchar \<Rightarrow> uchar \<times> vga_t" where
  "vga_readcrtc vga reg = (r_crtc vga reg, logged (ReadCrtc reg) vga)"

definition vga_writecrtc :: "vga_t \<Rightarrow> uchar \<Rightarrow> uchar \<Rightarrow> vga_t" where
  "vga_writecrtc vga reg val = logged (WriteCrtc reg val) (vga\<lparr>r_crtc := (r_crtc vga)(reg := val)\<rparr>)"

definition vga_readseq :: "vga_t \<Rightarrow> uchar \<Rightarrow> uchar \<times> vga_t" where
  "vga_readseq vga reg = (r_seq vga reg, logged (ReadSeq reg) vga)"

definition vga_writeseq :: "vga_t \<Rightarrow> uchar \<Rightarrow> uchar \<Rightarrow> vga_t" where
  "vga_writeseq vga reg val = logged (WriteSeq reg val) (vga\<lparr>r_seq := (r_seq vga)(reg := val)\<rparr>)"

definition vga_readgfx :: "vga_t \<Rightarrow> uchar \<Rightarrow> uchar \<times> vga_t" where
  "vga_readgfx vga reg = (r_gfx vga reg, logged (ReadGfx reg) vga)"

definition vga_writegfx :: "vga_t \<Rightarrow> uchar \<Rightarrow> uchar \<Rightarrow> vga_t" where
  "vga_writegfx vga reg val = logged (WriteGfx reg val) (vga\<lparr>r_gfx := (r_gfx vga)(reg := val)\<rparr>)"

definition vga_readattr :: "vga_t \<Rightarrow> uchar \<Rightarrow> uchar \<times> vga_t" where
  "vga_readattr vga reg = (r_attr vga reg, logged (ReadAttr reg) vga)"

definition vga_writeattr :: "vga_t \<Rightarrow> uchar \<Rightarrow> uchar \<Rightarrow> vga_t" where
  "vga_writeattr vga reg val = logged (WriteAttr reg val) (vga\<lparr>r_attr := (r_attr vga)(reg := val)\<rparr>)"

definition vga_readdac :: "vga_t \<Rightarrow> uchar \<Rightarrow> uchar \<times> vga_t" where
  "vga_readdac vga reg = (r_dac vga reg, logged (ReadDac reg) vga)"

definition vga_writedac :: "vga_t \<Rightarrow> uchar \<Rightarrow> uchar \<Rightarrow> vga_t" where
  "vga_writedac vga reg val = logged (WriteDac reg val) (vga\<lparr>r_dac := (r_dac vga)(reg := val)\<rparr>)"

definition vga_enablecmap :: "vga_t \<Rightarrow> vga_t" where
  "vga_enablecmap vga = logged EnableCmap vga"

definition vga_disablecmap :: "vga_t \<Rightarrow> vga_t" where
  "vga_disablecmap vga = logged DisableCmap vga"

text \<open>
  \<open>memcpy\<close> between the mapped window and a buffer: \<open>n\<close> bytes from the start of the
  window into the buffer at offset \<open>off\<close>, and back.
\<close>

definition mem_to_buf :: "vga_t \<Rightarrow> (nat \<Rightarrow> uchar) \<Rightarrow> nat \<Rightarrow> nat \<Rightarrow> (nat \<Rightarrow> uchar) \<times> vga_t" where
  "mem_to_buf vga buf off n =
     ((\<lambda>i. if off \<le> i \<and> i < off + n then mem vga (i - off) else buf i), logged (MemRead n) vga)"

definition buf_to_mem :: "vga_t \<Rightarrow> (nat \<Rightarrow> uchar) \<Rightarrow> nat \<Rightarrow> nat \<Rightarrow> vga_t" where
  "buf_to_mem vga buf off n =
     logged (MemWrite n) (vga\<lparr>mem := (\<lambda>i. if i < n then buf (off + i) else mem vga i)\<rparr>)"

subsection \<open>Locks and blanking (vga.c)\<close>

definition vga_lock :: "vga_t \<Rightarrow> vga_t" where
  "vga_lock vga = (let (v, vga) = vga_readcrtc vga 0x11 in vga_writecrtc vga 0x11 (v OR 0x80))"

definition vga_unlock :: "vga_t \<Rightarrow> vga_t" where
  "vga_unlock vga = (let (v, vga) = vga_readcrtc vga 0x11 in vga_writecrtc vga 0x11 (v AND NOT 0x80))"

definition vga_mlock :: "vga_t \<Rightarrow> vga_t" where
  "vga_mlock vga =
     (let (v, vga) = vga_readseq vga 0x01;
          vga = vga_writeseq vga 0x01 (v OR 0x20);
          vga = vga_writeseq vga 0x00 0x01
      in vga_enablecmap vga)"

definition vga_munlock :: "vga_t \<Rightarrow> vga_t" where
  "vga_munlock vga =
     (let vga = vga_writeseq vga 0x00 0x03;
          (v, vga) = vga_readseq vga 0x01;
          vga = vga_writeseq vga 0x01 (v AND NOT 0x20)
      in vga_disablecmap vga)"

definition vga_blank :: "vga_t \<Rightarrow> vga_t" where
  "vga_blank vga =
     (let (sr01, vga) = vga_readseq vga 0x01;
          vga = vga_writeseq vga 0x00 0x01;
          vga = vga_writeseq vga 0x01 (sr01 OR 0x20)
      in vga_writeseq vga 0x00 0x03)"

definition vga_unblank :: "vga_t \<Rightarrow> vga_t" where
  "vga_unblank vga =
     (let (sr01, vga) = vga_readseq vga 0x01;
          vga = vga_writeseq vga 0x00 0x01;
          vga = vga_writeseq vga 0x01 (sr01 AND NOT 0x20)
      in vga_writeseq vga 0x00 0x03)"

subsection \<open>Saving and restoring the mode registers\<close>






definition vga_restoremode :: "vga_t \<Rightarrow> vga_state_t \<Rightarrow> vga_t" where
  "vga_restoremode vga state =
     (let vga = vga_writemisc vga (misc state);
          vga = vga_writecrtc vga 0x11 (crtc state 0x11 AND NOT 0x80);
          vga = fold (\<lambda>i vga. vga_writecrtc vga (of_nat i) (crtc state i)) [0 ..< 25] vga;
          vga = fold (\<lambda>i vga. vga_writeseq vga (of_nat i) (seq state i)) [1 ..< 5] vga;
          vga = fold (\<lambda>i vga. vga_writegfx vga (of_nat i) (gfx state i)) [0 ..< 9] vga;
          vga = vga_enablecmap vga;
          vga = fold (\<lambda>i vga. vga_writeattr vga (of_nat i) (attr state i)) [0 ..< 21] vga
      in vga_disablecmap vga)"

subsection \<open>Saving and restoring the colour map\<close>



definition restore_cmap :: "(nat \<Rightarrow> uchar) \<Rightarrow> nat \<Rightarrow> vga_t \<Rightarrow> vga_t" where
  "restore_cmap buf i vga =
     (let vga = vga_writedac vga 0x03 (buf i);
          (_, vga) = vga_status vga;
          (_, vga) = vga_status vga
      in vga)"

definition vga_restorecmap :: "vga_t \<Rightarrow> vga_state_t \<Rightarrow> vga_t" where
  "vga_restorecmap vga state =
     (case cmap state of
        None \<Rightarrow> vga
      | Some buf \<Rightarrow>
          let vga = vga_writedac vga 0x00 0xff;
              vga = vga_writedac vga 0x02 0x00;
              vga = fold (restore_cmap buf) [0 ..< VGA_CMAPSZ] vga
          in vga_disablecmap vga)"

subsection \<open>Saving and restoring fonts and text\<close>

text \<open>
  The two \<open>memcpy\<close> directions of \<open>vga_copytext\<close>: \<open>dir\<close> nonzero copies the buffer into
  the window, \<open>dir\<close> zero copies the window into the buffer.
\<close>

definition copy_plane :: "uchar \<Rightarrow> vga_t \<Rightarrow> (nat \<Rightarrow> uchar) \<Rightarrow> nat \<Rightarrow> nat \<Rightarrow>
    vga_t \<times> (nat \<Rightarrow> uchar)" where
  "copy_plane dir vga buf off n =
     (if dir \<noteq> 0 then (buf_to_mem vga buf off n, buf)
      else let (buf, vga) = mem_to_buf vga buf off n in (vga, buf))"

definition copy_font1 :: "uchar \<Rightarrow> vga_t \<times> vga_state_t \<Rightarrow> vga_t \<times> vga_state_t" where
  "copy_font1 dir p =
     (case font1 (snd p) of
        None \<Rightarrow> p
      | Some buf \<Rightarrow>
          let vga = vga_writeseq (fst p) 0x02 0x04;
              vga = vga_writegfx vga 0x04 0x02;
              (vga, buf) = copy_plane dir vga buf 0 VGA_FONTSZ
          in (vga, (snd p)\<lparr>font1 := Some buf\<rparr>))"

definition copy_font2 :: "uchar \<Rightarrow> vga_t \<times> vga_state_t \<Rightarrow> vga_t \<times> vga_state_t" where
  "copy_font2 dir p =
     (case font2 (snd p) of
        None \<Rightarrow> p
      | Some buf \<Rightarrow>
          let vga = vga_writeseq (fst p) 0x02 0x08;
              vga = vga_writegfx vga 0x04 0x03;
              (vga, buf) = copy_plane dir vga buf 0 VGA_FONTSZ
          in (vga, (snd p)\<lparr>font2 := Some buf\<rparr>))"

definition copy_text :: "uchar \<Rightarrow> vga_t \<times> vga_state_t \<Rightarrow> vga_t \<times> vga_state_t" where
  "copy_text dir p =
     (case text_buf (snd p) of
        None \<Rightarrow> p
      | Some buf \<Rightarrow>
          let vga = vga_writeseq (fst p) 0x02 0x01;
              vga = vga_writegfx vga 0x04 0x00;
              (vga, buf) = copy_plane dir vga buf 0 (VGA_TEXTSZ div 2);
              vga = vga_writeseq vga 0x02 0x02;
              vga = vga_writegfx vga 0x04 0x01;
              (vga, buf) = copy_plane dir vga buf (VGA_TEXTSZ div 2) (VGA_TEXTSZ div 2)
          in (vga, (snd p)\<lparr>text_buf := Some buf\<rparr>))"

definition vga_copytext :: "vga_t \<Rightarrow> vga_state_t \<Rightarrow> uchar \<Rightarrow> vga_t \<times> vga_state_t" where
  "vga_copytext vga state dir =
     (let (misc0, vga) = vga_readmisc vga;
          (gr01, vga) = vga_readgfx vga 0x01;
          (gr03, vga) = vga_readgfx vga 0x03;
          (gr04, vga) = vga_readgfx vga 0x04;
          (gr05, vga) = vga_readgfx vga 0x05;
          (gr06, vga) = vga_readgfx vga 0x06;
          (gr08, vga) = vga_readgfx vga 0x08;
          (sr02, vga) = vga_readseq vga 0x02;
          (sr04, vga) = vga_readseq vga 0x04;
          vga = vga_writemisc vga (misc0 OR 0x01);
          vga = vga_blank vga;
          vga = vga_writeseq vga 0x04 0x06;
          vga = vga_writegfx vga 0x01 0x00;
          vga = vga_writegfx vga 0x03 0x00;
          vga = vga_writegfx vga 0x05 0x00;
          vga = vga_writegfx vga 0x06 0x05;
          vga = vga_writegfx vga 0x08 0xff;
          (vga, state) = copy_font1 dir (vga, state);
          (vga, state) = copy_font2 dir (vga, state);
          (vga, state) = copy_text dir (vga, state);
          vga = vga_writeseq vga 0x04 sr04;
          vga = vga_writeseq vga 0x02 sr02;
          vga = vga_writegfx vga 0x08 gr08;
          vga = vga_writegfx vga 0x06 gr06;
          vga = vga_writegfx vga 0x05 gr05;
          vga = vga_writegfx vga 0x04 gr04;
          vga = vga_writegfx vga 0x03 gr03;
          vga = vga_writegfx vga 0x01 gr01;
          vga = vga_writemisc vga misc0;
          vga = vga_unblank vga
      in (vga, state))"


definition vga_restoretext :: "vga_t \<Rightarrow> vga_state_t \<Rightarrow> vga_t" where
  "vga_restoretext vga state = fst (vga_copytext vga state 1)"

subsection \<open>\<open>vga_save\<close> and \<open>vga_restore\<close>\<close>


definition vga_restore :: "vga_t \<Rightarrow> vga_state_t \<Rightarrow> vga_t" where
  "vga_restore vga state =
     (let vga = vga_restoremode vga state;
          vga = vga_restorecmap vga state
      in vga_restoretext vga state)"

subsection \<open>Timing synthesis: \<open>vga_mode\<close>\<close>

text \<open>
  The four vertical quantities after the three conditional transformations, in the order
  of the source.
\<close>

definition vga_vtimings :: "vga_mode_t \<Rightarrow> uint \<times> uint \<times> uint \<times> uint" where
  "vga_vtimings m =
     (let vres0 = vres m; vsyncs0 = vsyncs m; vsynce0 = vsynce m; vtotal0 = vtotal m;
          (vres1, vsyncs1, vsynce1, vtotal1) =
            (if flags m AND VGA_DBLSCAN \<noteq> 0
             then (push_bit 1 vres0, push_bit 1 vsyncs0, push_bit 1 vsynce0, push_bit 1 vtotal0)
             else (vres0, vsyncs0, vsynce0, vtotal0));
          (vres2, vsyncs2, vsynce2, vtotal2) =
            (if flags m AND VGA_INTERLACE \<noteq> 0
             then (drop_bit 1 vres1, drop_bit 1 vsyncs1, drop_bit 1 vsynce1, drop_bit 1 vtotal1)
             else (vres1, vsyncs1, vsynce1, vtotal1))
      in if vscan m > 1
         then (vres2 * vscan m, vsyncs2 * vscan m, vsynce2 * vscan m, vtotal2 * vscan m)
         else (vres2, vsyncs2, vsynce2, vtotal2))"

text \<open>The horizontal blanking interval \<open>(hblanks, hblanke)\<close>.\<close>

definition vga_hblank :: "vga_mode_t \<Rightarrow> uint \<times> uint" where
  "vga_hblank m =
     (let hblanks = min (hsyncs m) (hres m);
          hblanke = max (hsynce m) (htotal m)
      in if hblanks + 0x1f8 < hblanke then (hblanke - 0x1f8, hblanke) else (hblanks, hblanke))"

text \<open>The vertical blanking interval \<open>(vblanks, vblanke)\<close> of the transformed quantities.\<close>

definition vga_vblank :: "uint \<times> uint \<times> uint \<times> uint \<Rightarrow> uint \<times> uint" where
  "vga_vblank v =
     (case v of (vres', vsyncs', vsynce', vtotal') \<Rightarrow>
        let vblanks = min vsyncs' vres';
            vblanke = max vsynce' vtotal'
        in if vblanks + 0x7f < vblanke then (vblanke - 0x7f, vblanke) else (vblanks, vblanke))"

text \<open>
  The horizontal and vertical corrections of the blanking end ("KGA blanking"), on the
  register pairs they rewrite. \<open>i--\<close> decrements whenever it is evaluated: in the
  horizontal test it is the first operand, in the vertical test the third.
\<close>

definition kga_hfix :: "vga_mode_t \<Rightarrow> uint \<Rightarrow> uint \<Rightarrow> uchar \<times> uchar \<Rightarrow> uchar \<times> uchar" where
  "kga_hfix m hblanks hblanke c35 =
     (case c35 of (c3, c5) \<Rightarrow>
        if drop_bit 3 hblanke = drop_bit 3 (htotal m) then
          let i0 = (ucast (c3 AND 0x1f) OR drop_bit 2 (ucast (c5 AND 0x80))) :: uint;
              i = (if i0 > ((drop_bit 3 hblanks - 1) AND 0x3f) \<and> hblanke = htotal m then 0 else i0 - 1)
          in ((c3 AND NOT 0x1f) OR ucast (i AND 0x1f), (c5 AND NOT 0x80) OR ucast (push_bit 2 i AND 0x80))
        else (c3, c5))"

definition kga_vfix :: "vga_mode_t \<Rightarrow> uint \<Rightarrow> uchar \<Rightarrow> uchar \<Rightarrow> uchar \<Rightarrow> uchar" where
  "kga_vfix m vblanke c9 c21 c22 =
     (if vblanke = vtotal m then
        let i0 = ucast c22 :: uint;
            i = (if c9 AND 0x9f = 0 \<and> i0 > ucast c21
                 then (if (i0 AND 0x7f) > ucast (c21 AND 0x7f) then 0 else i0 - 1)
                 else i0)
        in ucast (i AND 0xff)
      else c22)"

definition vga_mode :: "uchar \<Rightarrow> vga_mode_t \<Rightarrow> vga_state_t \<Rightarrow> vga_state_t" where
  "vga_mode clkidx m state =
     (let misc1 = 0x23 OR push_bit 2 (clkidx AND 0x03);
          misc2 = (if flags m AND VGA_HSYNCP = 0 then misc1 OR 0x40 else misc1);
          misc3 = (if flags m AND VGA_VSYNCP = 0 then misc2 OR 0x80 else misc2);
          seq' = (seq state)(0 := 0x00, 1 := (if flags m AND VGA_CLKDIV \<noteq> 0 then 0x09 else 0x01),
                    2 := 0x0f, 3 := 0x00, 4 := 0x0e);
          (vres', vsyncs', vsynce', vtotal') = vga_vtimings m;
          (hblanks, hblanke) = vga_hblank m;
          (vblanks, vblanke) = vga_vblank (vres', vsyncs', vsynce', vtotal');
          c3a = (ucast ((drop_bit 3 hblanke - 1) AND 0x1f) OR 0x80) :: uchar;
          i = (push_bit 2 (hskew m) + 0x10) AND NOT 0x1f;
          c3 = (if i < 0x80 then c3a OR ucast i else c3a);
          c5 = (ucast (push_bit 2 ((drop_bit 3 hblanke - 1) AND 0x20) OR ((drop_bit 3 (hsynce m) - 1) AND 0x1f))) :: uchar;
          c7 = (ucast (drop_bit 8 ((vtotal' - 2) AND 0x100) OR drop_bit 7 ((vres' - 1) AND 0x100) OR
                  drop_bit 6 ((vsyncs' - 1) AND 0x100) OR drop_bit 5 ((vblanks - 1) AND 0x100))) :: uchar;
          c7' = c7 OR ucast (drop_bit 4 ((vtotal' - 2) AND 0x200) OR drop_bit 3 ((vres' - 1) AND 0x200) OR
                  drop_bit 2 ((vsyncs' - 1) AND 0x200) OR 0x10);
          c9a = (ucast (drop_bit 4 ((vblanks - 1) AND 0x200) OR 0x40)) :: uchar;
          c9b = (if flags m AND VGA_DBLSCAN \<noteq> 0 then c9a OR 0x80 else c9a);
          c9 = (if vscan m \<ge> 32 then c9b OR 0x1f
                else if vscan m > 1 then c9b OR ucast (vscan m - 1) else c9b);
          c21 = (ucast ((vblanks - 1) AND 0xff)) :: uchar;
          c22 = (ucast ((vblanke - 1) AND 0xff)) :: uchar;
          (c3', c5') = kga_hfix m hblanks hblanke (c3, c5);
          c22' = kga_vfix m vblanke c9 c21 c22;
          crtc' = (crtc state)
            (0 := ucast (drop_bit 3 (htotal m) - 5),
             1 := ucast (drop_bit 3 (hres m) - 1),
             2 := ucast (drop_bit 3 hblanks - 1),
             3 := c3',
             4 := ucast (drop_bit 3 (hsyncs m) - 1),
             5 := c5',
             6 := ucast ((vtotal' - 2) AND 0xff),
             7 := c7',
             8 := 0x00,
             9 := c9,
             10 := 0x00, 11 := 0x00, 12 := 0x00, 13 := 0x00, 14 := 0x00, 15 := 0x00,
             16 := ucast ((vsyncs' - 1) AND 0xff),
             17 := ucast ((vsynce' - 1) AND 0x0f) OR 0x20,
             18 := ucast ((vres' - 1) AND 0xff),
             19 := ucast (drop_bit 3 ((hres m + 0x0f) AND NOT 0x0f)),
             20 := 0x00,
             21 := c21,
             22 := c22',
             23 := 0xc3,
             24 := 0xff);
          gfx' = (gfx state)(0 := 0x00, 1 := 0x00, 2 := 0x00, 3 := 0x00, 4 := 0x00, 5 := 0x40,
                    6 := 0x05, 7 := 0x0f, 8 := 0xff);
          attr' = (attr state)(0 := 0x00, 1 := 0x01, 2 := 0x02, 3 := 0x03, 4 := 0x04, 5 := 0x05,
                    6 := 0x06, 7 := 0x07, 8 := 0x08, 9 := 0x09, 10 := 0x0a, 11 := 0x0b, 12 := 0x0c,
                    13 := 0x0d, 14 := 0x0e, 15 := 0x0f, 16 := 0x41, 17 := 0xff, 18 := 0x0f,
                    19 := 0x00, 20 := 0x00)
      in state\<lparr>misc := misc3, crtc := crtc', seq := seq', gfx := gfx', attr := attr'\<rparr>)"

section \<open>The graphics library interface (libgraph.h)\<close>

text \<open>
  Modelled from the spec: \<open>graph_mode_t\<close>, \<open>graph_freq_t\<close> and \<open>graph_t\<close> are declared in
  libgraph.h, which is not under src/. The mode and refresh tags are the ones the drivers
  name. \<open>GRAPH_DEFMODE\<close> and \<open>GRAPH_DEFFREQ\<close> open their enumerations: \<open>GRAPH_DEFMODE\<close> is the
  tag of value 0, the one the terminating entry \<open>{ 0 }\<close> of a mode table carries (the
  specification's "sentinel entry (depth 0, mode tag 0)"). Of \<open>graph_t\<close> the model keeps
  the adapter and the reported width, height and byte depth.
\<close>

datatype graph_mode_t =
    GRAPH_DEFMODE
  | GRAPH_ON | GRAPH_OFF | GRAPH_STANDBY | GRAPH_SUSPEND
  | GRAPH_320x200x8 | GRAPH_640x400x8 | GRAPH_640x480x8 | GRAPH_800x600x8 | GRAPH_1024x768x8
  | GRAPH_1152x864x8 | GRAPH_1280x1024x8
  | GRAPH_640x480x16 | GRAPH_800x600x16 | GRAPH_1024x768x16
  | GRAPH_640x480x24 | GRAPH_800x600x24 | GRAPH_1024x768x24
  | GRAPH_640x480x32 | GRAPH_800x600x32 | GRAPH_1024x768x32

datatype graph_freq_t =
    GRAPH_DEFFREQ
  | GRAPH_43Hzi | GRAPH_56Hz | GRAPH_60Hz | GRAPH_70Hz | GRAPH_72Hz | GRAPH_75Hz | GRAPH_85Hz

record 'a graph_t =
  adapter :: 'a
  width :: uint
  height :: uint
  depth :: uchar

section \<open>The Cirrus Logic GD5446 driver (cirrus.c)\<close>

definition DEFMODE :: nat where
  "DEFMODE = 31"

text \<open>
  \<open>cirrus_mode_t\<close>: the mode tag, the byte depth and the union of the power management
  registers and the graphics configuration. The depth tells the two members apart.
\<close>

datatype mode_payload =
    Pwm uchar uchar
  | Gfx graph_freq_t vga_mode_t

record cirrus_mode_t =
  mode :: graph_mode_t
  mdepth :: uchar
  payload :: mode_payload

definition mk_entry :: "graph_mode_t \<Rightarrow> uchar \<Rightarrow> mode_payload \<Rightarrow> cirrus_mode_t" where
  "mk_entry m d p = \<lparr>mode = m, mdepth = d, payload = p\<rparr>"

record cirrus_state_t =
  state :: vga_state_t
  cr1a :: uchar
  cr1b :: uchar
  cr1d :: uchar
  sr07 :: uchar
  sr0e :: uchar
  sr12 :: uchar
  sr13 :: uchar
  sr17 :: uchar
  sr1e :: uchar
  sr21 :: uchar
  sr2d :: uchar
  gr17 :: uchar
  gr18 :: uchar
  hdr :: uchar

text \<open>
  \<open>cirrus_dev_t\<close>: the VGA device, the mapped video memory (bytes at offsets from its
  base address) and its size, and the state saved at open. The mapping holds the bytes
  at the offsets 0 to \<open>vmemsz - 1\<close>: \<open>cirrus_open\<close> maps \<open>vmemsz\<close> bytes rounded up to the
  page size, and every size \<open>cirrus_vmemsz\<close> returns is a multiple of 1 MiB.
\<close>

record cirrus_dev_t =
  vga :: vga_t
  vmem :: "int \<Rightarrow> uchar"
  vmemsz :: uint
  saved :: cirrus_state_t

definition cfgs :: "vga_mode_t list" where
  "cfgs =
   [
    mk_mode 25175 640 656 752 800 0 400 412 414 449 0 VGA_VSYNCP,
    mk_mode 25175 640 656 752 800 0 480 490 492 525 0 0,
    mk_mode 31500 640 664 704 832 0 480 489 491 520 0 0,
    mk_mode 31500 640 656 720 840 0 480 481 484 500 0 0,
    mk_mode 36000 640 696 752 832 0 480 481 484 509 0 0,
    mk_mode 40000 800 840 968 1056 0 600 601 605 628 0 (VGA_HSYNCP OR VGA_VSYNCP),
    mk_mode 36000 800 824 896 1024 0 600 601 603 625 0 (VGA_HSYNCP OR VGA_VSYNCP),
    mk_mode 50000 800 856 976 1040 0 600 637 643 666 0 (VGA_HSYNCP OR VGA_VSYNCP),
    mk_mode 49500 800 816 896 1056 0 600 601 604 625 0 (VGA_HSYNCP OR VGA_VSYNCP),
    mk_mode 56250 800 832 896 1048 0 600 601 604 631 0 (VGA_HSYNCP OR VGA_VSYNCP),
    mk_mode 65000 1024 1048 1184 1344 0 768 771 777 806 0 0,
    mk_mode 44900 1024 1032 1208 1264 0 768 768 776 817 0 (VGA_HSYNCP OR VGA_VSYNCP OR VGA_INTERLACE),
    mk_mode 75000 1024 1048 1184 1328 0 768 771 777 806 0 0,
    mk_mode 78800 1024 1040 1136 1312 0 768 769 772 800 0 (VGA_HSYNCP OR VGA_VSYNCP),
    mk_mode 94500 1024 1072 1168 1376 0 768 769 772 808 0 (VGA_VSYNCP OR VGA_VSYNCP),
    mk_mode 108000 1152 1216 1344 1600 0 864 865 868 900 0 (VGA_HSYNCP OR VGA_VSYNCP),
    mk_mode 108000 1280 1328 1440 1688 0 1024 1025 1028 1066 0 (VGA_HSYNCP OR VGA_VSYNCP),
    mk_mode 135000 1280 1296 1440 1688 0 1024 1025 1028 1066 0 (VGA_HSYNCP OR VGA_VSYNCP),
    mk_mode 0 0 0 0 0 0 0 0 0 0 0 0
   ]"

definition modes :: "cirrus_mode_t list" where
  "modes =
   [
    mk_entry GRAPH_ON 0 (Pwm 0x00 0x00),
    mk_entry GRAPH_OFF 0 (Pwm 0x20 0x06),
    mk_entry GRAPH_STANDBY 0 (Pwm 0x20 0x02),
    mk_entry GRAPH_SUSPEND 0 (Pwm 0x20 0x04),
    mk_entry GRAPH_640x400x8 1 (Gfx GRAPH_70Hz (cfgs ! 0)),
    mk_entry GRAPH_640x480x8 1 (Gfx GRAPH_60Hz (cfgs ! 1)),
    mk_entry GRAPH_640x480x8 1 (Gfx GRAPH_72Hz (cfgs ! 2)),
    mk_entry GRAPH_640x480x8 1 (Gfx GRAPH_75Hz (cfgs ! 3)),
    mk_entry GRAPH_640x480x8 1 (Gfx GRAPH_85Hz (cfgs ! 4)),
    mk_entry GRAPH_800x600x8 1 (Gfx GRAPH_60Hz (cfgs ! 5)),
    mk_entry GRAPH_800x600x8 1 (Gfx GRAPH_56Hz (cfgs ! 6)),
    mk_entry GRAPH_800x600x8 1 (Gfx GRAPH_72Hz (cfgs ! 7)),
    mk_entry GRAPH_800x600x8 1 (Gfx GRAPH_75Hz (cfgs ! 8)),
    mk_entry GRAPH_800x600x8 1 (Gfx GRAPH_85Hz (cfgs ! 9)),
    mk_entry GRAPH_1024x768x8 1 (Gfx GRAPH_60Hz (cfgs ! 10)),
    mk_entry GRAPH_1024x768x8 1 (Gfx GRAPH_43Hzi (cfgs ! 11)),
    mk_entry GRAPH_1024x768x8 1 (Gfx GRAPH_70Hz (cfgs ! 12)),
    mk_entry GRAPH_1024x768x8 1 (Gfx GRAPH_75Hz (cfgs ! 13)),
    mk_entry GRAPH_1024x768x8 1 (Gfx GRAPH_85Hz (cfgs ! 14)),
    mk_entry GRAPH_1152x864x8 1 (Gfx GRAPH_75Hz (cfgs ! 15)),
    mk_entry GRAPH_1280x1024x8 1 (Gfx GRAPH_60Hz (cfgs ! 16)),
    mk_entry GRAPH_1280x1024x8 1 (Gfx GRAPH_75Hz (cfgs ! 17)),
    mk_entry GRAPH_640x480x16 2 (Gfx GRAPH_60Hz (cfgs ! 1)),
    mk_entry GRAPH_640x480x16 2 (Gfx GRAPH_72Hz (cfgs ! 2)),
    mk_entry GRAPH_640x480x16 2 (Gfx GRAPH_75Hz (cfgs ! 3)),
    mk_entry GRAPH_640x480x16 2 (Gfx GRAPH_85Hz (cfgs ! 4)),
    mk_entry GRAPH_800x600x16 2 (Gfx GRAPH_60Hz (cfgs ! 5)),
    mk_entry GRAPH_800x600x16 2 (Gfx GRAPH_56Hz (cfgs ! 6)),
    mk_entry GRAPH_800x600x16 2 (Gfx GRAPH_72Hz (cfgs ! 7)),
    mk_entry GRAPH_800x600x16 2 (Gfx GRAPH_75Hz (cfgs ! 8)),
    mk_entry GRAPH_800x600x16 2 (Gfx GRAPH_85Hz (cfgs ! 9)),
    mk_entry GRAPH_1024x768x16 2 (Gfx GRAPH_60Hz (cfgs ! 10)),
    mk_entry GRAPH_1024x768x16 2 (Gfx GRAPH_43Hzi (cfgs ! 11)),
    mk_entry GRAPH_1024x768x16 2 (Gfx GRAPH_70Hz (cfgs ! 12)),
    mk_entry GRAPH_1024x768x16 2 (Gfx GRAPH_75Hz (cfgs ! 13)),
    mk_entry GRAPH_1024x768x16 2 (Gfx GRAPH_85Hz (cfgs ! 14)),
    mk_entry GRAPH_640x480x24 3 (Gfx GRAPH_60Hz (cfgs ! 1)),
    mk_entry GRAPH_640x480x24 3 (Gfx GRAPH_72Hz (cfgs ! 2)),
    mk_entry GRAPH_640x480x24 3 (Gfx GRAPH_75Hz (cfgs ! 3)),
    mk_entry GRAPH_640x480x24 3 (Gfx GRAPH_85Hz (cfgs ! 4)),
    mk_entry GRAPH_800x600x24 3 (Gfx GRAPH_60Hz (cfgs ! 5)),
    mk_entry GRAPH_800x600x24 3 (Gfx GRAPH_56Hz (cfgs ! 6)),
    mk_entry GRAPH_800x600x24 3 (Gfx GRAPH_72Hz (cfgs ! 7)),
    mk_entry GRAPH_800x600x24 3 (Gfx GRAPH_75Hz (cfgs ! 8)),
    mk_entry GRAPH_800x600x24 3 (Gfx GRAPH_85Hz (cfgs ! 9)),
    mk_entry GRAPH_1024x768x24 3 (Gfx GRAPH_60Hz (cfgs ! 10)),
    mk_entry GRAPH_1024x768x24 3 (Gfx GRAPH_43Hzi (cfgs ! 11)),
    mk_entry GRAPH_1024x768x24 3 (Gfx GRAPH_70Hz (cfgs ! 12)),
    mk_entry GRAPH_1024x768x24 3 (Gfx GRAPH_75Hz (cfgs ! 13)),
    mk_entry GRAPH_1024x768x24 3 (Gfx GRAPH_85Hz (cfgs ! 14)),
    mk_entry GRAPH_640x480x32 4 (Gfx GRAPH_60Hz (cfgs ! 1)),
    mk_entry GRAPH_640x480x32 4 (Gfx GRAPH_72Hz (cfgs ! 2)),
    mk_entry GRAPH_640x480x32 4 (Gfx GRAPH_75Hz (cfgs ! 3)),
    mk_entry GRAPH_640x480x32 4 (Gfx GRAPH_85Hz (cfgs ! 4)),
    mk_entry GRAPH_800x600x32 4 (Gfx GRAPH_60Hz (cfgs ! 5)),
    mk_entry GRAPH_800x600x32 4 (Gfx GRAPH_56Hz (cfgs ! 6)),
    mk_entry GRAPH_800x600x32 4 (Gfx GRAPH_72Hz (cfgs ! 7)),
    mk_entry GRAPH_800x600x32 4 (Gfx GRAPH_75Hz (cfgs ! 8)),
    mk_entry GRAPH_800x600x32 4 (Gfx GRAPH_85Hz (cfgs ! 9)),
    mk_entry GRAPH_1024x768x32 4 (Gfx GRAPH_60Hz (cfgs ! 10)),
    mk_entry GRAPH_1024x768x32 4 (Gfx GRAPH_43Hzi (cfgs ! 11)),
    mk_entry GRAPH_1024x768x32 4 (Gfx GRAPH_70Hz (cfgs ! 12)),
    mk_entry GRAPH_1024x768x32 4 (Gfx GRAPH_75Hz (cfgs ! 13)),
    mk_entry GRAPH_1024x768x32 4 (Gfx GRAPH_85Hz (cfgs ! 14)),
    mk_entry GRAPH_DEFMODE 0 (Pwm 0 0)
   ]"

definition maxvclks :: "uint list" where
  "maxvclks = [0, 135100, 85500, 85500, 0]"

subsection \<open>Hardware cursor\<close>

definition cirrus_cursorpos :: "cirrus_dev_t graph_t \<Rightarrow> uint \<Rightarrow> uint \<Rightarrow> (error + unit) \<times> cirrus_dev_t graph_t" where
  "cirrus_cursorpos graph x y =
     (let cdev = adapter graph;
          v = vga_writeseq (vga cdev) (ucast (push_bit 5 x OR 0x10)) (ucast (drop_bit 3 x));
          v = vga_writeseq v (ucast (push_bit 5 y OR 0x11)) (ucast (drop_bit 3 y))
      in (Inr (), graph\<lparr>adapter := cdev\<lparr>vga := v\<rparr>\<rparr>))"

text \<open>
  One row of the sprite: eight bytes of the XOR mask, then eight complemented bytes of
  the AND mask, at the running pointer \<open>cur\<close>. The masks are the bytes behind the two
  pointers.
\<close>

definition cursor_row :: "(nat \<Rightarrow> uchar) \<Rightarrow> (nat \<Rightarrow> uchar) \<Rightarrow> nat \<Rightarrow>
    (int \<Rightarrow> uchar) \<times> int \<Rightarrow> (int \<Rightarrow> uchar) \<times> int" where
  "cursor_row and_mask xor_mask i p =
     (let p = fold (\<lambda>j (m, cur). (m(cur := xor_mask (8 * i + j)), cur + 1)) [0 ..< 8] p
      in fold (\<lambda>j (m, cur). (m(cur := NOT (and_mask (8 * i + j))), cur + 1)) [0 ..< 8] p)"

text \<open>\<open>for (i = 0; i < 64; i++)\<close>: the 64 rows, from the pointer \<open>cur\<close> on.\<close>

definition cursor_sprite :: "(nat \<Rightarrow> uchar) \<Rightarrow> (nat \<Rightarrow> uchar) \<Rightarrow> (int \<Rightarrow> uchar) \<Rightarrow> int \<Rightarrow>
    (int \<Rightarrow> uchar) \<times> int" where
  "cursor_sprite and_mask xor_mask m cur = fold (cursor_row and_mask xor_mask) [0 ..< 64] (m, cur)"

definition cirrus_cursorset :: "cirrus_dev_t graph_t \<Rightarrow> (nat \<Rightarrow> uchar) \<Rightarrow> (nat \<Rightarrow> uchar) \<Rightarrow> uint \<Rightarrow> uint \<Rightarrow>
    (error + unit) \<times> cirrus_dev_t graph_t" where
  "cirrus_cursorset graph and_mask xor_mask bg fg =
     (let cdev = adapter graph in
      if vmemsz cdev < height graph * width graph * ucast (depth graph) + 0x1000
      then (Inl ENOSPC, graph)
      else
        let cur = uint (vmemsz cdev) - 0x1000;
            (m, cur) = cursor_sprite and_mask xor_mask (vmem cdev) cur;
            v = vga_writeseq (vga cdev) 0x13 0x30;
            (s12, v) = vga_readseq v 0x12;
            v = vga_writeseq v 0x12 (s12 OR 0x82);
            v = vga_writedac v 0x02 0x00;
            v = vga_writedac v 0x03 (ucast bg);
            v = vga_writedac v 0x03 (ucast (drop_bit 8 bg));
            v = vga_writedac v 0x03 (ucast (drop_bit 16 bg));
            v = vga_writedac v 0x02 0x0f;
            v = vga_writedac v 0x03 (ucast fg);
            v = vga_writedac v 0x03 (ucast (drop_bit 8 fg));
            v = vga_writedac v 0x03 (ucast (drop_bit 16 fg));
            v = vga_writeseq v 0x12 (s12 AND NOT 0x02)
        in (Inr (), graph\<lparr>adapter := cdev\<lparr>vga := v, vmem := m\<rparr>\<rparr>))"

definition cirrus_cursorhide :: "cirrus_dev_t graph_t \<Rightarrow> (error + unit) \<times> cirrus_dev_t graph_t" where
  "cirrus_cursorhide graph =
     (let cdev = adapter graph;
          (s12, v) = vga_readseq (vga cdev) 0x12;
          v = vga_writeseq v 0x12 (s12 AND NOT 0x01)
      in (Inr (), graph\<lparr>adapter := cdev\<lparr>vga := v\<rparr>\<rparr>))"

definition cirrus_cursorshow :: "cirrus_dev_t graph_t \<Rightarrow> (error + unit) \<times> cirrus_dev_t graph_t" where
  "cirrus_cursorshow graph =
     (let cdev = adapter graph;
          (s12, v) = vga_readseq (vga cdev) 0x12;
          v = vga_writeseq v 0x12 (s12 OR 0x01)
      in (Inr (), graph\<lparr>adapter := cdev\<lparr>vga := v\<rparr>\<rparr>))"

subsection \<open>Restoring the extended state\<close>

definition cirrus_restore :: "vga_t \<Rightarrow> cirrus_state_t \<Rightarrow> vga_t" where
  "cirrus_restore v st =
     (let v = vga_writecrtc v 0x1a (cr1a st);
          v = vga_writecrtc v 0x1b (cr1b st);
          v = vga_writecrtc v 0x1d (cr1d st);
          v = vga_writeseq v 0x07 (sr07 st);
          v = vga_writeseq v 0x0e (sr0e st);
          v = vga_writeseq v 0x12 (sr12 st);
          v = vga_writeseq v 0x13 (sr13 st);
          v = vga_writeseq v 0x17 (sr17 st);
          v = vga_writeseq v 0x1e (sr1e st);
          v = vga_writeseq v 0x21 (sr21 st);
          v = vga_writeseq v 0x2d (sr2d st);
          v = vga_writegfx v 0x17 (gr17 st);
          v = vga_writegfx v 0x18 (gr18 st);
          (_, v) = vga_readdac v 0x00;
          (_, v) = vga_readdac v 0x00;
          (_, v) = vga_readdac v 0x00;
          (_, v) = vga_readdac v 0x00;
          v = vga_writedac v 0x00 (hdr st)
      in vga_restore v (state st))"

subsection \<open>Mode setting: \<open>cirrus_mode\<close>\<close>

text \<open>
  The lookup loop
  \<open>for (i = 0; (modes[i].mode != mode) || (modes[i].depth && (freq != GRAPH_DEFFREQ) &&
  (modes[i].gfx.freq != freq)); i++) if (!modes[i].mode) return -ENOTSUP;\<close>
  on the rest of the table from index \<open>i\<close>. The loop condition is evaluated left to right
  and reads the refresh tag only of an entry of nonzero depth.
\<close>

fun mode_scan :: "graph_mode_t \<Rightarrow> graph_freq_t \<Rightarrow> cirrus_mode_t list \<Rightarrow> nat \<Rightarrow> error + nat" where
  "mode_scan m f [] i = Inl UB"
| "mode_scan m f (e # es) i =
     (case (if mode e \<noteq> m then Some True
            else if mdepth e \<noteq> 0 \<and> f \<noteq> GRAPH_DEFFREQ
                 then (case payload e of Gfx fe c \<Rightarrow> Some (fe \<noteq> f) | Pwm a b \<Rightarrow> None)
                 else Some False) of
        None \<Rightarrow> Inl UB
      | Some True \<Rightarrow> if mode e = GRAPH_DEFMODE then Inl ENOTSUP else mode_scan m f es (Suc i)
      | Some False \<Rightarrow> Inr i)"

definition cirrus_lookup :: "graph_mode_t \<Rightarrow> graph_freq_t \<Rightarrow> error + nat" where
  "cirrus_lookup m f = (if m \<noteq> GRAPH_DEFMODE then mode_scan m f modes 0 else Inr DEFMODE)"

text \<open>
  The \<open>switch (modes[i].depth)\<close>: the bits set in \<open>sr07\<close> and the hidden DAC register, or
  \<open>None\<close> for the \<open>default\<close> branch.
\<close>

definition depth_regs :: "uchar \<Rightarrow> bool \<Rightarrow> (uchar \<times> uchar) option" where
  "depth_regs d hdiv =
     (if d = 1 then Some (if hdiv then 0x17 else 0x11, if hdiv then 0x4a else 0x00)
      else if d = 2 then Some (if hdiv then 0x19 else 0x17, 0xc1)
      else if d = 3 then Some (0x15, 0xc5)
      else if d = 4 then Some (0x19, 0xc5)
      else None)"

text \<open>
  The locals \<open>state\<close> and \<open>vclk\<close> of \<open>cirrus_mode\<close> start uninitialised; every field is
  assigned before it is read. The model starts them at zero.
\<close>

definition vga_state0 :: vga_state_t where
  "vga_state0 = \<lparr>misc = 0, crtc = (\<lambda>i. 0), seq = (\<lambda>i. 0), gfx = (\<lambda>i. 0), attr = (\<lambda>i. 0),
     cmap = None, text_buf = None, font1 = None, font2 = None\<rparr>"

definition cirrus_state0 :: cirrus_state_t where
  "cirrus_state0 = \<lparr>state = vga_state0, cr1a = 0, cr1b = 0, cr1d = 0, sr07 = 0, sr0e = 0, sr12 = 0,
     sr13 = 0, sr17 = 0, sr1e = 0, sr21 = 0, sr2d = 0, gr17 = 0, gr18 = 0, hdr = 0\<rparr>"

text \<open>The two timing adjustments; the flag is \<open>hdiv\<close>, respectively \<open>vdiv\<close>.\<close>

definition adjust_h :: "vga_mode_t \<Rightarrow> vga_mode_t \<times> bool" where
  "adjust_h c =
     (if clk c > 85500
      then (c\<lparr>hres := drop_bit 1 (hres c), hsyncs := drop_bit 1 (hsyncs c),
              hsynce := drop_bit 1 (hsynce c), htotal := drop_bit 1 (htotal c),
              clk := drop_bit 1 (clk c)\<rparr>, True)
      else (c, False))"

definition adjust_v :: "vga_mode_t \<Rightarrow> vga_mode_t \<times> bool" where
  "adjust_v c =
     (if vtotal c \<ge> 1024 \<and> flags c AND VGA_INTERLACE = 0
      then (c\<lparr>vres := drop_bit 1 (vres c), vsyncs := drop_bit 1 (vsyncs c),
              vsynce := drop_bit 1 (vsynce c), vtotal := drop_bit 1 (vtotal c)\<rparr>, True)
      else (c, False))"

text \<open>The register image of a graphics mode, up to the \<open>switch\<close> on the depth.\<close>

definition cirrus_image :: "uint \<Rightarrow> vga_mode_t \<Rightarrow> bool \<Rightarrow> cirrus_state_t" where
  "cirrus_image pitch cfg vdiv =
     (let st = vga_mode 3 cfg vga_state0;
          st = st\<lparr>cmap := None, text_buf := None, font1 := None, font2 := None\<rparr>;
          st = st\<lparr>crtc := (crtc st)(0x13 := ucast (drop_bit 3 pitch))\<rparr>;
          st = st\<lparr>crtc := (crtc st)(0x17 := crtc st 0x17 OR (if vdiv then 0x04 else 0x00))\<rparr>
      in cirrus_state0\<lparr>state := st,
           cr1a := 0x00,
           cr1b := ucast ((drop_bit 7 pitch AND 0x10) OR (drop_bit 6 pitch AND 0x40) OR 0x22),
           cr1d := 0x00, sr07 := 0xe0, sr0e := 0x00, sr12 := 0x04, sr13 := 0x00, sr17 := 0x00,
           sr1e := 0x00, sr21 := 0x00, sr2d := 0x00\<rparr>)"

text \<open>"Program mode": the locked register-write phase.\<close>

definition cirrus_program :: "vga_t \<Rightarrow> cirrus_state_t \<Rightarrow> cirrus_vclk_t \<Rightarrow> vga_t" where
  "cirrus_program v cst vclk =
     (let v = vga_mlock v;
          v = cirrus_restore v cst;
          (s, v) = vga_readseq v 0x0e;
          v = vga_writeseq v 0x0e ((s AND 0x80) OR num vclk);
          v = vga_writeseq v 0x1e (den vclk)
      in vga_munlock v)"

text \<open>
  The body of \<open>cirrus_mode\<close> after the lookup, on the entry \<open>modes[i]\<close>. Every \<open>return\<close> of
  the source is a branch; the state a failing branch returns is the state reached at that
  point. The last statement before \<open>return EOK\<close> clears the frame:
  \<open>memset(cdev->vmem, 0, graph->width * graph->height * graph->depth)\<close>, with the product
  taken in 32 bits. When the frame is larger than the mapping the \<open>memset\<close> runs past its
  end; the result is then \<open>OVERRUN\<close> with the state reached before the \<open>memset\<close>: the
  registers programmed, the reported mode updated, the video memory as it was.
\<close>

definition cirrus_setmode :: "cirrus_dev_t graph_t \<Rightarrow> cirrus_mode_t \<Rightarrow>
    (error + unit) \<times> cirrus_dev_t graph_t" where
  "cirrus_setmode graph e =
     (let cdev = adapter graph in
      if mdepth e = 0 then
        (case payload e of
           Gfx f c \<Rightarrow> (Inl UB, graph)
         | Pwm sr01 gr0e \<Rightarrow>
             let (s, v) = vga_readseq (vga cdev) 0x01;
                 v = vga_writeseq v 0x01 ((s AND NOT 0x20) OR sr01);
                 (g0, v) = vga_readgfx v 0x0e;
                 v = vga_writegfx v 0x0e ((g0 AND NOT 0x06) OR gr0e)
             in (Inr (), graph\<lparr>adapter := cdev\<lparr>vga := v\<rparr>\<rparr>))
      else
        (case payload e of
           Pwm a b \<Rightarrow> (Inl UB, graph)
         | Gfx f c \<Rightarrow>
             let pitch = hres c * ucast (mdepth e);
                 (cfg, hdiv) = adjust_h c;
                 (cfg, vdiv) = adjust_v cfg
             in if \<not> unat (mdepth e) < length maxvclks then (Inl UB, graph)
                else
                  (case cirrus_vclk (maxvclks ! unat (mdepth e)) \<lparr>freq = clk cfg, num = 0, den = 0\<rparr> of
                     Inl err \<Rightarrow> (Inl EFAULT, graph)
                   | Inr vclk \<Rightarrow>
                       let cst = cirrus_image pitch cfg vdiv
                       in (case depth_regs (mdepth e) hdiv of
                             None \<Rightarrow> (Inl EFAULT, graph)
                           | Some (bits, h) \<Rightarrow>
                               let cst = cst\<lparr>sr07 := sr07 cst OR bits, hdr := h, gr17 := 0x08,
                                           gr18 := (if hdiv then 0x20 else 0x00)\<rparr>;
                                   v = cirrus_program (vga cdev) cst vclk;
                                   graph = graph\<lparr>depth := mdepth e, width := hres c, height := vres c\<rparr>;
                                   n = width graph * height graph * ucast (depth graph)
                               in if vmemsz cdev < n
                                  then (Inl OVERRUN, graph\<lparr>adapter := cdev\<lparr>vga := v\<rparr>\<rparr>)
                                  else (Inr (), graph\<lparr>adapter := cdev\<lparr>vga := v,
                                     vmem := (\<lambda>a. if 0 \<le> a \<and> a < uint n then 0 else vmem cdev a)\<rparr>\<rparr>)))))"

definition cirrus_mode :: "cirrus_dev_t graph_t \<Rightarrow> graph_mode_t \<Rightarrow> graph_freq_t \<Rightarrow>
    (error + unit) \<times> cirrus_dev_t graph_t" where
  "cirrus_mode graph m f =
     (case cirrus_lookup m f of
        Inl err \<Rightarrow> (Inl err, graph)
      | Inr i \<Rightarrow> if i < length modes then cirrus_setmode graph (modes ! i) else (Inl UB, graph))"

subsection \<open>The size of the video memory\<close>

text \<open>
  \<open>cirrus_vmemsz\<close>: the size \<open>cirrus_open\<close> stores in \<open>vmemsz\<close> and maps, read from the
  sequencer registers 0x0f and 0x17.
\<close>

definition cirrus_vmemsz :: "vga_t \<Rightarrow> uint \<times> vga_t" where
  "cirrus_vmemsz v =
     (let (sr0f, v) = vga_readseq v 0x0f;
          (sr17, v) = vga_readseq v 0x17
      in (if sr0f AND 0x18 = 0x18
          then (if sr0f AND 0x80 \<noteq> 0
                then (if sr17 AND 0x80 \<noteq> 0 then 0x200000
                      else if sr17 AND 0x02 \<noteq> 0 then 0x300000
                      else 0x400000)
                else if sr17 AND 0x80 = 0 then 0x200000
                else 0x100000)
          else 0x100000, v))"

section \<open>The generic VGA driver (vgadev.c)\<close>

definition VGADEV_DEFMODE :: nat where
  "VGADEV_DEFMODE = 5"

record vgadev_t =
  vgadev_vga :: vga_t
  vgadev_saved :: vga_state_t

text \<open>
  \<open>vgadev_mode_t\<close> has the shape of \<open>cirrus_mode_t\<close>: the second power management byte is
  the value for CRTC register 0x17, and the graphics member holds its configuration.
  The frame is cleared through the memory window of the VGA device, which \<open>vga_init\<close>
  maps outside src/; the clear is logged as one write with its length (64000 bytes for
  the one graphics mode of the table, within the \<open>VGA_MEMSZ\<close> bytes of the window).
\<close>

definition vgadev_modes :: "cirrus_mode_t list" where
  "vgadev_modes =
   [mk_entry GRAPH_ON 0 (Pwm 0x00 0x80),
    mk_entry GRAPH_OFF 0 (Pwm 0x20 0x00),
    mk_entry GRAPH_STANDBY 0 (Pwm 0x20 0x80),
    mk_entry GRAPH_SUSPEND 0 (Pwm 0x20 0x80),
    mk_entry GRAPH_320x200x8 1
      (Gfx GRAPH_70Hz (mk_mode 25175 320 336 384 400 0 200 206 207 224 2 (VGA_VSYNCP OR VGA_CLKDIV))),
    mk_entry GRAPH_DEFMODE 0 (Pwm 0 0)]"

definition vgadev_setmode :: "vgadev_t graph_t \<Rightarrow> cirrus_mode_t \<Rightarrow> (error + unit) \<times> vgadev_t graph_t" where
  "vgadev_setmode graph e =
     (let vgadev = adapter graph in
      if mdepth e = 0 then
        (case payload e of
           Gfx f c \<Rightarrow> (Inl UB, graph)
         | Pwm sr01 cr17 \<Rightarrow>
             let v = vga_writeseq (vgadev_vga vgadev) 0x00 0x01;
                 (s, v) = vga_readseq v 0x01;
                 v = vga_writeseq v 0x01 ((s AND NOT 0x20) OR sr01);
                 (c, v) = vga_readcrtc v 0x17;
                 v = vga_writecrtc v 0x17 ((c AND NOT 0x80) OR cr17);
                 v = vga_writeseq v 0x00 0x03
             in (Inr (), graph\<lparr>adapter := vgadev\<lparr>vgadev_vga := v\<rparr>\<rparr>))
      else
        (case payload e of
           Pwm a b \<Rightarrow> (Inl UB, graph)
         | Gfx f cfg \<Rightarrow>
             let st = vga_mode 0 cfg vga_state0;
                 st = st\<lparr>cmap := None, text_buf := None, font1 := None, font2 := None\<rparr>;
                 v = vga_mlock (vgadev_vga vgadev);
                 v = vga_restoremode v st;
                 v = vga_munlock v;
                 graph = graph\<lparr>depth := mdepth e, width := hres cfg, height := vres cfg\<rparr>;
                 n = unat (width graph * height graph * ucast (depth graph));
                 v = logged (MemWrite n) (v\<lparr>mem := (\<lambda>a. if a < n then 0 else mem v a)\<rparr>)
             in (Inr (), graph\<lparr>adapter := vgadev\<lparr>vgadev_vga := v\<rparr>\<rparr>)))"

definition vgadev_mode :: "vgadev_t graph_t \<Rightarrow> graph_mode_t \<Rightarrow> graph_freq_t \<Rightarrow>
    (error + unit) \<times> vgadev_t graph_t" where
  "vgadev_mode graph m f =
     (case (if m \<noteq> GRAPH_DEFMODE then mode_scan m f vgadev_modes 0 else Inr VGADEV_DEFMODE) of
        Inl err \<Rightarrow> (Inl err, graph)
      | Inr i \<Rightarrow> if i < length vgadev_modes then vgadev_setmode graph (vgadev_modes ! i)
                 else (Inl UB, graph))"

section \<open>The specification's reading of the timing synthesis\<close>

text \<open>
  The vertical transformation in the words of the specification: double-scan doubles all
  four quantities, then interlace halves all four, then a scan multiplier greater than 1
  multiplies all four.
\<close>

definition all_four :: "(uint \<Rightarrow> uint) \<Rightarrow> uint \<times> uint \<times> uint \<times> uint \<Rightarrow> uint \<times> uint \<times> uint \<times> uint" where
  "all_four f q = (case q of (a, b, c, d) \<Rightarrow> (f a, f b, f c, f d))"





section \<open>The specification's reading of the mode lookup\<close>

text \<open>
  An entry matches a request when its mode tag equals the requested tag and, if its depth
  is nonzero and a refresh other than the default was requested, its refresh tag equals
  the requested one.
\<close>

definition entry_freq :: "cirrus_mode_t \<Rightarrow> graph_freq_t option" where
  "entry_freq e = (case payload e of Gfx fe c \<Rightarrow> Some fe | Pwm a b \<Rightarrow> None)"

definition mode_matches :: "graph_mode_t \<Rightarrow> graph_freq_t \<Rightarrow> cirrus_mode_t \<Rightarrow> bool" where
  "mode_matches m f e \<longleftrightarrow>
     mode e = m \<and> (mdepth e = 0 \<or> f = GRAPH_DEFFREQ \<or> entry_freq e = Some f)"

text \<open>An entry is well formed when a nonzero depth goes with the graphics member.\<close>

definition entry_wf :: "cirrus_mode_t \<Rightarrow> bool" where
  "entry_wf e \<longleftrightarrow> mdepth e = 0 \<or> entry_freq e \<noteq> None"

section \<open>The specification's reading of the cursor sprite\<close>

text \<open>
  The byte of the uploaded sprite at offset \<open>off\<close> of the reservation: rows of sixteen
  bytes, eight of the XOR mask followed by eight complemented bytes of the AND mask.
\<close>

definition sprite_byte :: "(nat \<Rightarrow> uchar) \<Rightarrow> (nat \<Rightarrow> uchar) \<Rightarrow> nat \<Rightarrow> uchar" where
  "sprite_byte and_mask xor_mask off =
     (if off mod 16 < 8 then xor_mask (8 * (off div 16) + off mod 16)
      else NOT (and_mask (8 * (off div 16) + (off mod 16 - 8))))"

section \<open>The specification's reading of the power entries\<close>

text \<open>The requests the catalogs answer with a power management entry.\<close>

definition power_tag :: "graph_mode_t \<Rightarrow> bool" where
  "power_tag m \<longleftrightarrow> m = GRAPH_ON \<or> m = GRAPH_OFF \<or> m = GRAPH_STANDBY \<or> m = GRAPH_SUSPEND"

text \<open>
  The device after a power entry of the Cirrus catalog: the screen-enable bit 0x20 of
  sequencer register 1 and the sync bits 0x06 of graphics register 0x0e are rewritten by
  a read-modify-write; the log gains the two reads and the two writes.
\<close>

definition dpms_cirrus :: "uchar \<Rightarrow> uchar \<Rightarrow> vga_t \<Rightarrow> vga_t" where
  "dpms_cirrus a b v =
     v\<lparr>r_seq := (r_seq v)(0x01 := (r_seq v 0x01 AND NOT 0x20) OR a),
       r_gfx := (r_gfx v)(0x0e := (r_gfx v 0x0e AND NOT 0x06) OR b),
       trace := trace v @ [ReadSeq 0x01, WriteSeq 0x01 ((r_seq v 0x01 AND NOT 0x20) OR a),
                           ReadGfx 0x0e, WriteGfx 0x0e ((r_gfx v 0x0e AND NOT 0x06) OR b)]\<rparr>"

text \<open>
  The same for the generic catalog: the sync bit is bit 0x80 of CRTC register 0x17, and
  the two read-modify-writes sit between the writes of 0x01 and 0x03 to sequencer
  register 0.
\<close>

definition dpms_vgadev :: "uchar \<Rightarrow> uchar \<Rightarrow> vga_t \<Rightarrow> vga_t" where
  "dpms_vgadev a b v =
     v\<lparr>r_seq := (r_seq v)(0x00 := 0x03, 0x01 := (r_seq v 0x01 AND NOT 0x20) OR a),
       r_crtc := (r_crtc v)(0x17 := (r_crtc v 0x17 AND NOT 0x80) OR b),
       trace := trace v @ [WriteSeq 0x00 0x01, ReadSeq 0x01, WriteSeq 0x01 ((r_seq v 0x01 AND NOT 0x20) OR a),
                           ReadCrtc 0x17, WriteCrtc 0x17 ((r_crtc v 0x17 AND NOT 0x80) OR b),
                           WriteSeq 0x00 0x03]\<rparr>"

text \<open>
  "Only those bits": the device \<open>v'\<close> differs from \<open>v\<close> at most in the screen-enable bit,
  the sync bits and the log; for the generic driver also in sequencer register 0, which
  ends at 0x03.
\<close>

definition cirrus_power_only :: "vga_t \<Rightarrow> vga_t \<Rightarrow> bool" where
  "cirrus_power_only v v' \<longleftrightarrow>
     v' = v\<lparr>r_seq := (r_seq v)(0x01 := r_seq v' 0x01), r_gfx := (r_gfx v)(0x0e := r_gfx v' 0x0e),
            trace := trace v'\<rparr> \<and>
     r_seq v' 0x01 AND NOT 0x20 = r_seq v 0x01 AND NOT 0x20 \<and>
     r_gfx v' 0x0e AND NOT 0x06 = r_gfx v 0x0e AND NOT 0x06"

definition vgadev_power_only :: "vga_t \<Rightarrow> vga_t \<Rightarrow> bool" where
  "vgadev_power_only v v' \<longleftrightarrow>
     v' = v\<lparr>r_seq := (r_seq v)(0x00 := 0x03, 0x01 := r_seq v' 0x01),
            r_crtc := (r_crtc v)(0x17 := r_crtc v' 0x17), trace := trace v'\<rparr> \<and>
     r_seq v' 0x01 AND NOT 0x20 = r_seq v 0x01 AND NOT 0x20 \<and>
     r_crtc v' 0x17 AND NOT 0x80 = r_crtc v 0x17 AND NOT 0x80"

section \<open>The specification's reading of save and restore\<close>


















section \<open>An adapter state for the examples\<close>

text \<open>
  A Cirrus adapter as \<open>cirrus_open\<close> leaves it: 1 MiB of video memory, no mode reported,
  here with all registers and memory zero and an empty access log.
\<close>

definition vga0 :: vga_t where
  "vga0 = \<lparr>r_misc = 0, r_crtc = (\<lambda>r. 0), r_seq = (\<lambda>r. 0), r_gfx = (\<lambda>r. 0), r_attr = (\<lambda>r. 0),
     r_dac = (\<lambda>r. 0), r_status = 0, mem = (\<lambda>i. 0), trace = []\<rparr>"

definition cirrus_graph0 :: "cirrus_dev_t graph_t" where
  "cirrus_graph0 =
     \<lparr>adapter = \<lparr>vga = vga0, vmem = (\<lambda>a. 0), vmemsz = 0x100000, saved = cirrus_state0\<rparr>,
      width = 0, height = 0, depth = 0\<rparr>"

definition cirrus_graph1 :: "cirrus_dev_t graph_t" where
  "cirrus_graph1 = cirrus_graph0\<lparr>width := 1024, height := 768, depth := 2\<rparr>"

definition vgadev_graph0 :: "vgadev_t graph_t" where
  "vgadev_graph0 =
     \<lparr>adapter = \<lparr>vgadev_vga = vga0, vgadev_saved = vga_state0\<rparr>, width = 0, height = 0, depth = 0\<rparr>"

section \<open>Clock synthesis: proofs\<close>

lemma sless0: "(s::uint) <s 0 \<longleftrightarrow> 2^31 \<le> s"
proof -
  define u where "u = uint s"
  have r: "0 \<le> u" "u < 4294967296" using uint_lt2p[of s] by (simp_all add: u_def)
  have s: "sint s = (u + 2147483648) mod 4294967296 - 2147483648"
    using sint_uint[of s] by (simp add: signed_take_bit_eq_take_bit_shift take_bit_eq_mod u_def)
  have "sint s < 0 \<longleftrightarrow> 2147483648 \<le> u"
  proof (cases "u < 2147483648")
    case True
    with r have "(u + 2147483648) mod 4294967296 = u + 2147483648"
      by (intro mod_pos_pos_trivial) auto
    with s True r show ?thesis by simp
  next
    case False
    have e: "u + 2147483648 = (u - 2147483648) + 4294967296" by arith
    have "(u + 2147483648) mod 4294967296 = (u - 2147483648) mod 4294967296"
      by (simp only: e mod_add_self2)
    also have "\<dots> = u - 2147483648"
      using False r by (intro mod_pos_pos_trivial) auto
    finally show ?thesis using s False r by simp
  qed
  thus ?thesis by (simp add: word_sless_alt word_le_def u_def)
qed

lemma c_abs_uint:
  fixes a b :: uint
  assumes "a < 2^31" "b < 2^31"
  shows "uint (c_abs (a - b)) = \<bar>uint a - uint b\<bar>"
proof -
  define A B where "A = uint a" and "B = uint b"
  have r: "0 \<le> A" "A < 2147483648" "0 \<le> B" "B < 2147483648"
    using assms by (simp_all add: A_def B_def word_less_def)
  have d: "uint (a - b) = (if B \<le> A then A - B else A - B + 4294967296)"
    by (simp add: uint_sub_if' A_def B_def)
  show ?thesis
  proof (cases "B \<le> A")
    case True
    with d r have "uint (a - b) = A - B" "uint (a - b) < 2147483648" by auto
    hence "\<not> (2^31 \<le> a - b)" "uint (a - b) = \<bar>A - B\<bar>" using True by (auto simp: word_le_def)
    thus ?thesis by (simp add: c_abs_def sless0 A_def B_def)
  next
    case False
    with d r have e: "uint (a - b) = A - B + 4294967296" "2147483648 \<le> uint (a - b)" by auto
    hence m: "2^31 \<le> a - b" by (simp add: word_le_def)
    have "- (a - b) = b - a" by simp
    moreover have "uint (b - a) = B - A" using False by (simp add: uint_sub_if' A_def B_def)
    ultimately have "uint (- (a - b)) = \<bar>A - B\<bar>" using False by simp
    with m show ?thesis by (simp add: c_abs_def sless0 A_def B_def)
  qed
qed

lemma drop_le: "drop_bit k (x::uint) \<le> x"
proof -
  have "unat (drop_bit k x) = drop_bit k (unat x)"
    by (rule unat_drop_bit_eq)
  also have "\<dots> = unat x div 2 ^ k" by (rule drop_bit_eq_div)
  finally show ?thesis by (simp only: word_le_nat_alt div_le_dividend)
qed

lemma vco_bound: "cirrus_vco n d \<le> 3636772"
proof -
  have a: "unat (n AND 0x7f) \<le> 127"
    using word_and_le1[of n "0x7f"] by (simp add: word_le_nat_alt)
  hence b: "unat (n AND 0x7f) * unat MIN_VCLK \<le> 127 * 28636"
    by (simp add: MIN_VCLK_def)
  hence "unat ((n AND 0x7f) * MIN_VCLK) = unat (n AND 0x7f) * unat MIN_VCLK"
    by (subst unat_mult_lem[symmetric]) simp
  with b have "unat ((n AND 0x7f) * MIN_VCLK) \<le> 3636772" by simp
  moreover have "unat (cirrus_vco n d) \<le> unat ((n AND 0x7f) * MIN_VCLK)"
    by (simp add: cirrus_vco_def unat_div div_le_dividend)
  ultimately show ?thesis by (simp add: word_le_nat_alt)
qed

lemma fold_first_min:
  fixes K :: "'c \<Rightarrow> 'k::linorder"
  assumes step: "\<And>c acc. step c acc = (if V c \<and> K c < snd acc then (B c, K c) else acc)"
  shows "fold step cs (b0, k0) = (b, k) \<Longrightarrow>
    (b = b0 \<and> k = k0 \<and> (\<forall>c\<in>set cs. V c \<longrightarrow> k0 \<le> K c)) \<or>
    (\<exists>ys c zs. cs = ys @ c # zs \<and> V c \<and> b = B c \<and> k = K c \<and> K c < k0 \<and>
        (\<forall>y\<in>set ys. V y \<longrightarrow> K c < K y) \<and> (\<forall>z\<in>set zs. V z \<longrightarrow> K c \<le> K z))"
proof (induction cs arbitrary: b k rule: rev_induct)
  case Nil
  then show ?case by simp
next
  case (snoc x cs)
  obtain b' k' where acc: "fold step cs (b0, k0) = (b', k')" by (cases "fold step cs (b0, k0)")
  note IH = snoc.IH[OF acc]
  from snoc.prems acc have "step x (b', k') = (b, k)" by simp
  hence res: "(b, k) = (if V x \<and> K x < k' then (B x, K x) else (b', k'))"
    by (simp only: step snd_conv)
  show ?case
  proof (cases "V x \<and> K x < k'")
    case True
    with res have bk: "b = B x" "k = K x" by simp_all
    from IH have "K x < k0 \<and> (\<forall>y\<in>set cs. V y \<longrightarrow> K x < K y)"
    proof
      assume "b' = b0 \<and> k' = k0 \<and> (\<forall>c\<in>set cs. V c \<longrightarrow> k0 \<le> K c)"
      with True show ?thesis by auto
    next
      assume "\<exists>ys c zs. cs = ys @ c # zs \<and> V c \<and> b' = B c \<and> k' = K c \<and> K c < k0 \<and>
        (\<forall>y\<in>set ys. V y \<longrightarrow> K c < K y) \<and> (\<forall>z\<in>set zs. V z \<longrightarrow> K c \<le> K z)"
      then obtain ys c zs where h: "cs = ys @ c # zs" "V c" "k' = K c" "K c < k0"
        "\<forall>y\<in>set ys. V y \<longrightarrow> K c < K y" "\<forall>z\<in>set zs. V z \<longrightarrow> K c \<le> K z" by blast
      with True show ?thesis by fastforce
    qed
    with True bk have "(cs @ [x]) = cs @ x # [] \<and> V x \<and> b = B x \<and> k = K x \<and> K x < k0 \<and>
        (\<forall>y\<in>set cs. V y \<longrightarrow> K x < K y) \<and> (\<forall>z\<in>set []. V z \<longrightarrow> K x \<le> K z)" by simp
    then show ?thesis by blast
  next
    case False
    with res have bk: "b = b'" "k = k'" by simp_all
    from IH show ?thesis
    proof
      assume "b' = b0 \<and> k' = k0 \<and> (\<forall>c\<in>set cs. V c \<longrightarrow> k0 \<le> K c)"
      with False bk show ?thesis by auto
    next
      assume "\<exists>ys c zs. cs = ys @ c # zs \<and> V c \<and> b' = B c \<and> k' = K c \<and> K c < k0 \<and>
        (\<forall>y\<in>set ys. V y \<longrightarrow> K c < K y) \<and> (\<forall>z\<in>set zs. V z \<longrightarrow> K c \<le> K z)"
      then obtain ys c zs where h: "cs = ys @ c # zs" "V c" "b' = B c" "k' = K c" "K c < k0"
        "\<forall>y\<in>set ys. V y \<longrightarrow> K c < K y" "\<forall>z\<in>set zs. V z \<longrightarrow> K c \<le> K z" by blast
      with False bk have "cs @ [x] = ys @ c # (zs @ [x]) \<and> V c \<and> b = B c \<and> k = K c \<and> K c < k0 \<and>
        (\<forall>y\<in>set ys. V y \<longrightarrow> K c < K y) \<and> (\<forall>z\<in>set (zs @ [x]). V z \<longrightarrow> K c \<le> K z)"
        by auto
      then show ?thesis by blast
    qed
  qed
qed

lemma fold_product:
  "fold (\<lambda>n. fold (\<lambda>d. g n d) ds) ns acc = fold (\<lambda>(n, d). g n d) (List.product ns ds) acc"
proof (induction ns arbitrary: acc)
  case Nil
  show ?case by simp
next
  case (Cons n ns)
  have "fold (\<lambda>(n, d). g n d) (map (Pair n) ds) a = fold (\<lambda>d. g n d) ds a" for a
    by (induction ds arbitrary: a) simp_all
  with Cons show ?case by simp
qed

lemma sorted_product:
  "sorted_wrt (<) ns \<Longrightarrow> sorted_wrt (<) ds \<Longrightarrow> sorted_wrt vclk_before (List.product ns ds)"
proof (induction ns)
  case Nil
  show ?case by simp
next
  case (Cons n ns)
  have a: "sorted_wrt vclk_before (map (Pair n) ds)" using Cons.prems(2)
    by (simp add: sorted_wrt_map vclk_before_def)
  have b: "sorted_wrt vclk_before (List.product ns ds)" using Cons by simp
  have c: "\<forall>x\<in>set (map (Pair n) ds). \<forall>y\<in>set (List.product ns ds). vclk_before x y"
    using Cons.prems(1) by (auto simp: vclk_before_def)
  show ?case using a b c by (simp add: sorted_wrt_append)
qed

lemma split_sorted:
  assumes "sorted_wrt vclk_before (ys @ c # zs)" "c' \<in> set (ys @ c # zs)" "vclk_before c' c"
  shows "c' \<in> set ys"
proof -
  from assms(1) have "\<forall>z\<in>set zs. vclk_before c z" by (simp add: sorted_wrt_append)
  with assms(2,3) show ?thesis by (auto simp: vclk_before_def)
qed

lemma cands_set: "set vclk_cands = {16..<127} \<times> {20..<63}"
  by (simp only: vclk_cands_def set_product set_upt)

lemma n_facts: "\<forall>n\<in>set [0x10 ..< 0x7f]. (ucast (of_nat n :: uint) :: uchar) = of_nat n \<and> (ucast (of_nat n :: uchar) :: uint) = of_nat n"
  by (simp add: upt_rec_numeral)

lemma d_facts: "\<forall>d\<in>set [0x14 ..< 0x3f]. (ucast (of_nat d :: uint) :: uchar) = of_nat d \<and> (ucast (of_nat d :: uchar) :: uint) = of_nat d
    \<and> unat (of_nat d AND (1::uint)) = (if odd d then 1 else 0) \<and> odd (unat (of_nat d :: uchar)) = odd d \<and> 20 \<le> unat (of_nat d AND (0x3e :: uint))"
  by (simp add: upt_rec_numeral)

lemma vclk_body_step:
  assumes "c \<in> set vclk_cands"
  shows "(\<lambda>(n, d). vclk_body mx fr (of_nat n) (of_nat d)) c = vclk_step mx fr c"
proof -
  obtain n d where c: "c = (n, d)" by (cases c)
  from assms have "(n, d) \<in> set [0x10 ..< 0x7f] \<times> set [0x14 ..< 0x3f]"
    by (simp only: c vclk_cands_def set_product)
  hence n: "n \<in> set [0x10 ..< 0x7f]" and d: "d \<in> set [0x14 ..< 0x3f]"
    by blast+
  from n n_facts have nf: "(ucast (of_nat n :: uint) :: uchar) = of_nat n" by blast
  from d d_facts have df: "(ucast (of_nat d :: uint) :: uchar) = of_nat d"
     "unat (of_nat d AND (1::uint)) = (if odd d then 1 else 0)" by blast+
  show ?thesis
  proof (rule ext)
    fix acc
    let ?f = "cirrus_vco (of_nat n) (of_nat d)"
    have "drop_bit (unat (of_nat d AND (1::uint))) ?f = vclk_freq n d"
      by (simp add: df vclk_freq_def)
    hence "vclk_body mx fr (of_nat n) (of_nat d) acc =
       (if ?f < MIN_VCLK \<or> ?f > mx then acc
        else if vclk_key fr c < snd acc then (vclk_of n d, vclk_key fr c) else acc)"
      by (simp add: vclk_body_def Let_def vclk_key_def c vclk_of_def nf df(1))
    also have "\<dots> = vclk_step mx fr c acc"
      by (auto simp: vclk_step_def vclk_stable_def c)
    finally show "(case c of (n, d) \<Rightarrow> vclk_body mx fr (of_nat n) (of_nat d)) acc = vclk_step mx fr c acc"
      by (simp add: c)
  qed
qed

lemma vclk_search_fold: "vclk_search mx fr acc = fold (vclk_step mx fr) vclk_cands acc"
proof -
  have "vclk_search mx fr acc = fold (\<lambda>(n, d). vclk_body mx fr (of_nat n) (of_nat d)) vclk_cands acc"
    by (simp only: vclk_search_def vclk_cands_def fold_product)
  also have "\<dots> = fold (vclk_step mx fr) vclk_cands acc"
    by (rule fold_cong) (simp_all add: vclk_body_step)
  finally show ?thesis .
qed

lemma vclk_search_char:
  assumes "vclk_search mx fr (v0, fr) = (b, k)"
  shows "(b = v0 \<and> k = fr \<and> (\<forall>c\<in>set vclk_cands. vclk_stable mx (fst c) (snd c) \<longrightarrow> fr \<le> vclk_key fr c)) \<or>
    (\<exists>ys c zs. vclk_cands = ys @ c # zs \<and> vclk_stable mx (fst c) (snd c) \<and> b = vclk_of (fst c) (snd c) \<and>
        k = vclk_key fr c \<and> vclk_key fr c < fr \<and>
        (\<forall>y\<in>set ys. vclk_stable mx (fst y) (snd y) \<longrightarrow> vclk_key fr c < vclk_key fr y) \<and>
        (\<forall>z\<in>set zs. vclk_stable mx (fst z) (snd z) \<longrightarrow> vclk_key fr c \<le> vclk_key fr z))"
proof -
  from assms have "fold (vclk_step mx fr) vclk_cands (v0, fr) = (b, k)"
    by (simp only: vclk_search_fold)
  thus ?thesis
    by (rule fold_first_min[where V = "\<lambda>c. vclk_stable mx (fst c) (snd c)" and K = "vclk_key fr"
          and B = "\<lambda>c. vclk_of (fst c) (snd c)", rotated]) (simp add: vclk_step_def)
qed

lemma cands_sorted: "sorted_wrt vclk_before vclk_cands"
  unfolding vclk_cands_def by (rule sorted_product) (rule sorted_wrt_upt)+

lemma vclk_freq_le: "vclk_freq n d \<le> cirrus_vco (of_nat n) (of_nat d)"
  by (simp add: vclk_freq_def drop_le)

lemma vclk_freq_bound: "vclk_freq n d < 2^31"
proof -
  have "vclk_freq n d \<le> 3636772"
    using vclk_freq_le[of n d] vco_bound[of "of_nat n" "of_nat d"] by (rule order_trans)
  thus ?thesis by (simp add: word_le_def word_less_def)
qed

lemma vclk_key_dist:
  assumes "fr < 2^31"
  shows "uint (vclk_key fr c) = vclk_dist fr (fst c) (snd c)"
  unfolding vclk_key_def vclk_dist_def
  by (rule c_abs_uint[OF vclk_freq_bound assms])

lemma vclk_stable_nonzero:
  assumes "vclk_stable mx n d"
  shows "vclk_freq n d \<noteq> 0"
proof -
  let ?f = "cirrus_vco (of_nat n) (of_nat d)"
  from assms have "28636 \<le> unat ?f"
    by (simp add: vclk_stable_def MIN_VCLK_def word_le_nat_alt)
  moreover have "unat (drop_bit 1 ?f) = unat ?f div 2"
    by (simp add: drop_bit_eq_div unat_div)
  ultimately have "unat (vclk_freq n d) \<noteq> 0"
    by (auto simp: vclk_freq_def)
  thus ?thesis by auto
qed

lemma eff_ceiling: "(if m < MAX_VCLK then MAX_VCLK else m) = max m MAX_VCLK"
  by (auto simp: max_def)

lemma cirrus_vclk_search:
  assumes "vclk_table (freq v) vclks = None"
  shows "cirrus_vclk m v =
    (let best = fst (vclk_search (max m MAX_VCLK) (freq v) (v\<lparr>freq := 0\<rparr>, freq v))
     in if freq best \<noteq> 0 then Inr best else Inl EINVAL)"
  using assms by (simp add: cirrus_vclk_def Let_def eff_ceiling del: vclk_table.simps)

lemma vclk_freq_small:
  assumes n: "n \<le> 125" and d: "d \<in> set [0x14 ..< 0x3f]"
  shows "unat (vclk_freq n d) \<le> 178975"
proof -
  let ?x = "(of_nat n :: uint) AND 0x7f"
  have "unat (of_nat n :: uint) = n" using n by (simp add: unat_of_nat)
  moreover have "unat ?x \<le> unat (of_nat n :: uint)"
    using word_and_le2[of "of_nat n" "0x7f"] by (simp only: word_le_nat_alt)
  ultimately have x: "unat ?x \<le> 125" using n by simp
  hence "unat ?x * unat MIN_VCLK \<le> 125 * 28636" by (simp add: MIN_VCLK_def)
  hence p: "unat ?x * unat MIN_VCLK \<le> 3579500" by simp
  hence "unat (?x * MIN_VCLK) = unat ?x * unat MIN_VCLK"
    by (subst unat_mult_lem[symmetric]) simp
  with p have num: "unat (?x * MIN_VCLK) \<le> 3579500" by simp
  from d d_facts have den: "20 \<le> unat (of_nat d AND (0x3e :: uint))" by blast
  have "unat (cirrus_vco (of_nat n) (of_nat d)) =
      unat (?x * MIN_VCLK) div unat (of_nat d AND (0x3e :: uint))"
    by (simp only: cirrus_vco_def unat_div)
  also have "\<dots> \<le> unat (?x * MIN_VCLK) div 20"
    using den by (intro div_le_mono2) simp_all
  also have "\<dots> \<le> 3579500 div 20"
    using num by (rule div_le_mono)
  finally have "unat (cirrus_vco (of_nat n) (of_nat d)) \<le> 178975" by simp
  moreover have "unat (vclk_freq n d) \<le> unat (cirrus_vco (of_nat n) (of_nat d))"
    using vclk_freq_le[of n d] by (simp only: word_le_nat_alt)
  ultimately show ?thesis by simp
qed

lemma c_abs_zero: "c_abs x = 0 \<Longrightarrow> x = 0"
  by (simp add: c_abs_def split: if_splits)

lemma t_none: "vclk_table 180406 vclks = None"
  by (simp add: vclks_def mk_vclk_def c_abs_def word_sless_alt)

lemma vco_126_20: "cirrus_vco 126 20 = 180406"
  by (simp add: cirrus_vco_def MIN_VCLK_def)

text \<open>
  A target the search settles on the last numerator: 180406 kHz under a ceiling of
  200000 kHz. The candidate (0x7e, 0x14) hits the target exactly, and no candidate of a
  smaller numerator reaches it.
\<close>

lemma cirrus_vclk_180406:
  "vclk_table (freq (mk_vclk 180406 0 0)) vclks = None \<and>
   cirrus_vclk 200000 (mk_vclk 180406 0 0) = Inr (mk_vclk 180406 0x7e 0x14)"
proof -
  let ?v = "mk_vclk 180406 0 0"
  have fr: "freq ?v = 180406" by (simp add: mk_vclk_def)
  have mx: "max 200000 MAX_VCLK = 200000" by (simp add: MAX_VCLK_def)
  have tn: "vclk_table (freq ?v) vclks = None" by (simp only: fr t_none)
  obtain b k where bk: "vclk_search 200000 180406 (?v\<lparr>freq := 0\<rparr>, 180406) = (b, k)"
    by (cases "vclk_search 200000 180406 (?v\<lparr>freq := 0\<rparr>, 180406)")
  have res: "cirrus_vclk 200000 ?v = (if freq b \<noteq> 0 then Inr b else Inl EINVAL)"
    using cirrus_vclk_search[OF tn, of 200000] by (simp add: bk mx fr Let_def)
  let ?c0 = "(126::nat, 20::nat)"
  have c0_mem: "?c0 \<in> set vclk_cands" by (simp only: cands_set) simp
  have c0_st: "vclk_stable 200000 (fst ?c0) (snd ?c0)"
    by (simp add: vclk_stable_def vco_126_20 MIN_VCLK_def)
  have c0_fr: "vclk_freq 126 20 = 180406" by (simp add: vclk_freq_def vco_126_20)
  have c0_key: "vclk_key 180406 ?c0 = 0" by (simp add: vclk_key_def c0_fr c_abs_def)
  from vclk_search_char[OF bk] have "b = vclk_of 126 20"
  proof
    assume "b = ?v\<lparr>freq := 0\<rparr> \<and> k = 180406 \<and>
      (\<forall>c\<in>set vclk_cands. vclk_stable 200000 (fst c) (snd c) \<longrightarrow> 180406 \<le> vclk_key 180406 c)"
    with c0_mem c0_st have "(180406::uint) \<le> vclk_key 180406 ?c0" by blast
    thus ?thesis by (simp add: c0_key)
  next
    assume "\<exists>ys c zs. vclk_cands = ys @ c # zs \<and> vclk_stable 200000 (fst c) (snd c) \<and>
        b = vclk_of (fst c) (snd c) \<and> k = vclk_key 180406 c \<and> vclk_key 180406 c < 180406 \<and>
        (\<forall>y\<in>set ys. vclk_stable 200000 (fst y) (snd y) \<longrightarrow> vclk_key 180406 c < vclk_key 180406 y) \<and>
        (\<forall>z\<in>set zs. vclk_stable 200000 (fst z) (snd z) \<longrightarrow> vclk_key 180406 c \<le> vclk_key 180406 z)"
    then obtain ys c zs where h: "vclk_cands = ys @ c # zs"
        "b = vclk_of (fst c) (snd c)"
        "\<forall>y\<in>set ys. vclk_stable 200000 (fst y) (snd y) \<longrightarrow> vclk_key 180406 c < vclk_key 180406 y"
        "\<forall>z\<in>set zs. vclk_stable 200000 (fst z) (snd z) \<longrightarrow> vclk_key 180406 c \<le> vclk_key 180406 z"
      by blast
    have srt: "sorted_wrt vclk_before (ys @ c # zs)" using cands_sorted by (simp only: h(1))
    have c_mem: "c \<in> set vclk_cands" unfolding h(1) by simp
    from c0_mem have c0_in: "?c0 \<in> set ys \<or> ?c0 = c \<or> ?c0 \<in> set zs" unfolding h(1) by auto
    have not_ys: "?c0 \<notin> set ys"
    proof
      assume "?c0 \<in> set ys"
      with h(3) c0_st have "vclk_key 180406 c < vclk_key 180406 ?c0" by blast
      thus False by (simp add: c0_key)
    qed
    have "?c0 = c"
    proof (rule ccontr)
      assume ne: "?c0 \<noteq> c"
      with c0_in not_ys have z: "?c0 \<in> set zs" by blast
      with h(4) c0_st have "vclk_key 180406 c \<le> vclk_key 180406 ?c0" by blast
      hence "vclk_key 180406 c = 0" by (simp add: c0_key)
      hence "vclk_freq (fst c) (snd c) - 180406 = 0" unfolding vclk_key_def by (rule c_abs_zero)
      hence f: "unat (vclk_freq (fst c) (snd c)) = 180406" by simp
      from srt z have lt: "vclk_before c ?c0" by (simp add: sorted_wrt_append)
      have "(fst c, snd c) \<in> set [0x10 ..< 0x7f] \<times> set [0x14 ..< 0x3f]"
        using c_mem by (simp only: vclk_cands_def set_product prod.collapse)
      hence sd: "snd c \<in> set [0x14 ..< 0x3f]" by blast
      hence "20 \<le> snd c" by (simp only: set_upt) simp
      with lt have "fst c \<le> 125" by (auto simp: vclk_before_def)
      from vclk_freq_small[OF this sd] f show False by simp
    qed
    with h(2) show ?thesis by auto
  qed
  hence "cirrus_vclk 200000 ?v = Inr (vclk_of 126 20)"
    using res by (simp add: vclk_of_def c0_fr)
  moreover have "vclk_of 126 20 = mk_vclk 180406 0x7e 0x14"
    by (simp add: vclk_of_def c0_fr mk_vclk_def)
  ultimately show ?thesis using tn by simp
qed

lemma vclk_table_Some:
  "vclk_table fr es = Some e \<Longrightarrow> e \<in> set es \<and> freq e \<noteq> 0"
  by (induction es) (auto split: if_splits)

lemma vclks_halved: "\<forall>e\<in>set vclks. freq e \<noteq> 0 \<longrightarrow> vclk_halved e"
  by (simp add: vclks_def mk_vclk_def vclk_halved_def cirrus_vco_def MIN_VCLK_def)

subsection \<open>C1: the exhaustive search\<close>

text \<open>
  Claim C1, as the code has it. For a target below \<open>2^31\<close> kHz (so that the casts to
  \<open>int\<close> keep its value) that matches no table entry, and any per-depth ceiling
  \<open>m\<close>, the effective ceiling is \<open>max m MAX_VCLK\<close>. When \<open>cirrus_vclk\<close> succeeds,
  the clock it returns is a candidate with numerator in [0x10,0x7f) and denominator in
  [0x14,0x3f) whose VCO lies in [\<open>MIN_VCLK\<close>, effective ceiling]; its achieved
  frequency is closer to the target than the target is to 0, at least as close to the
  target as that of every such candidate, and strictly closer than that of every such
  candidate earlier in iteration order. When it fails, the error is \<open>EINVAL\<close> and no
  candidate of the band is closer to the target than the target is to 0. So it fails
  exactly when no candidate of the band is closer to the target than the target's own
  value (\<open>mindiff\<close> starts at the target); in particular it fails when the band holds no
  candidate.
\<close>

theorem cirrus_vclk_search_best:
  assumes nomatch: "vclk_table (freq v) vclks = None" and small: "freq v < 2^31"
  shows "(case cirrus_vclk m v of
      Inr r \<Rightarrow>
        (\<exists>n d. 0x10 \<le> n \<and> n < 0x7f \<and> 0x14 \<le> d \<and> d < 0x3f \<and> r = vclk_of n d \<and>
           vclk_stable (max m MAX_VCLK) n d \<and>
           vclk_dist (freq v) n d < uint (freq v) \<and>
           (\<forall>n' d'. 0x10 \<le> n' \<and> n' < 0x7f \<and> 0x14 \<le> d' \<and> d' < 0x3f \<and>
                vclk_stable (max m MAX_VCLK) n' d' \<longrightarrow>
              vclk_dist (freq v) n d \<le> vclk_dist (freq v) n' d' \<and>
              (n' < n \<or> n' = n \<and> d' < d \<longrightarrow> vclk_dist (freq v) n d < vclk_dist (freq v) n' d')))
    | Inl e \<Rightarrow>
        e = EINVAL \<and>
        (\<forall>n' d'. 0x10 \<le> n' \<and> n' < 0x7f \<and> 0x14 \<le> d' \<and> d' < 0x3f \<and>
             vclk_stable (max m MAX_VCLK) n' d' \<longrightarrow> uint (freq v) \<le> vclk_dist (freq v) n' d')) \<and>
    (cirrus_vclk m v = Inl EINVAL \<longleftrightarrow>
       (\<forall>n' d'. 0x10 \<le> n' \<and> n' < 0x7f \<and> 0x14 \<le> d' \<and> d' < 0x3f \<and>
            vclk_stable (max m MAX_VCLK) n' d' \<longrightarrow> uint (freq v) \<le> vclk_dist (freq v) n' d'))"
proof -
  let ?mx = "max m MAX_VCLK" and ?fr = "freq v"
  obtain b k where bk: "vclk_search ?mx ?fr (v\<lparr>freq := 0\<rparr>, ?fr) = (b, k)"
    by (cases "vclk_search ?mx ?fr (v\<lparr>freq := 0\<rparr>, ?fr)")
  have res: "cirrus_vclk m v = (if freq b \<noteq> 0 then Inr b else Inl EINVAL)"
    by (simp add: cirrus_vclk_search[OF nomatch] bk Let_def)
  have mem: "(n, d) \<in> set vclk_cands \<longleftrightarrow> 0x10 \<le> n \<and> n < 0x7f \<and> 0x14 \<le> d \<and> d < 0x3f" for n d
    by (simp only: cands_set) auto
  from vclk_search_char[OF bk] show ?thesis
  proof
    assume a: "b = v\<lparr>freq := 0\<rparr> \<and> k = ?fr \<and>
      (\<forall>c\<in>set vclk_cands. vclk_stable ?mx (fst c) (snd c) \<longrightarrow> ?fr \<le> vclk_key ?fr c)"
    hence r: "cirrus_vclk m v = Inl EINVAL" by (simp add: res)
    have "uint ?fr \<le> vclk_dist ?fr n' d'"
      if "0x10 \<le> n' \<and> n' < 0x7f \<and> 0x14 \<le> d' \<and> d' < 0x3f \<and> vclk_stable ?mx n' d'" for n' d'
    proof -
      from that have "(n', d') \<in> set vclk_cands" by (simp only: mem)
      with a that have "?fr \<le> vclk_key ?fr (n', d')" by force
      thus ?thesis using vclk_key_dist[OF small, of "(n', d')"] by (simp add: word_le_def)
    qed
    thus ?thesis by (simp add: r)
  next
    assume "\<exists>ys c zs. vclk_cands = ys @ c # zs \<and> vclk_stable ?mx (fst c) (snd c) \<and>
        b = vclk_of (fst c) (snd c) \<and> k = vclk_key ?fr c \<and> vclk_key ?fr c < ?fr \<and>
        (\<forall>y\<in>set ys. vclk_stable ?mx (fst y) (snd y) \<longrightarrow> vclk_key ?fr c < vclk_key ?fr y) \<and>
        (\<forall>z\<in>set zs. vclk_stable ?mx (fst z) (snd z) \<longrightarrow> vclk_key ?fr c \<le> vclk_key ?fr z)"
    then obtain ys c zs where h: "vclk_cands = ys @ c # zs" "vclk_stable ?mx (fst c) (snd c)"
        "b = vclk_of (fst c) (snd c)"
        "\<forall>y\<in>set ys. vclk_stable ?mx (fst y) (snd y) \<longrightarrow> vclk_key ?fr c < vclk_key ?fr y"
        "\<forall>z\<in>set zs. vclk_stable ?mx (fst z) (snd z) \<longrightarrow> vclk_key ?fr c \<le> vclk_key ?fr z"
        and closer: "vclk_key ?fr c < ?fr"
      by blast
    obtain n d where c: "c = (n, d)" by (cases c)
    have "c \<in> set vclk_cands" unfolding h(1) by simp
    hence rng: "0x10 \<le> n \<and> n < 0x7f \<and> 0x14 \<le> d \<and> d < 0x3f" by (simp only: c mem)
    from h(2,3) have "freq b \<noteq> 0" by (simp add: vclk_of_def vclk_stable_nonzero)
    hence r: "cirrus_vclk m v = Inr (vclk_of n d)" using h(3) by (simp add: res c)
    have near: "vclk_dist ?fr n d < uint ?fr"
      using closer vclk_key_dist[OF small, of c] by (simp add: c word_less_def)
    have best: "vclk_dist ?fr n d \<le> vclk_dist ?fr n' d' \<and>
        (n' < n \<or> n' = n \<and> d' < d \<longrightarrow> vclk_dist ?fr n d < vclk_dist ?fr n' d')"
      if t: "0x10 \<le> n' \<and> n' < 0x7f \<and> 0x14 \<le> d' \<and> d' < 0x3f \<and> vclk_stable ?mx n' d'" for n' d'
    proof -
      from t have in_c: "(n', d') \<in> set (ys @ c # zs)" by (simp only: mem h(1)[symmetric])
      have st: "vclk_stable ?mx (fst (n', d')) (snd (n', d'))" using t by simp
      have le: "vclk_key ?fr c \<le> vclk_key ?fr (n', d')"
        using in_c h(4,5) st by (auto simp del: fst_conv snd_conv)
      have lt: "vclk_key ?fr c < vclk_key ?fr (n', d')" if "vclk_before (n', d') c"
      proof -
        from cands_sorted h(1) have "sorted_wrt vclk_before (ys @ c # zs)" by simp
        from split_sorted[OF this in_c that] have "(n', d') \<in> set ys" .
        with h(4) st show ?thesis by blast
      qed
      have k1: "uint (vclk_key ?fr c) = vclk_dist ?fr n d"
        using vclk_key_dist[OF small, of c] by (simp add: c)
      have k2: "uint (vclk_key ?fr (n', d')) = vclk_dist ?fr n' d'"
        using vclk_key_dist[OF small, of "(n', d')"] by simp
      from le lt k1 k2 show ?thesis
        by (auto simp: word_le_def word_less_def vclk_before_def c)
    qed
    from rng h(2) best near have "\<exists>n d. 0x10 \<le> n \<and> n < 0x7f \<and> 0x14 \<le> d \<and> d < 0x3f \<and> vclk_of (fst c) (snd c) = vclk_of n d \<and>
           vclk_stable ?mx n d \<and>
           vclk_dist ?fr n d < uint ?fr \<and>
           (\<forall>n' d'. 0x10 \<le> n' \<and> n' < 0x7f \<and> 0x14 \<le> d' \<and> d' < 0x3f \<and>
                vclk_stable ?mx n' d' \<longrightarrow>
              vclk_dist ?fr n d \<le> vclk_dist ?fr n' d' \<and>
              (n' < n \<or> n' = n \<and> d' < d \<longrightarrow> vclk_dist ?fr n d < vclk_dist ?fr n' d'))"
      unfolding c fst_conv snd_conv by blast
    moreover have "\<not> (\<forall>n' d'. 0x10 \<le> n' \<and> n' < 0x7f \<and> 0x14 \<le> d' \<and> d' < 0x3f \<and>
            vclk_stable ?mx n' d' \<longrightarrow> uint ?fr \<le> vclk_dist ?fr n' d')"
    proof
      assume "\<forall>n' d'. 0x10 \<le> n' \<and> n' < 0x7f \<and> 0x14 \<le> d' \<and> d' < 0x3f \<and>
            vclk_stable ?mx n' d' \<longrightarrow> uint ?fr \<le> vclk_dist ?fr n' d'"
      with rng h(2) have "uint ?fr \<le> vclk_dist ?fr n d" unfolding c fst_conv snd_conv by blast
      with near show False by simp
    qed
    ultimately show ?thesis by (simp add: r c)
  qed
qed

theorem cirrus_vclk_search_best_witness:
  "vclk_table (freq (mk_vclk 180406 0 0)) vclks = None \<and> freq (mk_vclk 180406 0 0) < 2^31 \<and>
   (case cirrus_vclk 200000 (mk_vclk 180406 0 0) of
      Inr r \<Rightarrow>
        (\<exists>n d. 0x10 \<le> n \<and> n < 0x7f \<and> 0x14 \<le> d \<and> d < 0x3f \<and> r = vclk_of n d \<and>
           vclk_stable (max 200000 MAX_VCLK) n d \<and>
           vclk_dist (freq (mk_vclk 180406 0 0)) n d < uint (freq (mk_vclk 180406 0 0)) \<and>
           (\<forall>n' d'. 0x10 \<le> n' \<and> n' < 0x7f \<and> 0x14 \<le> d' \<and> d' < 0x3f \<and>
                vclk_stable (max 200000 MAX_VCLK) n' d' \<longrightarrow>
              vclk_dist (freq (mk_vclk 180406 0 0)) n d \<le> vclk_dist (freq (mk_vclk 180406 0 0)) n' d' \<and>
              (n' < n \<or> n' = n \<and> d' < d \<longrightarrow>
                 vclk_dist (freq (mk_vclk 180406 0 0)) n d < vclk_dist (freq (mk_vclk 180406 0 0)) n' d')))
    | Inl e \<Rightarrow>
        e = EINVAL \<and>
        (\<forall>n' d'. 0x10 \<le> n' \<and> n' < 0x7f \<and> 0x14 \<le> d' \<and> d' < 0x3f \<and>
             vclk_stable (max 200000 MAX_VCLK) n' d' \<longrightarrow>
           uint (freq (mk_vclk 180406 0 0)) \<le> vclk_dist (freq (mk_vclk 180406 0 0)) n' d')) \<and>
   (cirrus_vclk 200000 (mk_vclk 180406 0 0) = Inl EINVAL \<longleftrightarrow>
      (\<forall>n' d'. 0x10 \<le> n' \<and> n' < 0x7f \<and> 0x14 \<le> d' \<and> d' < 0x3f \<and>
           vclk_stable (max 200000 MAX_VCLK) n' d' \<longrightarrow>
         uint (freq (mk_vclk 180406 0 0)) \<le> vclk_dist (freq (mk_vclk 180406 0 0)) n' d'))"
proof -
  have t: "vclk_table (freq (mk_vclk 180406 0 0)) vclks = None"
    using cirrus_vclk_180406 by blast
  have s: "freq (mk_vclk 180406 0 0) < 2^31" by (simp add: mk_vclk_def)
  from cirrus_vclk_search_best[OF t s, of 200000] t s show ?thesis by blast
qed

text \<open>
  Claim C1 as stated restricts the numerators to [0x10,0x7e). The loop runs to
  \<open>n < 0x7f\<close>: for the target 180406 kHz under a ceiling of 200000 kHz, which matches no
  table entry, the search returns the numerator 0x7e.
\<close>

theorem cirrus_vclk_numerator_counterexample:
  "vclk_table (freq (mk_vclk 180406 0 0)) vclks = None \<and>
   cirrus_vclk 200000 (mk_vclk 180406 0 0) = Inr (mk_vclk 180406 0x7e 0x14) \<and>
   \<not> unat (num (mk_vclk 180406 0x7e 0x14)) < 0x7e"
  using cirrus_vclk_180406 by (simp add: mk_vclk_def)

subsection \<open>C2: the invariant of a returned clock\<close>

text \<open>
  Claim C2, as the code has it. Whenever \<open>cirrus_vclk\<close> succeeds, from the table or from
  the search, the returned frequency is the internal VCO of the returned numerator and
  denominator, shifted right by one bit when the denominator is odd. When the result
  comes from the search (no table entry matched), that VCO lies between \<open>MIN_VCLK\<close> and
  the effective maximum \<open>max m MAX_VCLK\<close>.
\<close>

theorem cirrus_vclk_invariant:
  assumes ok: "cirrus_vclk m v = Inr r"
  shows "freq r = (if odd (unat (den r)) then drop_bit 1 (cirrus_vco (ucast (num r)) (ucast (den r)))
                   else cirrus_vco (ucast (num r)) (ucast (den r))) \<and>
         (vclk_table (freq v) vclks = None \<longrightarrow>
            MIN_VCLK \<le> cirrus_vco (ucast (num r)) (ucast (den r)) \<and>
            cirrus_vco (ucast (num r)) (ucast (den r)) \<le> max m MAX_VCLK)"
proof (cases "vclk_table (freq v) vclks")
  case (Some e)
  with ok have "r = e" by (simp add: cirrus_vclk_def Let_def del: vclk_table.simps)
  with Some vclk_table_Some[of "freq v" vclks e] vclks_halved have "vclk_halved r" by blast
  with Some show ?thesis by (simp add: vclk_halved_def)
next
  case None
  let ?mx = "max m MAX_VCLK" and ?fr = "freq v"
  obtain b k where bk: "vclk_search ?mx ?fr (v\<lparr>freq := 0\<rparr>, ?fr) = (b, k)"
    by (cases "vclk_search ?mx ?fr (v\<lparr>freq := 0\<rparr>, ?fr)")
  from ok have res: "freq b \<noteq> 0 \<and> r = b"
    by (simp add: cirrus_vclk_search[OF None] bk Let_def split: if_splits)
  from vclk_search_char[OF bk]
  have "\<exists>c. c \<in> set vclk_cands \<and> vclk_stable ?mx (fst c) (snd c) \<and> r = vclk_of (fst c) (snd c)"
  proof
    assume "b = v\<lparr>freq := 0\<rparr> \<and> k = ?fr \<and>
      (\<forall>c\<in>set vclk_cands. vclk_stable ?mx (fst c) (snd c) \<longrightarrow> ?fr \<le> vclk_key ?fr c)"
    with res show ?thesis by simp
  next
    assume "\<exists>ys c zs. vclk_cands = ys @ c # zs \<and> vclk_stable ?mx (fst c) (snd c) \<and>
        b = vclk_of (fst c) (snd c) \<and> k = vclk_key ?fr c \<and> vclk_key ?fr c < ?fr \<and>
        (\<forall>y\<in>set ys. vclk_stable ?mx (fst y) (snd y) \<longrightarrow> vclk_key ?fr c < vclk_key ?fr y) \<and>
        (\<forall>z\<in>set zs. vclk_stable ?mx (fst z) (snd z) \<longrightarrow> vclk_key ?fr c \<le> vclk_key ?fr z)"
    then obtain ys c zs where h: "vclk_cands = ys @ c # zs" "vclk_stable ?mx (fst c) (snd c)"
        "b = vclk_of (fst c) (snd c)" by blast
    have "c \<in> set vclk_cands" unfolding h(1) by simp
    with h res show ?thesis by blast
  qed
  then obtain c where c: "c \<in> set vclk_cands"
      "vclk_stable ?mx (fst c) (snd c)" "r = vclk_of (fst c) (snd c)"
    by blast
  have "(fst c, snd c) \<in> set [0x10 ..< 0x7f] \<times> set [0x14 ..< 0x3f]"
    using c(1) by (simp only: vclk_cands_def set_product prod.collapse)
  hence "fst c \<in> set [0x10 ..< 0x7f]" "snd c \<in> set [0x14 ..< 0x3f]" by blast+
  with n_facts d_facts have f: "(ucast (of_nat (fst c) :: uchar) :: uint) = of_nat (fst c)"
      "(ucast (of_nat (snd c) :: uchar) :: uint) = of_nat (snd c)"
      "odd (unat (of_nat (snd c) :: uchar)) = odd (snd c)"
    by blast+
  from c(2) show ?thesis
    by (simp add: c(3) vclk_of_def f vclk_freq_def vclk_stable_def)
qed

theorem cirrus_vclk_invariant_witness:
  "cirrus_vclk 200000 (mk_vclk 180406 0 0) = Inr (mk_vclk 180406 0x7e 0x14) \<and>
   vclk_table (freq (mk_vclk 180406 0 0)) vclks = None \<and>
   freq (mk_vclk 180406 0x7e 0x14) = cirrus_vco 0x7e 0x14 \<and>
   MIN_VCLK \<le> cirrus_vco 0x7e 0x14 \<and> cirrus_vco 0x7e 0x14 \<le> max 200000 MAX_VCLK"
proof -
  have h: "cirrus_vclk 200000 (mk_vclk 180406 0 0) = Inr (mk_vclk 180406 0x7e 0x14)"
    and t: "vclk_table (freq (mk_vclk 180406 0 0)) vclks = None"
    using cirrus_vclk_180406 by blast+
  from cirrus_vclk_invariant[OF h] t h show ?thesis
    by (auto simp: mk_vclk_def)
qed

text \<open>
  Claim C2 as stated extends the band to results taken from the table. The table is
  returned unchanged: the target 12599 kHz yields the entry (12599, 0x2c, 0x33), whose
  VCO is 25199 kHz, below \<open>MIN_VCLK\<close>.
\<close>

theorem cirrus_vclk_table_counterexample:
  "cirrus_vclk 135100 (mk_vclk 12599 0 0) = Inr (mk_vclk 12599 0x2c 0x33) \<and>
   cirrus_vco (ucast (num (mk_vclk 12599 0x2c 0x33))) (ucast (den (mk_vclk 12599 0x2c 0x33))) = 25199 \<and>
   \<not> MIN_VCLK \<le> cirrus_vco (ucast (num (mk_vclk 12599 0x2c 0x33))) (ucast (den (mk_vclk 12599 0x2c 0x33)))"
  by (simp add: cirrus_vclk_def vclks_def mk_vclk_def c_abs_def word_sless_alt cirrus_vco_def MIN_VCLK_def)

section \<open>Timing synthesis: proofs\<close>

subsection \<open>C4: the horizontal blanking interval\<close>

text \<open>
  Claim C4, as the code has it. For every timing descriptor the horizontal blanking
  interval of \<open>vga_mode\<close> ends at or after the sync end. When the widening step does not
  fire (\<open>min(sync_start, resolution) + 0x1f8 < blank_end\<close> is false), the blanking start is
  \<open>min(sync_start, resolution)\<close>, at or before the sync start. When it fires, the blanking
  start is \<open>blank_end - 0x1f8\<close>. CRTC register 2 is packed from that blanking start.
\<close>

theorem vga_hblank_bounds:
  "hsynce m \<le> snd (vga_hblank m) \<and>
   (\<not> min (hsyncs m) (hres m) + 0x1f8 < max (hsynce m) (htotal m) \<longrightarrow>
      fst (vga_hblank m) = min (hsyncs m) (hres m) \<and> fst (vga_hblank m) \<le> hsyncs m) \<and>
   (min (hsyncs m) (hres m) + 0x1f8 < max (hsynce m) (htotal m) \<longrightarrow>
      fst (vga_hblank m) = snd (vga_hblank m) - 0x1f8) \<and>
   crtc (vga_mode k m st) 2 = ucast (drop_bit 3 (fst (vga_hblank m)) - 1)"
  by (simp add: vga_hblank_def vga_mode_def Let_def case_prod_beta split del: if_split)
     (simp add: Let_def)

theorem vga_hblank_bounds_witness:
  "\<not> min (hsyncs (cfgs ! 1)) (hres (cfgs ! 1)) + 0x1f8 < max (hsynce (cfgs ! 1)) (htotal (cfgs ! 1)) \<and>
   fst (vga_hblank (cfgs ! 1)) = min (hsyncs (cfgs ! 1)) (hres (cfgs ! 1)) \<and>
   fst (vga_hblank (cfgs ! 1)) \<le> hsyncs (cfgs ! 1) \<and>
   min (hsyncs (mk_mode 25175 640 656 752 1200 0 480 490 492 525 0 0)) (hres (mk_mode 25175 640 656 752 1200 0 480 490 492 525 0 0)) + 0x1f8
     < max (hsynce (mk_mode 25175 640 656 752 1200 0 480 490 492 525 0 0)) (htotal (mk_mode 25175 640 656 752 1200 0 480 490 492 525 0 0)) \<and>
   fst (vga_hblank (mk_mode 25175 640 656 752 1200 0 480 490 492 525 0 0)) =
     snd (vga_hblank (mk_mode 25175 640 656 752 1200 0 480 490 492 525 0 0)) - 0x1f8"
proof -
  have a: "\<not> min (hsyncs (cfgs ! 1)) (hres (cfgs ! 1)) + 0x1f8 < max (hsynce (cfgs ! 1)) (htotal (cfgs ! 1))"
    by (simp add: cfgs_def mk_mode_def)
  have b: "min (hsyncs (mk_mode 25175 640 656 752 1200 0 480 490 492 525 0 0)) (hres (mk_mode 25175 640 656 752 1200 0 480 490 492 525 0 0)) + 0x1f8
     < max (hsynce (mk_mode 25175 640 656 752 1200 0 480 490 492 525 0 0)) (htotal (mk_mode 25175 640 656 752 1200 0 480 490 492 525 0 0))"
    by (simp add: mk_mode_def)
  from vga_hblank_bounds[of "cfgs ! 1"] vga_hblank_bounds[of "mk_mode 25175 640 656 752 1200 0 480 490 492 525 0 0"] a b
  show ?thesis by blast
qed

text \<open>
  Claim C4 as stated bounds the blanking start by the sync start after the widening step
  too. The step raises the start: with resolution 640, sync 656 to 752 and total 1200 the
  blanking start becomes 1200 - 504 = 696, beyond the sync start 656.
\<close>

theorem vga_hblank_widened_counterexample:
  "fst (vga_hblank (mk_mode 25175 640 656 752 1200 0 480 490 492 525 0 0)) = 696 \<and>
   hsyncs (mk_mode 25175 640 656 752 1200 0 480 490 492 525 0 0) = 656 \<and>
   \<not> fst (vga_hblank (mk_mode 25175 640 656 752 1200 0 480 490 492 525 0 0))
       \<le> hsyncs (mk_mode 25175 640 656 752 1200 0 480 490 492 525 0 0)"
  by (simp add: vga_hblank_def mk_mode_def Let_def)

subsection \<open>C5: the order of the vertical transformations\<close>


text \<open>
  With both flags set the source's order (double, then halve) keeps an odd quantity; the
  other order would drop its low bit.
\<close>

lemma vga_vtimings_order:
  "vga_vtimings (mk_mode 25175 640 656 752 800 0 481 490 492 525 0 (VGA_DBLSCAN OR VGA_INTERLACE)) =
     (481, 490, 492, 525) \<and>
   all_four (\<lambda>x. 2 * x) (all_four (\<lambda>x. x div 2) (481, 490, 492, 525)) = (480, 490, 492, 524)"
  by (simp add: vga_vtimings_def mk_mode_def all_four_def VGA_DBLSCAN_def VGA_INTERLACE_def Let_def)

text \<open>
  The graphics mode of the generic driver, 320x200 with a scan multiplier of 2: the
  multiplied quantities are 400, 412, 414 and 448, and the blanking end 448 is packed
  into register 22 as 0xbf; the correction is not tried, since 448 is not the total 224
  of the descriptor.
\<close>

lemma vga_mode_320x200:
  "vga_vtimings (mk_mode 25175 320 336 384 400 0 200 206 207 224 2 (VGA_VSYNCP OR VGA_CLKDIV)) =
     (400, 412, 414, 448) \<and>
   crtc (vga_mode 0 (mk_mode 25175 320 336 384 400 0 200 206 207 224 2 (VGA_VSYNCP OR VGA_CLKDIV)) vga_state0) 9 = 0x41 \<and>
   crtc (vga_mode 0 (mk_mode 25175 320 336 384 400 0 200 206 207 224 2 (VGA_VSYNCP OR VGA_CLKDIV)) vga_state0) 21 = 0x8f \<and>
   crtc (vga_mode 0 (mk_mode 25175 320 336 384 400 0 200 206 207 224 2 (VGA_VSYNCP OR VGA_CLKDIV)) vga_state0) 22 = 0xbf"
proof -
  let ?m = "mk_mode 25175 320 336 384 400 0 200 206 207 224 2 (VGA_VSYNCP OR VGA_CLKDIV)"
  have v: "vga_vtimings ?m = (400, 412, 414, 448)"
    by (simp add: vga_vtimings_def mk_mode_def Let_def VGA_VSYNCP_def VGA_CLKDIV_def
        VGA_DBLSCAN_def VGA_INTERLACE_def)
  have b: "vga_vblank (400, 412, 414, 448) = (400, 448)"
    by (simp add: vga_vblank_def Let_def)
  have f: "flags ?m AND VGA_DBLSCAN = 0" "vscan ?m = 2" "vtotal ?m = 224"
    by (simp_all add: mk_mode_def VGA_VSYNCP_def VGA_CLKDIV_def VGA_DBLSCAN_def)
  have c9: "crtc (vga_mode 0 ?m vga_state0) 9 = 0x41"
    by (simp add: vga_mode_def v b f Let_def case_prod_beta)
  have c21: "crtc (vga_mode 0 ?m vga_state0) 21 = 0x8f"
    by (simp add: vga_mode_def v b f Let_def case_prod_beta split del: if_split)
  have c22: "crtc (vga_mode 0 ?m vga_state0) 22 = 0xbf"
    by (simp add: vga_mode_def v b f Let_def case_prod_beta kga_vfix_def split del: if_split)
  from v c9 c21 c22 show ?thesis by simp
qed


section \<open>Mode setting: proofs\<close>

subsection \<open>The lookup loop\<close>

lemma mode_scan_char:
  assumes wf: "\<forall>e\<in>set es. entry_wf e"
  shows "case mode_scan m f es i of
      Inr k \<Rightarrow> i \<le> k \<and> k - i < length es \<and> mode_matches m f (es ! (k - i)) \<and>
               (\<forall>j<k - i. \<not> mode_matches m f (es ! j) \<and> mode (es ! j) \<noteq> GRAPH_DEFMODE)
    | Inl err \<Rightarrow>
        (err = ENOTSUP \<and> (\<exists>p<length es. mode (es ! p) = GRAPH_DEFMODE \<and>
            (\<forall>j\<le>p. \<not> mode_matches m f (es ! j)))) \<or>
        (err = UB \<and> (\<forall>j<length es. \<not> mode_matches m f (es ! j) \<and> mode (es ! j) \<noteq> GRAPH_DEFMODE))"
  using wf
proof (induction es arbitrary: i)
  case Nil
  show ?case by simp
next
  case (Cons e es)
  from Cons.prems have wfe: "entry_wf e" and wfs: "\<forall>e\<in>set es. entry_wf e" by simp_all
  note IH = Cons.IH[OF wfs, of "Suc i"]
  consider (hit) "mode_matches m f e"
    | (stop) "\<not> mode_matches m f e" "mode e = GRAPH_DEFMODE"
    | (skip) "\<not> mode_matches m f e" "mode e \<noteq> GRAPH_DEFMODE" by blast
  then show ?case
  proof cases
    case hit
    with wfe have "mode_scan m f (e # es) i = Inr i"
      by (auto simp: mode_matches_def entry_wf_def entry_freq_def split: mode_payload.splits)
    with hit show ?thesis by (simp del: mode_scan.simps)
  next
    case stop
    with wfe have "mode_scan m f (e # es) i = Inl ENOTSUP"
      by (auto simp: mode_matches_def entry_wf_def entry_freq_def split: mode_payload.splits)
    moreover from stop have "\<exists>p<length (e # es). mode ((e # es) ! p) = GRAPH_DEFMODE \<and>
            (\<forall>j\<le>p. \<not> mode_matches m f ((e # es) ! j))"
      by (intro exI[of _ 0]) simp
    ultimately show ?thesis by (simp del: mode_scan.simps)
  next
    case skip
    with wfe have eq: "mode_scan m f (e # es) i = mode_scan m f es (Suc i)"
      by (auto simp: mode_matches_def entry_wf_def entry_freq_def split: mode_payload.splits)
    show ?thesis
    proof (cases "mode_scan m f es (Suc i)")
      case (Inr k)
      with IH have h: "Suc i \<le> k" "k - Suc i < length es" "mode_matches m f (es ! (k - Suc i))"
        "\<forall>j<k - Suc i. \<not> mode_matches m f (es ! j) \<and> mode (es ! j) \<noteq> GRAPH_DEFMODE" by simp_all
      from h(1) have ki: "k - i = Suc (k - Suc i)" by simp
      have "\<forall>j<k - i. \<not> mode_matches m f ((e # es) ! j) \<and> mode ((e # es) ! j) \<noteq> GRAPH_DEFMODE"
        using h(4) skip by (auto simp: ki nth_Cons split: nat.splits)
      with h show ?thesis by (simp add: eq Inr ki del: mode_scan.simps)
    next
      case (Inl err)
      with IH have "(err = ENOTSUP \<and> (\<exists>p<length es. mode (es ! p) = GRAPH_DEFMODE \<and>
            (\<forall>j\<le>p. \<not> mode_matches m f (es ! j)))) \<or>
        (err = UB \<and> (\<forall>j<length es. \<not> mode_matches m f (es ! j) \<and> mode (es ! j) \<noteq> GRAPH_DEFMODE))"
        by simp
      then show ?thesis
      proof
        assume a: "err = ENOTSUP \<and> (\<exists>p<length es. mode (es ! p) = GRAPH_DEFMODE \<and>
            (\<forall>j\<le>p. \<not> mode_matches m f (es ! j)))"
        then obtain p where p: "p < length es" "mode (es ! p) = GRAPH_DEFMODE"
            "\<forall>j\<le>p. \<not> mode_matches m f (es ! j)" by blast
        have "Suc p < length (e # es) \<and> mode ((e # es) ! Suc p) = GRAPH_DEFMODE \<and>
            (\<forall>j\<le>Suc p. \<not> mode_matches m f ((e # es) ! j))"
          using p skip by (auto simp: nth_Cons split: nat.splits)
        hence "\<exists>p<length (e # es). mode ((e # es) ! p) = GRAPH_DEFMODE \<and>
            (\<forall>j\<le>p. \<not> mode_matches m f ((e # es) ! j))" by blast
        with a show ?thesis by (simp add: eq Inl del: mode_scan.simps)
      next
        assume a: "err = UB \<and> (\<forall>j<length es. \<not> mode_matches m f (es ! j) \<and> mode (es ! j) \<noteq> GRAPH_DEFMODE)"
        hence "\<forall>j<length (e # es). \<not> mode_matches m f ((e # es) ! j) \<and> mode ((e # es) ! j) \<noteq> GRAPH_DEFMODE"
          using skip by (auto simp: nth_Cons split: nat.splits)
        with a show ?thesis by (simp add: eq Inl del: mode_scan.simps)
      qed
    qed
  qed
qed

lemma modes_wf: "\<forall>e\<in>set modes. entry_wf e"
  by (simp add: modes_def mk_entry_def entry_wf_def entry_freq_def)

lemma modes_length: "length modes = 65"
  by (simp add: modes_def)

lemma modes_tags: "\<forall>e\<in>set (butlast modes). mode e \<noteq> GRAPH_DEFMODE"
  by (simp add: modes_def mk_entry_def)

lemma modes_last: "mode (modes ! 64) = GRAPH_DEFMODE"
  by (simp add: modes_def mk_entry_def)

lemma modes_nth_tag: "j < 64 \<Longrightarrow> mode (modes ! j) \<noteq> GRAPH_DEFMODE"
proof -
  assume j: "j < 64"
  hence "j < length (butlast modes)" by (simp add: modes_length)
  hence "butlast modes ! j \<in> set (butlast modes)" by (rule nth_mem)
  moreover have "butlast modes ! j = modes ! j" using j by (simp add: nth_butlast modes_length)
  ultimately show ?thesis using modes_tags by auto
qed

lemma lookup_800x600x16_75: "cirrus_lookup GRAPH_800x600x16 GRAPH_75Hz = Inr 29"
  by (simp add: cirrus_lookup_def modes_def mk_entry_def)

lemma lookup_320x200x8: "cirrus_lookup GRAPH_320x200x8 GRAPH_DEFFREQ = Inl ENOTSUP"
  by (simp add: cirrus_lookup_def modes_def mk_entry_def)

subsection \<open>C6: mode lookup\<close>

text \<open>
  Claim C6. For every request other than the default-mode tag, the lookup scans the
  catalog in order. It selects the first entry whose mode tag equals the request and
  whose refresh tag equals the requested one when the entry's depth is nonzero and a
  refresh other than the default was requested; that entry lies before the sentinel and
  is the one \<open>cirrus_mode\<close> configures. If no entry matches, the scan reaches the sentinel
  and \<open>cirrus_mode\<close> returns \<open>ENOTSUP\<close> (UnsupportedMode) with the adapter, and so the
  reported width, height and depth, unchanged.
\<close>

theorem cirrus_mode_lookup:
  assumes req: "m \<noteq> GRAPH_DEFMODE"
  shows "case cirrus_lookup m f of
      Inr i \<Rightarrow> Suc i < length modes \<and> mode_matches m f (modes ! i) \<and>
               (\<forall>j<i. \<not> mode_matches m f (modes ! j)) \<and>
               cirrus_mode g m f = cirrus_setmode g (modes ! i)
    | Inl err \<Rightarrow> err = ENOTSUP \<and> (\<forall>j<length modes. \<not> mode_matches m f (modes ! j)) \<and>
               cirrus_mode g m f = (Inl ENOTSUP, g) \<and>
               width (snd (cirrus_mode g m f)) = width g \<and>
               height (snd (cirrus_mode g m f)) = height g \<and>
               depth (snd (cirrus_mode g m f)) = depth g"
proof -
  have lk: "cirrus_lookup m f = mode_scan m f modes 0" using req by (simp add: cirrus_lookup_def)
  note ch = mode_scan_char[OF modes_wf, of m f 0]
  show ?thesis
  proof (cases "mode_scan m f modes 0")
    case (Inr i)
    with ch have h: "i < length modes" "mode_matches m f (modes ! i)"
      "\<forall>j<i. \<not> mode_matches m f (modes ! j)" by simp_all
    have "i \<noteq> 64" using h(2) modes_last req by (auto simp: mode_matches_def)
    with h(1) have "Suc i < length modes" by (simp add: modes_length)
    moreover have "cirrus_mode g m f = cirrus_setmode g (modes ! i)"
      using h(1) by (simp add: cirrus_mode_def lk Inr)
    ultimately show ?thesis using h by (simp add: lk Inr)
  next
    case (Inl err)
    with ch have "(err = ENOTSUP \<and> (\<exists>p<length modes. mode (modes ! p) = GRAPH_DEFMODE \<and>
            (\<forall>j\<le>p. \<not> mode_matches m f (modes ! j)))) \<or>
        (err = UB \<and> (\<forall>j<length modes. \<not> mode_matches m f (modes ! j) \<and> mode (modes ! j) \<noteq> GRAPH_DEFMODE))"
      by simp
    hence "err = ENOTSUP \<and> (\<forall>j<length modes. \<not> mode_matches m f (modes ! j))"
    proof
      assume "err = ENOTSUP \<and> (\<exists>p<length modes. mode (modes ! p) = GRAPH_DEFMODE \<and>
            (\<forall>j\<le>p. \<not> mode_matches m f (modes ! j)))"
      then obtain p where p: "err = ENOTSUP" "p < length modes" "mode (modes ! p) = GRAPH_DEFMODE"
        "\<forall>j\<le>p. \<not> mode_matches m f (modes ! j)" by blast
      have "\<not> p < 64" using p(3) modes_nth_tag[of p] by blast
      with p(2) have "p = 64" by (simp add: modes_length)
      with p show ?thesis by (auto simp: modes_length)
    next
      assume "err = UB \<and> (\<forall>j<length modes. \<not> mode_matches m f (modes ! j) \<and> mode (modes ! j) \<noteq> GRAPH_DEFMODE)"
      hence "mode (modes ! 64) \<noteq> GRAPH_DEFMODE" by (simp add: modes_length)
      with modes_last show ?thesis by simp
    qed
    thus ?thesis by (simp add: lk Inl cirrus_mode_def)
  qed
qed

theorem cirrus_mode_lookup_witness:
  "GRAPH_800x600x16 \<noteq> GRAPH_DEFMODE \<and> cirrus_lookup GRAPH_800x600x16 GRAPH_75Hz = Inr 29 \<and>
   mode_matches GRAPH_800x600x16 GRAPH_75Hz (modes ! 29) \<and>
   list_all (\<lambda>e. \<not> mode_matches GRAPH_800x600x16 GRAPH_75Hz e) (take 29 modes) \<and>
   cirrus_mode cirrus_graph0 GRAPH_800x600x16 GRAPH_75Hz = cirrus_setmode cirrus_graph0 (modes ! 29) \<and>
   GRAPH_320x200x8 \<noteq> GRAPH_DEFMODE \<and> cirrus_lookup GRAPH_320x200x8 GRAPH_DEFFREQ = Inl ENOTSUP \<and>
   cirrus_mode cirrus_graph0 GRAPH_320x200x8 GRAPH_DEFFREQ = (Inl ENOTSUP, cirrus_graph0)"
proof -
  have a: "GRAPH_800x600x16 \<noteq> GRAPH_DEFMODE" and b: "GRAPH_320x200x8 \<noteq> GRAPH_DEFMODE" by simp_all
  from cirrus_mode_lookup[OF a, of GRAPH_75Hz cirrus_graph0]
       cirrus_mode_lookup[OF b, of GRAPH_DEFFREQ cirrus_graph0]
  show ?thesis by (simp add: lookup_800x600x16_75 lookup_320x200x8 list_all_length modes_length)
qed

subsection \<open>The register banks after the programming phase\<close>

lemmas facade_defs = logged_def vga_status_def vga_readmisc_def vga_writemisc_def vga_readcrtc_def
  vga_writecrtc_def vga_readseq_def vga_writeseq_def vga_readgfx_def vga_writegfx_def
  vga_readattr_def vga_writeattr_def vga_readdac_def vga_writedac_def vga_enablecmap_def
  vga_disablecmap_def

lemma fold_frame:
  assumes "\<And>i v. P (w i v) = P v"
  shows "P (fold w xs v) = P v"
  by (induction xs arbitrary: v) (simp_all add: assms)

lemma seq_ops:
  "r_seq (snd (vga_status v)) = r_seq v"
  "r_seq (snd (vga_readmisc v)) = r_seq v"
  "r_seq (vga_writemisc v x) = r_seq v"
  "r_seq (snd (vga_readcrtc v r)) = r_seq v"
  "r_seq (vga_writecrtc v r x) = r_seq v"
  "r_seq (snd (vga_readseq v r)) = r_seq v"
  "r_seq (vga_writeseq v r x) = (r_seq v)(r := x)"
  "r_seq (snd (vga_readgfx v r)) = r_seq v"
  "r_seq (vga_writegfx v r x) = r_seq v"
  "r_seq (snd (vga_readattr v r)) = r_seq v"
  "r_seq (vga_writeattr v r x) = r_seq v"
  "r_seq (snd (vga_readdac v r)) = r_seq v"
  "r_seq (vga_writedac v r x) = r_seq v"
  "r_seq (vga_enablecmap v) = r_seq v"
  "r_seq (vga_disablecmap v) = r_seq v"
  "r_seq (buf_to_mem v buf off n) = r_seq v"
  "r_seq (snd (mem_to_buf v buf off n)) = r_seq v"
  "fst (vga_readseq v r) = r_seq v r"
  by (simp_all add: facade_defs buf_to_mem_def mem_to_buf_def)

lemma crtc_ops:
  "r_crtc (snd (vga_status v)) = r_crtc v"
  "r_crtc (snd (vga_readmisc v)) = r_crtc v"
  "r_crtc (vga_writemisc v x) = r_crtc v"
  "r_crtc (snd (vga_readcrtc v r)) = r_crtc v"
  "r_crtc (vga_writecrtc v r x) = (r_crtc v)(r := x)"
  "r_crtc (snd (vga_readseq v r)) = r_crtc v"
  "r_crtc (vga_writeseq v r x) = r_crtc v"
  "r_crtc (snd (vga_readgfx v r)) = r_crtc v"
  "r_crtc (vga_writegfx v r x) = r_crtc v"
  "r_crtc (snd (vga_readattr v r)) = r_crtc v"
  "r_crtc (vga_writeattr v r x) = r_crtc v"
  "r_crtc (snd (vga_readdac v r)) = r_crtc v"
  "r_crtc (vga_writedac v r x) = r_crtc v"
  "r_crtc (vga_enablecmap v) = r_crtc v"
  "r_crtc (vga_disablecmap v) = r_crtc v"
  "r_crtc (buf_to_mem v buf off n) = r_crtc v"
  "r_crtc (snd (mem_to_buf v buf off n)) = r_crtc v"
  by (simp_all add: facade_defs buf_to_mem_def mem_to_buf_def)

lemma dac_ops:
  "r_dac (snd (vga_status v)) = r_dac v"
  "r_dac (snd (vga_readmisc v)) = r_dac v"
  "r_dac (vga_writemisc v x) = r_dac v"
  "r_dac (snd (vga_readcrtc v r)) = r_dac v"
  "r_dac (vga_writecrtc v r x) = r_dac v"
  "r_dac (snd (vga_readseq v r)) = r_dac v"
  "r_dac (vga_writeseq v r x) = r_dac v"
  "r_dac (snd (vga_readgfx v r)) = r_dac v"
  "r_dac (vga_writegfx v r x) = r_dac v"
  "r_dac (snd (vga_readattr v r)) = r_dac v"
  "r_dac (vga_writeattr v r x) = r_dac v"
  "r_dac (snd (vga_readdac v r)) = r_dac v"
  "r_dac (vga_writedac v r x) = (r_dac v)(r := x)"
  "r_dac (vga_enablecmap v) = r_dac v"
  "r_dac (vga_disablecmap v) = r_dac v"
  "r_dac (buf_to_mem v buf off n) = r_dac v"
  "r_dac (snd (mem_to_buf v buf off n)) = r_dac v"
  by (simp_all add: facade_defs buf_to_mem_def mem_to_buf_def)

text \<open>What \<open>vga_copytext\<close> leaves in the sequencer, CRTC and DAC banks.\<close>

lemma blank_banks:
  "r_seq (vga_blank v) = (r_seq v)(0 := 0x03, 1 := r_seq v 1 OR 0x20)"
  "r_seq (vga_unblank v) = (r_seq v)(0 := 0x03, 1 := r_seq v 1 AND NOT 0x20)"
  "r_crtc (vga_blank v) = r_crtc v" "r_crtc (vga_unblank v) = r_crtc v"
  "r_dac (vga_blank v) = r_dac v" "r_dac (vga_unblank v) = r_dac v"
  by (simp_all add: vga_blank_def vga_unblank_def Let_def case_prod_beta seq_ops crtc_ops dac_ops
      fun_upd_twist)

lemma plane_banks:
  "r_seq (fst (copy_plane dir v buf off n)) = r_seq v"
  "r_crtc (fst (copy_plane dir v buf off n)) = r_crtc v"
  "r_dac (fst (copy_plane dir v buf off n)) = r_dac v"
  by (simp_all add: copy_plane_def case_prod_beta seq_ops crtc_ops dac_ops)

lemma fonts_banks:
  "4 < r \<Longrightarrow> r_seq (fst (copy_font1 dir p)) r = r_seq (fst p) r"
  "4 < r \<Longrightarrow> r_seq (fst (copy_font2 dir p)) r = r_seq (fst p) r"
  "4 < r \<Longrightarrow> r_seq (fst (copy_text dir p)) r = r_seq (fst p) r"
  "r_crtc (fst (copy_font1 dir p)) = r_crtc (fst p)"
  "r_crtc (fst (copy_font2 dir p)) = r_crtc (fst p)"
  "r_crtc (fst (copy_text dir p)) = r_crtc (fst p)"
  "r_dac (fst (copy_font1 dir p)) = r_dac (fst p)"
  "r_dac (fst (copy_font2 dir p)) = r_dac (fst p)"
  "r_dac (fst (copy_text dir p)) = r_dac (fst p)"
  by (auto simp: copy_font1_def copy_font2_def copy_text_def Let_def case_prod_beta
      seq_ops crtc_ops dac_ops plane_banks split: option.splits)

lemma copytext_banks:
  "4 < r \<Longrightarrow> r_seq (fst (vga_copytext v st dir)) r = r_seq v r"
  "r_crtc (fst (vga_copytext v st dir)) = r_crtc v"
  "r_dac (fst (vga_copytext v st dir)) = r_dac v"
  by (auto simp: vga_copytext_def Let_def case_prod_beta seq_ops crtc_ops dac_ops blank_banks
      fonts_banks)

lemma restoremode_banks:
  "4 < r \<Longrightarrow> r_seq (vga_restoremode v st) r = r_seq v r"
  "r_dac (vga_restoremode v st) = r_dac v"
proof -
  have c: "r_seq (fold (\<lambda>i v. vga_writecrtc v (of_nat i) (crtc st i)) xs v) = r_seq v"
      "r_dac (fold (\<lambda>i v. vga_writecrtc v (of_nat i) (crtc st i)) xs v) = r_dac v" for xs v
    by (rule fold_frame, simp add: seq_ops dac_ops)+
  have g: "r_seq (fold (\<lambda>i v. vga_writegfx v (of_nat i) (gfx st i)) xs v) = r_seq v"
      "r_dac (fold (\<lambda>i v. vga_writegfx v (of_nat i) (gfx st i)) xs v) = r_dac v" for xs v
    by (rule fold_frame, simp add: seq_ops dac_ops)+
  have a: "r_seq (fold (\<lambda>i v. vga_writeattr v (of_nat i) (attr st i)) xs v) = r_seq v"
      "r_dac (fold (\<lambda>i v. vga_writeattr v (of_nat i) (attr st i)) xs v) = r_dac v" for xs v
    by (rule fold_frame, simp add: seq_ops dac_ops)+
  have s: "r_dac (fold (\<lambda>i v. vga_writeseq v (of_nat i) (seq st i)) xs v) = r_dac v" for xs v
    by (rule fold_frame) (simp add: dac_ops)
  have s4: "r_seq (fold (\<lambda>i v. vga_writeseq v (of_nat i) (seq st i)) [Suc 0 ..< 5] v) r = r_seq v r"
    if "4 < r" for v
    using that by (auto simp: upt_conv_Cons seq_ops)
  show "4 < r \<Longrightarrow> r_seq (vga_restoremode v st) r = r_seq v r"
    by (simp add: vga_restoremode_def Let_def seq_ops c g a s4)
  show "r_dac (vga_restoremode v st) = r_dac v"
    by (simp add: vga_restoremode_def Let_def dac_ops c g a s)
qed

lemma restoremode_crtc:
  "r_crtc (vga_restoremode v st) 0x01 = crtc st 1"
  "r_crtc (vga_restoremode v st) 0x12 = crtc st 18"
  "r_crtc (vga_restoremode v st) 0x13 = crtc st 19"
  "r_crtc (vga_restoremode v st) 0x1b = r_crtc v 0x1b"
proof -
  have q: "r_crtc (fold (\<lambda>i v. vga_writeseq v (of_nat i) (seq st i)) xs v) = r_crtc v" for xs v
    by (rule fold_frame) (simp add: crtc_ops)
  have g: "r_crtc (fold (\<lambda>i v. vga_writegfx v (of_nat i) (gfx st i)) xs v) = r_crtc v" for xs v
    by (rule fold_frame) (simp add: crtc_ops)
  have a: "r_crtc (fold (\<lambda>i v. vga_writeattr v (of_nat i) (attr st i)) xs v) = r_crtc v" for xs v
    by (rule fold_frame) (simp add: crtc_ops)
  have c: "r_crtc (fold (\<lambda>i v. vga_writecrtc v (of_nat i) (crtc st i)) [0 ..< 25] v) 0x01 = crtc st 1"
      "r_crtc (fold (\<lambda>i v. vga_writecrtc v (of_nat i) (crtc st i)) [0 ..< 25] v) 0x12 = crtc st 18"
      "r_crtc (fold (\<lambda>i v. vga_writecrtc v (of_nat i) (crtc st i)) [0 ..< 25] v) 0x13 = crtc st 19"
      "r_crtc (fold (\<lambda>i v. vga_writecrtc v (of_nat i) (crtc st i)) [0 ..< 25] v) 0x1b = r_crtc v 0x1b" for v
    by (simp_all add: upt_conv_Cons crtc_ops) (simp_all add: eval_nat_numeral)
  show "r_crtc (vga_restoremode v st) 0x01 = crtc st 1"
    "r_crtc (vga_restoremode v st) 0x12 = crtc st 18"
    "r_crtc (vga_restoremode v st) 0x13 = crtc st 19"
    "r_crtc (vga_restoremode v st) 0x1b = r_crtc v 0x1b"
    by (simp_all add: vga_restoremode_def Let_def crtc_ops q g a c)
qed

lemma restorecmap_none: "cmap st = None \<Longrightarrow> vga_restorecmap v st = v"
  by (simp add: vga_restorecmap_def)

lemma restore_banks:
  assumes "cmap st = None"
  shows "4 < r \<Longrightarrow> r_seq (vga_restore v st) r = r_seq v r"
    "r_dac (vga_restore v st) = r_dac v"
    "r_crtc (vga_restore v st) 0x01 = crtc st 1"
    "r_crtc (vga_restore v st) 0x12 = crtc st 18"
    "r_crtc (vga_restore v st) 0x13 = crtc st 19"
    "r_crtc (vga_restore v st) 0x1b = r_crtc v 0x1b"
  by (simp_all add: vga_restore_def Let_def vga_restoretext_def restorecmap_none[OF assms]
      copytext_banks restoremode_banks restoremode_crtc)

lemma cirrus_restore_banks:
  assumes "cmap (state cst) = None"
  shows "r_seq (cirrus_restore v cst) 0x07 = sr07 cst"
    "r_seq (cirrus_restore v cst) 0x0e = sr0e cst"
    "r_dac (cirrus_restore v cst) 0x00 = hdr cst"
    "r_crtc (cirrus_restore v cst) 0x01 = crtc (state cst) 1"
    "r_crtc (cirrus_restore v cst) 0x12 = crtc (state cst) 18"
    "r_crtc (cirrus_restore v cst) 0x13 = crtc (state cst) 19"
    "r_crtc (cirrus_restore v cst) 0x1b = cr1b cst"
  by (simp_all add: cirrus_restore_def Let_def case_prod_beta restore_banks[OF assms]
      seq_ops crtc_ops dac_ops)

lemma mlock_banks:
  "r_crtc (vga_mlock v) = r_crtc v" "r_crtc (vga_munlock v) = r_crtc v"
  "r_dac (vga_mlock v) = r_dac v" "r_dac (vga_munlock v) = r_dac v"
  "4 < r \<Longrightarrow> r_seq (vga_munlock v) r = r_seq v r"
  by (auto simp: vga_mlock_def vga_munlock_def Let_def case_prod_beta seq_ops crtc_ops dac_ops)

lemma cirrus_program_banks:
  assumes "cmap (state cst) = None"
  shows "r_seq (cirrus_program v cst vclk) 0x07 = sr07 cst"
    "r_seq (cirrus_program v cst vclk) 0x0e = (sr0e cst AND 0x80) OR num vclk"
    "r_seq (cirrus_program v cst vclk) 0x1e = den vclk"
    "r_dac (cirrus_program v cst vclk) 0x00 = hdr cst"
    "r_crtc (cirrus_program v cst vclk) 0x01 = crtc (state cst) 1"
    "r_crtc (cirrus_program v cst vclk) 0x12 = crtc (state cst) 18"
    "r_crtc (cirrus_program v cst vclk) 0x13 = crtc (state cst) 19"
    "r_crtc (cirrus_program v cst vclk) 0x1b = cr1b cst"
  by (simp_all add: cirrus_program_def Let_def case_prod_beta mlock_banks seq_ops crtc_ops dac_ops
      cirrus_restore_banks[OF assms])

subsection \<open>C10: the default mode\<close>

lemma modes_31: "modes ! 31 = mk_entry GRAPH_1024x768x16 2 (Gfx GRAPH_60Hz (cfgs ! 10))"
  by (simp add: modes_def)

lemma cfgs_10: "cfgs ! 10 = mk_mode 65000 1024 1048 1184 1344 0 768 771 777 806 0 0"
  by (simp add: cfgs_def)

lemma vclk_65000:
  "cirrus_vclk 85500 \<lparr>freq = 65000, num = 0, den = 0\<rparr> = Inr (mk_vclk 64981 0x76 0x34)"
  by (simp add: cirrus_vclk_def vclks_def mk_vclk_def c_abs_def word_sless_alt)

text \<open>The register image of the default mode, where the theorem reads it.\<close>

lemma image_fields:
  "cmap (state (cirrus_image p c d)) = None"
  "sr07 (cirrus_image p c d) = 0xe0"
  "sr0e (cirrus_image p c d) = 0x00"
  "cr1b (cirrus_image p c d) = ucast ((drop_bit 7 p AND 0x10) OR (drop_bit 6 p AND 0x40) OR 0x22)"
  "crtc (state (cirrus_image p c d)) 1 = crtc (vga_mode 3 c vga_state0) 1"
  "crtc (state (cirrus_image p c d)) 18 = crtc (vga_mode 3 c vga_state0) 18"
  "crtc (state (cirrus_image p c d)) 19 = ucast (drop_bit 3 p)"
  by (simp_all add: cirrus_image_def Let_def cirrus_state0_def)

lemma image_default:
  "crtc (vga_mode 3 (cfgs ! 10) vga_state0) 1 = 0x7f"
  "crtc (vga_mode 3 (cfgs ! 10) vga_state0) 18 = 0xff"
proof -
  have v: "vga_vtimings (cfgs ! 10) = (768, 771, 777, 806)"
    by (simp add: vga_vtimings_def cfgs_10 mk_mode_def Let_def)
  have h: "hres (cfgs ! 10) = 1024" by (simp add: cfgs_10 mk_mode_def)
  show "crtc (vga_mode 3 (cfgs ! 10) vga_state0) 1 = 0x7f"
    "crtc (vga_mode 3 (cfgs ! 10) vga_state0) 18 = 0xff"
    by (simp_all add: vga_mode_def v h Let_def case_prod_beta split del: if_split)
qed

lemma setmode_default:
  "cirrus_setmode g (modes ! 31) =
     (let cst = (cirrus_image 2048 (cfgs ! 10) False)\<lparr>sr07 := 0xf7, hdr := 0xc1, gr17 := 0x08, gr18 := 0x00\<rparr>;
          v = cirrus_program (vga (adapter g)) cst (mk_vclk 64981 0x76 0x34);
          g' = g\<lparr>depth := 2, width := 1024, height := 768\<rparr>
      in if vmemsz (adapter g) < 0x180000
         then (Inl OVERRUN, g'\<lparr>adapter := (adapter g)\<lparr>vga := v\<rparr>\<rparr>)
         else (Inr (), g'\<lparr>adapter := (adapter g)\<lparr>vga := v,
                  vmem := (\<lambda>a. if 0 \<le> a \<and> a < 0x180000 then 0 else vmem (adapter g) a)\<rparr>\<rparr>))"
proof -
  have ah: "adjust_h (cfgs ! 10) = (cfgs ! 10, False)"
    by (simp add: adjust_h_def cfgs_10 mk_mode_def)
  have av: "adjust_v (cfgs ! 10) = (cfgs ! 10, False)"
    by (simp add: adjust_v_def cfgs_10 mk_mode_def)
  have mv: "maxvclks ! 2 = 85500" "2 < length maxvclks"
    by (simp_all add: maxvclks_def)
  have ck: "clk (cfgs ! 10) = 65000" "hres (cfgs ! 10) = 1024" "vres (cfgs ! 10) = 768"
    by (simp_all add: cfgs_10 mk_mode_def)
  have dr: "depth_regs 2 False = Some (0x17, 0xc1)" by (simp add: depth_regs_def)
  show ?thesis
    by (simp add: cirrus_setmode_def modes_31 mk_entry_def ah av mv ck vclk_65000 dr Let_def
        image_fields)
qed

text \<open>
  Claim C10. For every adapter state and every refresh tag, a request with the
  default-mode tag skips the lookup and configures catalog index 31, the 1024x768 entry
  of byte depth 2 at the 60 Hz tag: 65000 kHz matches the table clock 64981 kHz, the
  registers are programmed (among them the horizontal display end 0x7f, the vertical
  display end 0xff, the pitch 2048 in CRTC 0x13 and 0x1b, the 16-bit pixel format 0xf7 in
  sequencer register 7, the clock 0x76 / 0x34 in sequencer registers 0x0e and 0x1e, and
  the hidden DAC register 0xc1), and the reported width is 1024, the height 768 and the
  depth 2. The call then clears the frame of 0x180000 bytes and succeeds, provided the
  mapped video memory holds that many bytes; on an adapter with less the clearing runs
  past the mapping. \<open>cirrus_vmemsz\<close> reports 1, 2, 3 or 4 MiB, so among the opened adapters
  those of 1 MiB are the ones too small.
\<close>

theorem cirrus_mode_default:
  "cirrus_lookup GRAPH_DEFMODE f = Inr 31 \<and>
   modes ! 31 = mk_entry GRAPH_1024x768x16 2 (Gfx GRAPH_60Hz (cfgs ! 10)) \<and>
   hres (cfgs ! 10) = 1024 \<and> vres (cfgs ! 10) = 768 \<and>
   cirrus_mode g GRAPH_DEFMODE f = cirrus_setmode g (modes ! 31) \<and>
   fst (cirrus_mode g GRAPH_DEFMODE f) =
     (if vmemsz (adapter g) < 0x180000 then Inl OVERRUN else Inr ()) \<and>
   width (snd (cirrus_mode g GRAPH_DEFMODE f)) = 1024 \<and>
   height (snd (cirrus_mode g GRAPH_DEFMODE f)) = 768 \<and>
   depth (snd (cirrus_mode g GRAPH_DEFMODE f)) = 2 \<and>
   (let v' = vga (adapter (snd (cirrus_mode g GRAPH_DEFMODE f)))
    in r_crtc v' 0x01 = 0x7f \<and> r_crtc v' 0x12 = 0xff \<and> r_crtc v' 0x13 = 0x00 \<and>
       r_crtc v' 0x1b = 0x32 \<and> r_seq v' 0x07 = 0xf7 \<and> r_seq v' 0x0e = 0x76 \<and>
       r_seq v' 0x1e = 0x34 \<and> r_dac v' 0x00 = 0xc1) \<and>
   vmem (adapter (snd (cirrus_mode g GRAPH_DEFMODE f))) =
     (if vmemsz (adapter g) < 0x180000 then vmem (adapter g)
      else (\<lambda>a. if 0 \<le> a \<and> a < 0x180000 then 0 else vmem (adapter g) a)) \<and>
   (fst (cirrus_vmemsz v) = 0x100000 \<or> fst (cirrus_vmemsz v) = 0x200000 \<or>
    fst (cirrus_vmemsz v) = 0x300000 \<or> fst (cirrus_vmemsz v) = 0x400000) \<and>
   (fst (cirrus_vmemsz v) < 0x180000 \<longleftrightarrow> fst (cirrus_vmemsz v) = 0x100000)"
proof -
  have lk: "cirrus_lookup GRAPH_DEFMODE f = Inr 31" by (simp add: cirrus_lookup_def DEFMODE_def)
  have cm: "cirrus_mode g GRAPH_DEFMODE f = cirrus_setmode g (modes ! 31)"
    by (simp add: cirrus_mode_def lk modes_length)
  have ck: "hres (cfgs ! 10) = 1024" "vres (cfgs ! 10) = 768"
    by (simp_all add: cfgs_10 mk_mode_def)
  let ?cst = "(cirrus_image 2048 (cfgs ! 10) False)\<lparr>sr07 := 0xf7, hdr := 0xc1, gr17 := 0x08, gr18 := 0x00\<rparr>"
  have n: "cmap (state ?cst) = None" by (simp add: image_fields)
  note regs = cirrus_program_banks[OF n]
  have r: "r_crtc (cirrus_program (vga (adapter g)) ?cst (mk_vclk 64981 0x76 0x34)) 0x01 = 0x7f"
    "r_crtc (cirrus_program (vga (adapter g)) ?cst (mk_vclk 64981 0x76 0x34)) 0x12 = 0xff"
    "r_crtc (cirrus_program (vga (adapter g)) ?cst (mk_vclk 64981 0x76 0x34)) 0x13 = 0x00"
    "r_crtc (cirrus_program (vga (adapter g)) ?cst (mk_vclk 64981 0x76 0x34)) 0x1b = 0x32"
    "r_seq (cirrus_program (vga (adapter g)) ?cst (mk_vclk 64981 0x76 0x34)) 0x07 = 0xf7"
    "r_seq (cirrus_program (vga (adapter g)) ?cst (mk_vclk 64981 0x76 0x34)) 0x0e = 0x76"
    "r_seq (cirrus_program (vga (adapter g)) ?cst (mk_vclk 64981 0x76 0x34)) 0x1e = 0x34"
    "r_dac (cirrus_program (vga (adapter g)) ?cst (mk_vclk 64981 0x76 0x34)) 0x00 = 0xc1"
    unfolding regs
    by (simp_all add: image_fields image_default mk_vclk_def del: One_nat_def) simp_all
  have sz: "(fst (cirrus_vmemsz v) = 0x100000 \<or> fst (cirrus_vmemsz v) = 0x200000 \<or>
      fst (cirrus_vmemsz v) = 0x300000 \<or> fst (cirrus_vmemsz v) = 0x400000) \<and>
     (fst (cirrus_vmemsz v) < 0x180000 \<longleftrightarrow> fst (cirrus_vmemsz v) = 0x100000)"
    by (simp add: cirrus_vmemsz_def Let_def case_prod_beta)
  have "fst (cirrus_setmode g (modes ! 31)) =
     (if vmemsz (adapter g) < 0x180000 then Inl OVERRUN else Inr ()) \<and>
   width (snd (cirrus_setmode g (modes ! 31))) = 1024 \<and>
   height (snd (cirrus_setmode g (modes ! 31))) = 768 \<and>
   depth (snd (cirrus_setmode g (modes ! 31))) = 2 \<and>
   vga (adapter (snd (cirrus_setmode g (modes ! 31)))) =
     cirrus_program (vga (adapter g)) ?cst (mk_vclk 64981 0x76 0x34) \<and>
   vmem (adapter (snd (cirrus_setmode g (modes ! 31)))) =
     (if vmemsz (adapter g) < 0x180000 then vmem (adapter g)
      else (\<lambda>a. if 0 \<le> a \<and> a < 0x180000 then 0 else vmem (adapter g) a))"
    by (simp add: setmode_default Let_def)
  with lk cm ck modes_31 r sz show ?thesis by (simp add: Let_def)
qed

subsection \<open>C3: a failing mode request writes nothing\<close>

text \<open>
  Claim C3. Every failing return of \<open>cirrus_mode\<close>, for every request and adapter state,
  and of its body on any catalog entry whatever (any depth, any timing), leaves the whole
  adapter as it was: the registers, the access log, the video memory and the reported
  width, height and depth. The failures are \<open>ENOTSUP\<close> (no table match) and \<open>EFAULT\<close> (clock
  synthesis failed, or the depth is not 1 to 4); all are decided before the locked
  register-write phase. The result \<open>OVERRUN\<close> is not a return of the function: it arises
  only past the last failing return, when the registers of a graphics entry have been
  programmed, the reported mode has been updated and the frame to clear is larger than
  the mapped video memory.
\<close>

theorem cirrus_mode_failure_atomic:
  "(\<forall>err. fst (cirrus_setmode g e) = Inl err \<longrightarrow> err \<noteq> OVERRUN \<longrightarrow>
      snd (cirrus_setmode g e) = g \<and> (err = EFAULT \<or> err = UB)) \<and>
   (\<forall>err. fst (cirrus_mode g m f) = Inl err \<longrightarrow> err \<noteq> OVERRUN \<longrightarrow>
      snd (cirrus_mode g m f) = g \<and> (err = ENOTSUP \<or> err = EFAULT \<or> err = UB)) \<and>
   (fst (cirrus_setmode g e) = Inl OVERRUN \<longrightarrow>
      (\<exists>fe c. payload e = Gfx fe c \<and> vmemsz (adapter g) < hres c * vres c * ucast (mdepth e) \<and>
         width (snd (cirrus_setmode g e)) = hres c \<and> height (snd (cirrus_setmode g e)) = vres c \<and>
         depth (snd (cirrus_setmode g e)) = mdepth e))"
proof -
  have a: "snd (cirrus_setmode g e) = g \<and> (err = EFAULT \<or> err = UB)"
    if "fst (cirrus_setmode g e) = Inl err" "err \<noteq> OVERRUN" for err g e
    using that
    by (auto simp: cirrus_setmode_def Let_def case_prod_beta
        split: if_splits mode_payload.splits sum.splits option.splits)
  have s: "mode_scan m f es i = Inl err \<Longrightarrow> err = ENOTSUP \<or> err = UB" for err es i
    by (induction es arbitrary: i) (auto split: if_splits mode_payload.splits option.splits bool.splits)
  have b: "snd (cirrus_mode g m f) = g \<and> (err = ENOTSUP \<or> err = EFAULT \<or> err = UB)"
    if "fst (cirrus_mode g m f) = Inl err" "err \<noteq> OVERRUN" for err
  proof (cases "cirrus_lookup m f")
    case (Inl e')
    hence "e' = ENOTSUP \<or> e' = UB" using s[of modes 0 e'] by (auto simp: cirrus_lookup_def split: if_splits)
    with that Inl show ?thesis by (auto simp: cirrus_mode_def)
  next
    case (Inr i)
    with that a[of g "modes ! i" err] show ?thesis
      by (auto simp: cirrus_mode_def split: if_splits)
  qed
  have c: "\<exists>fe c. payload e = Gfx fe c \<and> vmemsz (adapter g) < hres c * vres c * ucast (mdepth e) \<and>
         width (snd (cirrus_setmode g e)) = hres c \<and> height (snd (cirrus_setmode g e)) = vres c \<and>
         depth (snd (cirrus_setmode g e)) = mdepth e"
    if "fst (cirrus_setmode g e) = Inl OVERRUN"
    using that
    by (auto simp: cirrus_setmode_def Let_def case_prod_beta
        split: if_splits mode_payload.splits sum.splits option.splits)
  from a b c show ?thesis by blast
qed

lemma vclk_zero: "cirrus_vclk mx \<lparr>freq = 0, num = 0, den = 0\<rparr> = Inl EINVAL"
proof -
  let ?v = "\<lparr>freq = 0, num = 0, den = 0\<rparr> :: cirrus_vclk_t"
  have t: "vclk_table (freq ?v) vclks = None"
    by (simp add: vclks_def mk_vclk_def c_abs_def word_sless_alt)
  obtain b k where bk: "vclk_search (max mx MAX_VCLK) 0 (?v, 0) = (b, k)"
    by (cases "vclk_search (max mx MAX_VCLK) 0 (?v, 0)")
  from vclk_search_char[OF bk] have "freq b = 0" by auto
  thus ?thesis using cirrus_vclk_search[OF t, of mx] by (simp add: bk Let_def)
qed

theorem cirrus_mode_failure_atomic_witness:
  "fst (cirrus_mode cirrus_graph0 GRAPH_320x200x8 GRAPH_DEFFREQ) = Inl ENOTSUP \<and>
   ENOTSUP \<noteq> OVERRUN \<and>
   snd (cirrus_mode cirrus_graph0 GRAPH_320x200x8 GRAPH_DEFFREQ) = cirrus_graph0 \<and>
   fst (cirrus_setmode cirrus_graph0
         (mk_entry GRAPH_640x480x8 1 (Gfx GRAPH_60Hz (mk_mode 0 640 656 752 800 0 480 490 492 525 0 0)))) = Inl EFAULT \<and>
   EFAULT \<noteq> OVERRUN \<and>
   snd (cirrus_setmode cirrus_graph0
         (mk_entry GRAPH_640x480x8 1 (Gfx GRAPH_60Hz (mk_mode 0 640 656 752 800 0 480 490 492 525 0 0)))) = cirrus_graph0 \<and>
   fst (cirrus_setmode cirrus_graph0 (modes ! 31)) = Inl OVERRUN \<and>
   (\<exists>fe c. payload (modes ! 31) = Gfx fe c \<and>
      vmemsz (adapter cirrus_graph0) < hres c * vres c * ucast (mdepth (modes ! 31)) \<and>
      width (snd (cirrus_setmode cirrus_graph0 (modes ! 31))) = hres c \<and>
      height (snd (cirrus_setmode cirrus_graph0 (modes ! 31))) = vres c \<and>
      depth (snd (cirrus_setmode cirrus_graph0 (modes ! 31))) = mdepth (modes ! 31))"
proof -
  let ?e = "mk_entry GRAPH_640x480x8 1 (Gfx GRAPH_60Hz (mk_mode 0 640 656 752 800 0 480 490 492 525 0 0))"
  have a: "fst (cirrus_mode cirrus_graph0 GRAPH_320x200x8 GRAPH_DEFFREQ) = Inl ENOTSUP"
    by (simp add: cirrus_mode_def lookup_320x200x8)
  have b: "fst (cirrus_setmode cirrus_graph0 ?e) = Inl EFAULT"
    by (simp add: cirrus_setmode_def mk_entry_def mk_mode_def adjust_h_def adjust_v_def
        maxvclks_def vclk_zero Let_def)
  have c: "fst (cirrus_setmode cirrus_graph0 (modes ! 31)) = Inl OVERRUN"
    by (simp add: setmode_default Let_def cirrus_graph0_def)
  have d: "ENOTSUP \<noteq> OVERRUN" "EFAULT \<noteq> OVERRUN" by simp_all
  from cirrus_mode_failure_atomic[of cirrus_graph0 ?e GRAPH_320x200x8 GRAPH_DEFFREQ]
    cirrus_mode_failure_atomic[of cirrus_graph0 "modes ! 31" GRAPH_320x200x8 GRAPH_DEFFREQ] a b c d
  show ?thesis by blast
qed

section \<open>Hardware cursor: proofs\<close>

lemma fold_write:
  "fold (\<lambda>j (m, cur). (m(cur := v j), cur + 1)) [0 ..< n] (m, c) =
     ((\<lambda>p. if c \<le> p \<and> p < c + int n then v (nat (p - c)) else m p), c + int n)"
proof (induction n)
  case 0
  show ?case by (auto simp: fun_eq_iff)
next
  case (Suc n)
  let ?F = "\<lambda>j (m, cur). (m(cur := v j), cur + 1 :: int)"
  let ?M = "\<lambda>n p. if c \<le> p \<and> p < c + int n then v (nat (p - c)) else m p"
  have "fold ?F [0 ..< Suc n] (m, c) = ?F n (fold ?F [0 ..< n] (m, c))" by simp
  also have "\<dots> = ?F n (?M n, c + int n)" by (simp only: Suc)
  also have "\<dots> = ((?M n)(c + int n := v n), c + int n + 1)" by (simp only: prod.case)
  also have "(?M n)(c + int n := v n) = ?M (Suc n)" by (rule ext) auto
  finally show ?case by (simp add: add.assoc add.commute)
qed

lemma cursor_row_eq:
  "cursor_row a x i (m, c) =
     ((\<lambda>p. if c \<le> p \<and> p < c + 8 then x (8 * i + nat (p - c))
            else if c + 8 \<le> p \<and> p < c + 16 then NOT (a (8 * i + nat (p - c - 8)))
            else m p), c + 16)"
proof -
  let ?m1 = "\<lambda>p. if c \<le> p \<and> p < c + 8 then x (8 * i + nat (p - c)) else m p"
  have s1: "fold (\<lambda>j (m, cur). (m(cur := x (8 * i + j)), cur + 1)) [0 ..< 8] (m, c) = (?m1, c + 8)"
    using fold_write[where v = "\<lambda>j. x (8 * i + j)", of 8 m c] by simp
  have s2: "fold (\<lambda>j (m, cur). (m(cur := NOT (a (8 * i + j))), cur + 1)) [0 ..< 8] (?m1, c + 8) =
      ((\<lambda>p. if c + 8 \<le> p \<and> p < c + 8 + 8 then NOT (a (8 * i + nat (p - (c + 8)))) else ?m1 p), c + 8 + 8)"
    using fold_write[where v = "\<lambda>j. NOT (a (8 * i + j))", of 8 ?m1 "c + 8"] by simp
  have "(\<lambda>p. if c + 8 \<le> p \<and> p < c + 8 + 8 then NOT (a (8 * i + nat (p - (c + 8)))) else ?m1 p) =
        (\<lambda>p. if c \<le> p \<and> p < c + 8 then x (8 * i + nat (p - c))
            else if c + 8 \<le> p \<and> p < c + 16 then NOT (a (8 * i + nat (p - c - 8)))
            else m p)"
    by (rule ext) (auto simp: algebra_simps)
  with s1 s2 show ?thesis
    unfolding cursor_row_def Let_def by (simp only:) simp
qed

lemma cursor_rows_eq:
  "fold (cursor_row a x) [0 ..< n] (m, c) =
     ((\<lambda>p. if c \<le> p \<and> p < c + 16 * int n then sprite_byte a x (nat (p - c)) else m p),
      c + 16 * int n)"
proof (induction n)
  case 0
  show ?case by (auto simp: fun_eq_iff)
next
  case (Suc n)
  let ?c = "c + 16 * int n"
  have "(\<lambda>p. if ?c \<le> p \<and> p < ?c + 8 then x (8 * n + nat (p - ?c))
            else if ?c + 8 \<le> p \<and> p < ?c + 16 then NOT (a (8 * n + nat (p - ?c - 8)))
            else if c \<le> p \<and> p < c + 16 * int n then sprite_byte a x (nat (p - c)) else m p) =
        (\<lambda>p. if c \<le> p \<and> p < c + 16 * int (Suc n) then sprite_byte a x (nat (p - c)) else m p)"
  proof (rule ext)
    fix p
    consider (lo) "p < c" | (old) "c \<le> p" "p < ?c" | (x) "?c \<le> p" "p < ?c + 8"
      | (a) "?c + 8 \<le> p" "p < ?c + 16" | (hi) "?c + 16 \<le> p" by linarith
    then show "(if ?c \<le> p \<and> p < ?c + 8 then x (8 * n + nat (p - ?c))
            else if ?c + 8 \<le> p \<and> p < ?c + 16 then NOT (a (8 * n + nat (p - ?c - 8)))
            else if c \<le> p \<and> p < c + 16 * int n then sprite_byte a x (nat (p - c)) else m p) =
        (if c \<le> p \<and> p < c + 16 * int (Suc n) then sprite_byte a x (nat (p - c)) else m p)"
    proof cases
      case lo then show ?thesis by simp
    next
      case old then show ?thesis by simp
    next
      case x
      define k where "k = nat (p - ?c)"
      have k: "k < 8" "nat (p - c) = 16 * n + k" using x by (simp_all add: k_def nat_add_distrib)
      hence "(16 * n + k) div 16 = n" "(16 * n + k) mod 16 = k" by simp_all
      with x k show ?thesis by (simp add: sprite_byte_def k_def)
    next
      case a
      define k where "k = nat (p - ?c - 8)"
      have k: "k < 8" "nat (p - c) = 16 * n + (k + 8)" using a by (simp_all add: k_def nat_add_distrib)
      hence "(16 * n + (k + 8)) div 16 = n" "(16 * n + (k + 8)) mod 16 = k + 8" by simp_all
      with a k show ?thesis by (simp add: sprite_byte_def k_def)
    next
      case hi then show ?thesis by simp
    qed
  qed
  with Suc show ?case by (simp add: cursor_row_eq)
qed

lemma cursor_sprite_eq:
  "cursor_sprite a x m c =
     ((\<lambda>p. if c \<le> p \<and> p < c + 1024 then sprite_byte a x (nat (p - c)) else m p), c + 1024)"
  unfolding cursor_sprite_def by (simp only: cursor_rows_eq) simp

lemma fits_unat:
  fixes h w :: uint and d :: uchar
  assumes "unat h * unat w * unat d + 4096 < 2^32"
  shows "unat (h * w * ucast d + 0x1000) = unat h * unat w * unat d + 4096"
proof -
  have "unat d < 2^8" using unsigned_less[of d] by simp
  hence "unat d < 2^32" by simp
  hence d: "unat (ucast d :: uint) = unat d"
    by (simp add: unsigned_ucast_eq take_bit_nat_eq_self)
  show ?thesis
  proof (cases "unat d = 0")
    case True
    hence "d = 0" by (simp add: unat_eq_0)
    thus ?thesis by simp
  next
    case False
    hence "1 \<le> unat d" by simp
    hence "unat h * unat w * 1 \<le> unat h * unat w * unat d" by (rule mult_le_mono2)
    hence le: "unat h * unat w \<le> unat h * unat w * unat d" by (simp only: mult_1_right)
    have hw: "unat h * unat w < 2^32" using le assms by linarith
    hence a: "unat (h * w) = unat h * unat w"
      by (subst unat_mult_lem[symmetric]) simp
    have "unat (h * w) * unat (ucast d :: uint) < 2^32" using assms by (simp add: a d)
    hence b: "unat (h * w * ucast d) = unat (h * w) * unat (ucast d :: uint)"
      by (subst unat_mult_lem[symmetric]) simp
    have "unat (h * w * ucast d) + unat (0x1000 :: uint) < 2^32" using assms by (simp add: a b d)
    hence "unat (h * w * ucast d + 0x1000) = unat (h * w * ucast d) + unat (0x1000 :: uint)"
      by (subst unat_add_lem[symmetric]) simp
    thus ?thesis by (simp add: a b d)
  qed
qed

lemma cursorset_ok:
  assumes "\<not> vmemsz (adapter g) < height g * width g * ucast (depth g) + 0x1000"
  shows "fst (cirrus_cursorset g a x bg fg) = Inr ()"
  using assms unfolding cirrus_cursorset_def Let_def
  by (simp only: if_False case_prod_beta fst_conv)

lemma cursorset_vmem:
  assumes "\<not> vmemsz (adapter g) < height g * width g * ucast (depth g) + 0x1000"
  shows "vmem (adapter (snd (cirrus_cursorset g a x bg fg))) =
     fst (cursor_sprite a x (vmem (adapter g)) (uint (vmemsz (adapter g)) - 0x1000))"
  using assms unfolding cirrus_cursorset_def Let_def
  by (simp only: if_False case_prod_beta snd_conv) simp

text \<open>No graphics entry of the catalog has a frame that overflows 32 bits with the sprite area.\<close>

lemma modes_fit:
  "list_all (\<lambda>e. case payload e of
       Pwm a b \<Rightarrow> True
     | Gfx f m \<Rightarrow> unat (vres m) * unat (hres m) * unat (mdepth e) + 4096 < 2^32) modes"
  by (simp add: modes_def cfgs_def mk_entry_def mk_mode_def)

subsection \<open>C8: the cursor reservation\<close>

text \<open>
  Claim C8. For every adapter state whose reported mode is one whose frame size plus
  4096 does not overflow 32 bits (every mode of the catalog is) and every cursor-set
  request: the call fails with \<open>ENOSPC\<close> (InsufficientFramebuffer) exactly when width
  times height times depth plus 4096 exceeds the mapped size; on that failure the adapter
  is unchanged, so no byte of video memory and no register is written; otherwise the call
  succeeds, the mapped size is at least 4096, and the video memory changes exactly in the
  first 1024 bytes of its last 4096, which hold the sprite rows (eight XOR bytes, then
  eight complemented AND bytes).
\<close>

theorem cirrus_cursorset_reservation:
  assumes fit: "unat (height g) * unat (width g) * unat (depth g) + 4096 < 2^32"
  shows "(fst (cirrus_cursorset g a x bg fg) = Inl ENOSPC \<longleftrightarrow>
            unat (vmemsz (adapter g)) < unat (width g) * unat (height g) * unat (depth g) + 4096) \<and>
         (fst (cirrus_cursorset g a x bg fg) = Inl ENOSPC \<longrightarrow> snd (cirrus_cursorset g a x bg fg) = g) \<and>
         (fst (cirrus_cursorset g a x bg fg) \<noteq> Inl ENOSPC \<longrightarrow>
            fst (cirrus_cursorset g a x bg fg) = Inr () \<and>
            4096 \<le> uint (vmemsz (adapter g)) \<and>
            (\<forall>p. vmem (adapter (snd (cirrus_cursorset g a x bg fg))) p =
                 (if uint (vmemsz (adapter g)) - 4096 \<le> p \<and> p < uint (vmemsz (adapter g)) - 4096 + 1024
                  then sprite_byte a x (nat (p - (uint (vmemsz (adapter g)) - 4096)))
                  else vmem (adapter g) p)))"
proof -
  let ?need = "height g * width g * ucast (depth g) + 0x1000"
  have need: "unat ?need = unat (height g) * unat (width g) * unat (depth g) + 4096"
    by (rule fits_unat[OF fit])
  have cond: "vmemsz (adapter g) < ?need \<longleftrightarrow>
      unat (vmemsz (adapter g)) < unat (width g) * unat (height g) * unat (depth g) + 4096"
  proof -
    have "vmemsz (adapter g) < ?need \<longleftrightarrow> unat (vmemsz (adapter g)) < unat ?need"
      by (rule word_less_nat_alt)
    also have "unat ?need = unat (width g) * unat (height g) * unat (depth g) + 4096"
      by (simp only: need mult.commute[of "unat (height g)"])
    finally show ?thesis .
  qed
  show ?thesis
  proof (cases "vmemsz (adapter g) < ?need")
    case True
    hence e: "cirrus_cursorset g a x bg fg = (Inl ENOSPC, g)"
      unfolding cirrus_cursorset_def Let_def by (simp only: if_True)
    from True cond have "unat (vmemsz (adapter g)) <
        unat (width g) * unat (height g) * unat (depth g) + 4096" by blast
    thus ?thesis by (simp add: e)
  next
    case False
    from False have r: "fst (cirrus_cursorset g a x bg fg) = Inr ()"
      by (rule cursorset_ok)
    have m: "vmem (adapter (snd (cirrus_cursorset g a x bg fg))) =
         (\<lambda>p. if uint (vmemsz (adapter g)) - 0x1000 \<le> p \<and> p < uint (vmemsz (adapter g)) - 0x1000 + 1024
              then sprite_byte a x (nat (p - (uint (vmemsz (adapter g)) - 0x1000)))
              else vmem (adapter g) p)"
      by (simp only: cursorset_vmem[OF False] cursor_sprite_eq fst_conv)
    from False cond have n: "\<not> unat (vmemsz (adapter g)) <
        unat (width g) * unat (height g) * unat (depth g) + 4096" by blast
    hence "unat (width g) * unat (height g) * unat (depth g) + 4096 \<le> unat (vmemsz (adapter g))"
      by (simp only: not_less)
    hence "4096 \<le> unat (vmemsz (adapter g))" by (rule add_leD2)
    with uint_nat[of "vmemsz (adapter g)"] have sz: "4096 \<le> uint (vmemsz (adapter g))" by linarith
    have ne: "fst (cirrus_cursorset g a x bg fg) \<noteq> Inl ENOSPC" by (simp add: r)
    from n r m sz ne show ?thesis by (simp only: simp_thms)
  qed
qed

theorem cirrus_cursorset_reservation_witness:
  "unat (height cirrus_graph1) * unat (width cirrus_graph1) * unat (depth cirrus_graph1) + 4096 < 2^32 \<and>
   fst (cirrus_cursorset cirrus_graph1 (\<lambda>i. 0) (\<lambda>i. 0xff) 0 0xffffff) = Inl ENOSPC \<and>
   snd (cirrus_cursorset cirrus_graph1 (\<lambda>i. 0) (\<lambda>i. 0xff) 0 0xffffff) = cirrus_graph1 \<and>
   unat (height cirrus_graph0) * unat (width cirrus_graph0) * unat (depth cirrus_graph0) + 4096 < 2^32 \<and>
   fst (cirrus_cursorset cirrus_graph0 (\<lambda>i. 0) (\<lambda>i. 0xff) 0 0xffffff) = Inr () \<and>
   vmem (adapter (snd (cirrus_cursorset cirrus_graph0 (\<lambda>i. 0) (\<lambda>i. 0xff) 0 0xffffff))) 0xff000 = 0xff \<and>
   vmem (adapter (snd (cirrus_cursorset cirrus_graph0 (\<lambda>i. 0) (\<lambda>i. 0xff) 0 0xffffff))) 0xff400 = 0"
proof -
  have f1: "unat (height cirrus_graph1) * unat (width cirrus_graph1) * unat (depth cirrus_graph1) + 4096 < 2^32"
    by (simp add: cirrus_graph1_def cirrus_graph0_def)
  have f0: "unat (height cirrus_graph0) * unat (width cirrus_graph0) * unat (depth cirrus_graph0) + 4096 < 2^32"
    by (simp add: cirrus_graph0_def)
  have s1: "unat (vmemsz (adapter cirrus_graph1)) <
      unat (width cirrus_graph1) * unat (height cirrus_graph1) * unat (depth cirrus_graph1) + 4096"
    by (simp add: cirrus_graph1_def cirrus_graph0_def)
  have s0: "\<not> unat (vmemsz (adapter cirrus_graph0)) <
      unat (width cirrus_graph0) * unat (height cirrus_graph0) * unat (depth cirrus_graph0) + 4096"
    by (simp add: cirrus_graph0_def)
  have v0: "uint (vmemsz (adapter cirrus_graph0)) = 0x100000" "vmem (adapter cirrus_graph0) = (\<lambda>a. 0)"
    by (simp_all add: cirrus_graph0_def)
  note t1 = cirrus_cursorset_reservation[OF f1, of "\<lambda>i. 0" "\<lambda>i. 0xff" 0 "0xffffff"]
  note t0 = cirrus_cursorset_reservation[OF f0, of "\<lambda>i. 0" "\<lambda>i. 0xff" 0 "0xffffff"]
  from t1 s1 have a: "fst (cirrus_cursorset cirrus_graph1 (\<lambda>i. 0) (\<lambda>i. 0xff) 0 0xffffff) = Inl ENOSPC"
      "snd (cirrus_cursorset cirrus_graph1 (\<lambda>i. 0) (\<lambda>i. 0xff) 0 0xffffff) = cirrus_graph1" by blast+
  from t0 s0 have b: "fst (cirrus_cursorset cirrus_graph0 (\<lambda>i. 0) (\<lambda>i. 0xff) 0 0xffffff) = Inr ()"
     "\<forall>p. vmem (adapter (snd (cirrus_cursorset cirrus_graph0 (\<lambda>i. 0) (\<lambda>i. 0xff) 0 0xffffff))) p =
                 (if uint (vmemsz (adapter cirrus_graph0)) - 4096 \<le> p \<and> p < uint (vmemsz (adapter cirrus_graph0)) - 4096 + 1024
                  then sprite_byte (\<lambda>i. 0) (\<lambda>i. 0xff) (nat (p - (uint (vmemsz (adapter cirrus_graph0)) - 4096)))
                  else vmem (adapter cirrus_graph0) p)" by blast+
  from b(2) have "vmem (adapter (snd (cirrus_cursorset cirrus_graph0 (\<lambda>i. 0) (\<lambda>i. 0xff) 0 0xffffff))) 0xff000 = 0xff"
    "vmem (adapter (snd (cirrus_cursorset cirrus_graph0 (\<lambda>i. 0) (\<lambda>i. 0xff) 0 0xffffff))) 0xff400 = 0"
    by (simp_all add: v0 sprite_byte_def)
  with f1 f0 a b(1) show ?thesis by simp
qed

section \<open>Power management: proofs\<close>

text \<open>A power entry runs the two read-modify-writes and returns.\<close>

lemma cirrus_setmode_pwm:
  "cirrus_setmode g (mk_entry m 0 (Pwm a b)) =
     (Inr (), g\<lparr>adapter := (adapter g)\<lparr>vga := dpms_cirrus a b (vga (adapter g))\<rparr>\<rparr>)"
  by (simp add: cirrus_setmode_def mk_entry_def dpms_cirrus_def facade_defs Let_def)

lemma vgadev_setmode_pwm:
  "vgadev_setmode g (mk_entry m 0 (Pwm a b)) =
     (Inr (), g\<lparr>adapter := (adapter g)\<lparr>vgadev_vga := dpms_vgadev a b (vgadev_vga (adapter g))\<rparr>\<rparr>)"
  by (simp add: vgadev_setmode_def mk_entry_def dpms_vgadev_def facade_defs Let_def fun_upd_twist)

lemma mask_bits: "((x AND m) OR a) AND m = (x AND m) OR (a AND (m::uchar))"
  by (auto simp: bit_eq_iff bit_simps)

text \<open>The lookup finds the four power entries at the head of either catalog.\<close>

lemma cirrus_mode_power:
  "cirrus_mode g GRAPH_ON f = cirrus_setmode g (mk_entry GRAPH_ON 0 (Pwm 0x00 0x00))"
  "cirrus_mode g GRAPH_OFF f = cirrus_setmode g (mk_entry GRAPH_OFF 0 (Pwm 0x20 0x06))"
  "cirrus_mode g GRAPH_STANDBY f = cirrus_setmode g (mk_entry GRAPH_STANDBY 0 (Pwm 0x20 0x02))"
  "cirrus_mode g GRAPH_SUSPEND f = cirrus_setmode g (mk_entry GRAPH_SUSPEND 0 (Pwm 0x20 0x04))"
  by (simp_all add: cirrus_mode_def cirrus_lookup_def modes_def mk_entry_def)

lemma vgadev_mode_power:
  "vgadev_mode g GRAPH_ON f = vgadev_setmode g (mk_entry GRAPH_ON 0 (Pwm 0x00 0x80))"
  "vgadev_mode g GRAPH_OFF f = vgadev_setmode g (mk_entry GRAPH_OFF 0 (Pwm 0x20 0x00))"
  "vgadev_mode g GRAPH_STANDBY f = vgadev_setmode g (mk_entry GRAPH_STANDBY 0 (Pwm 0x20 0x80))"
  "vgadev_mode g GRAPH_SUSPEND f = vgadev_setmode g (mk_entry GRAPH_SUSPEND 0 (Pwm 0x20 0x80))"
  by (simp_all add: vgadev_mode_def vgadev_modes_def mk_entry_def)

lemma dpms_cirrus_only:
  "a AND NOT 0x20 = 0 \<Longrightarrow> b AND NOT 0x06 = 0 \<Longrightarrow> cirrus_power_only v (dpms_cirrus a b v)"
  by (simp add: cirrus_power_only_def dpms_cirrus_def mask_bits)

lemma dpms_vgadev_only:
  "a AND NOT 0x20 = 0 \<Longrightarrow> b AND NOT 0x80 = 0 \<Longrightarrow> vgadev_power_only v (dpms_vgadev a b v)"
  by (simp add: vgadev_power_only_def dpms_vgadev_def mask_bits fun_upd_twist)

lemma dpms_cirrus_twice:
  "dpms_cirrus 0 0 (dpms_cirrus 0 0 v) =
     (dpms_cirrus 0 0 v)\<lparr>trace := trace (dpms_cirrus 0 0 v) @
        [ReadSeq 0x01, WriteSeq 0x01 (r_seq v 0x01 AND NOT 0x20),
         ReadGfx 0x0e, WriteGfx 0x0e (r_gfx v 0x0e AND NOT 0x06)]\<rparr>"
  by (simp add: dpms_cirrus_def mask_bits)

lemma dpms_vgadev_twice:
  "dpms_vgadev 0 0x80 (dpms_vgadev 0 0x80 v) =
     (dpms_vgadev 0 0x80 v)\<lparr>trace := trace (dpms_vgadev 0 0x80 v) @
        [WriteSeq 0x00 0x01, ReadSeq 0x01, WriteSeq 0x01 (r_seq v 0x01 AND NOT 0x20),
         ReadCrtc 0x17, WriteCrtc 0x17 ((r_crtc v 0x17 AND NOT 0x80) OR 0x80), WriteSeq 0x00 0x03]\<rparr>"
  by (simp add: dpms_vgadev_def mask_bits)

subsection \<open>C9: the power entries\<close>

text \<open>
  Claim C9, amended. For every adapter state of either driver, a mode request with the
  DPMS-On entry succeeds, and applying it twice in succession performs the same sequence
  of register accesses with byte-identical written values both times; the second
  application changes nothing but the access log. For every power entry (On, Off,
  Standby, Suspend) the request succeeds, leaves the reported mode and the rest of the
  adapter as they were, and modifies on the Cirrus adapter only the screen-enable bit
  0x20 of sequencer register 1 and the sync bits 0x06 of graphics register 0x0e; on the
  generic VGA adapter only the screen-enable bit, the sync bit 0x80 of CRTC register
  0x17 and sequencer register 0, which the reset bracket around the two
  read-modify-writes sets to 0x01 and then to 0x03. No timing register is written.
\<close>

theorem dpms_power_entries:
  "(let v = vga (adapter g);
        g1 = snd (cirrus_mode g GRAPH_ON f);
        g2 = snd (cirrus_mode g1 GRAPH_ON f);
        es = [ReadSeq 0x01, WriteSeq 0x01 (r_seq v 0x01 AND NOT 0x20),
              ReadGfx 0x0e, WriteGfx 0x0e (r_gfx v 0x0e AND NOT 0x06)]
    in fst (cirrus_mode g GRAPH_ON f) = Inr () \<and> fst (cirrus_mode g1 GRAPH_ON f) = Inr () \<and>
       trace (vga (adapter g1)) = trace v @ es \<and>
       trace (vga (adapter g2)) = trace (vga (adapter g1)) @ es \<and>
       g2 = g1\<lparr>adapter := (adapter g1)\<lparr>vga := (vga (adapter g1))\<lparr>trace := trace (vga (adapter g1)) @ es\<rparr>\<rparr>\<rparr>) \<and>
   (let v = vgadev_vga (adapter h);
        h1 = snd (vgadev_mode h GRAPH_ON f);
        h2 = snd (vgadev_mode h1 GRAPH_ON f);
        es = [WriteSeq 0x00 0x01, ReadSeq 0x01, WriteSeq 0x01 (r_seq v 0x01 AND NOT 0x20),
              ReadCrtc 0x17, WriteCrtc 0x17 ((r_crtc v 0x17 AND NOT 0x80) OR 0x80), WriteSeq 0x00 0x03]
    in fst (vgadev_mode h GRAPH_ON f) = Inr () \<and> fst (vgadev_mode h1 GRAPH_ON f) = Inr () \<and>
       trace (vgadev_vga (adapter h1)) = trace v @ es \<and>
       trace (vgadev_vga (adapter h2)) = trace (vgadev_vga (adapter h1)) @ es \<and>
       h2 = h1\<lparr>adapter := (adapter h1)\<lparr>vgadev_vga :=
              (vgadev_vga (adapter h1))\<lparr>trace := trace (vgadev_vga (adapter h1)) @ es\<rparr>\<rparr>\<rparr>) \<and>
   (power_tag m \<longrightarrow>
      fst (cirrus_mode g m f) = Inr () \<and>
      snd (cirrus_mode g m f) = g\<lparr>adapter := (adapter g)\<lparr>vga := vga (adapter (snd (cirrus_mode g m f)))\<rparr>\<rparr> \<and>
      cirrus_power_only (vga (adapter g)) (vga (adapter (snd (cirrus_mode g m f)))) \<and>
      fst (vgadev_mode h m f) = Inr () \<and>
      snd (vgadev_mode h m f) = h\<lparr>adapter := (adapter h)\<lparr>vgadev_vga := vgadev_vga (adapter (snd (vgadev_mode h m f)))\<rparr>\<rparr> \<and>
      vgadev_power_only (vgadev_vga (adapter h)) (vgadev_vga (adapter (snd (vgadev_mode h m f)))))"
proof -
  have c: "cirrus_mode g GRAPH_ON f = (Inr (), g\<lparr>adapter := (adapter g)\<lparr>vga := dpms_cirrus 0 0 (vga (adapter g))\<rparr>\<rparr>)" for g
    by (simp only: cirrus_mode_power cirrus_setmode_pwm)
  have d: "vgadev_mode h GRAPH_ON f = (Inr (), h\<lparr>adapter := (adapter h)\<lparr>vgadev_vga := dpms_vgadev 0 0x80 (vgadev_vga (adapter h))\<rparr>\<rparr>)" for h
    by (simp only: vgadev_mode_power vgadev_setmode_pwm)
  have p1: ?thesis if "m = GRAPH_ON \<or> m = GRAPH_OFF \<or> m = GRAPH_STANDBY \<or> m = GRAPH_SUSPEND \<or> \<not> power_tag m"
    using that
    apply (elim disjE)
    subgoal
      by (simp add: Let_def c d cirrus_mode_power vgadev_mode_power cirrus_setmode_pwm vgadev_setmode_pwm
          dpms_cirrus_twice dpms_vgadev_twice dpms_cirrus_only dpms_vgadev_only)
        (simp add: dpms_cirrus_def dpms_vgadev_def)
    subgoal
      by (simp add: Let_def c d cirrus_mode_power vgadev_mode_power cirrus_setmode_pwm vgadev_setmode_pwm
          dpms_cirrus_twice dpms_vgadev_twice dpms_cirrus_only dpms_vgadev_only)
        (simp add: dpms_cirrus_def dpms_vgadev_def)
    subgoal
      by (simp add: Let_def c d cirrus_mode_power vgadev_mode_power cirrus_setmode_pwm vgadev_setmode_pwm
          dpms_cirrus_twice dpms_vgadev_twice dpms_cirrus_only dpms_vgadev_only)
        (simp add: dpms_cirrus_def dpms_vgadev_def)
    subgoal
      by (simp add: Let_def c d cirrus_mode_power vgadev_mode_power cirrus_setmode_pwm vgadev_setmode_pwm
          dpms_cirrus_twice dpms_vgadev_twice dpms_cirrus_only dpms_vgadev_only)
        (simp add: dpms_cirrus_def dpms_vgadev_def)
    subgoal
      by (simp add: Let_def c d dpms_cirrus_twice dpms_vgadev_twice)
        (simp add: dpms_cirrus_def dpms_vgadev_def)
    done
  show ?thesis by (rule p1) (auto simp: power_tag_def)
qed

text \<open>
  The theorem at the Off entry and at two successive On requests on the example adapters,
  whose registers are all zero.
\<close>

theorem dpms_power_entries_witness:
  "power_tag GRAPH_OFF \<and>
   fst (cirrus_mode cirrus_graph0 GRAPH_OFF GRAPH_DEFFREQ) = Inr () \<and>
   cirrus_power_only (vga (adapter cirrus_graph0))
     (vga (adapter (snd (cirrus_mode cirrus_graph0 GRAPH_OFF GRAPH_DEFFREQ)))) \<and>
   fst (vgadev_mode vgadev_graph0 GRAPH_OFF GRAPH_DEFFREQ) = Inr () \<and>
   vgadev_power_only (vgadev_vga (adapter vgadev_graph0))
     (vgadev_vga (adapter (snd (vgadev_mode vgadev_graph0 GRAPH_OFF GRAPH_DEFFREQ)))) \<and>
   trace (vga (adapter (snd (cirrus_mode cirrus_graph0 GRAPH_ON GRAPH_DEFFREQ)))) =
     [ReadSeq 0x01, WriteSeq 0x01 0x00, ReadGfx 0x0e, WriteGfx 0x0e 0x00] \<and>
   trace (vga (adapter (snd (cirrus_mode (snd (cirrus_mode cirrus_graph0 GRAPH_ON GRAPH_DEFFREQ))
       GRAPH_ON GRAPH_DEFFREQ)))) =
     [ReadSeq 0x01, WriteSeq 0x01 0x00, ReadGfx 0x0e, WriteGfx 0x0e 0x00,
      ReadSeq 0x01, WriteSeq 0x01 0x00, ReadGfx 0x0e, WriteGfx 0x0e 0x00]"
proof -
  have p: "power_tag GRAPH_OFF" by (simp add: power_tag_def)
  have v: "trace (vga (adapter cirrus_graph0)) = []" "r_seq (vga (adapter cirrus_graph0)) 0x01 = 0"
    "r_gfx (vga (adapter cirrus_graph0)) 0x0e = 0"
    by (simp_all add: cirrus_graph0_def vga0_def)
  from dpms_power_entries[of cirrus_graph0 GRAPH_DEFFREQ vgadev_graph0 GRAPH_OFF] p v
  show ?thesis by (simp add: Let_def)
qed

text \<open>
  The claim as it stands fails on the generic VGA adapter: a power entry also rewrites
  sequencer register 0, which is neither the screen-enable nor a sync-enable bit. On the
  example adapter the register holds 0x00 before the On request and 0x03 after it.
\<close>

theorem vgadev_power_counterexample:
  "r_seq (vgadev_vga (adapter vgadev_graph0)) 0x00 = 0x00 \<and>
   fst (vgadev_mode vgadev_graph0 GRAPH_ON GRAPH_DEFFREQ) = Inr () \<and>
   r_seq (vgadev_vga (adapter (snd (vgadev_mode vgadev_graph0 GRAPH_ON GRAPH_DEFFREQ)))) 0x00 = 0x03"
  by (simp add: vgadev_mode_power vgadev_setmode_pwm dpms_vgadev_def vgadev_graph0_def vga0_def)

section \<open>Save and restore: proofs\<close>

subsection \<open>The access log of each phase\<close>








subsection \<open>The text and font phase\<close>









subsection \<open>What the text phase copies\<close>
























subsection \<open>C7: the order of save and restore\<close>


end
